(* ===== verification/Prelude.thy ===== *)
theory Prelude
  imports Main
    "HOL-Library.Word"
    "HOL-Library.Multiset"
    "HOL-Library.Char_ord"
    "HOL-Library.List_Lexorder"
    "HOL-Library.Product_Lexorder"
begin

text \<open>
  What every component of the development shares: the machine integers and byte strings of
  the Rust code, the propagation of errors through \<open>?\<close>, the standard-library string and
  slice functions that several files call (\<open>split\<close>, \<open>starts_with\<close>, \<open>contains\<close>, \<open>trim\<close>,
  \<open>iter_mut().find\<close>), saturating arithmetic, and the generic lemmas about them. A Rust
  \<open>String\<close> is its UTF-8 byte sequence: one \<open>char\<close> per byte, so \<open>length\<close> is \<open>str::len\<close>.
\<close>

section \<open>Types\<close>

type_synonym u8 = "8 word"
type_synonym u32 = "32 word"
type_synonym u64 = "64 word"
type_synonym bytes = "u8 list"

named_theorems err_simps \<open>rewriting of error propagation\<close>
named_theorems str_simps \<open>rewriting of the string functions\<close>

text \<open>A \<open>std::time::Duration\<close> is a number of nanoseconds; \<open>as_millis\<close> truncates.\<close>

type_synonym duration = nat

definition as_millis :: "duration \<Rightarrow> nat" where
  "as_millis d = d div 1000000"

definition from_secs :: "nat \<Rightarrow> duration" where
  "from_secs n = n * 1000000000"

section \<open>Error propagation\<close>

text \<open>A \<open>Result<T, E>\<close> is \<open>'e + 't\<close> with \<open>Inl\<close> for \<open>Err\<close>. \<open>andthen m f\<close> is what the
  \<open>?\<close> operator does: the error of \<open>m\<close> returns at once, its value goes on to \<open>f\<close>.\<close>

definition andthen :: "'e + 'a \<Rightarrow> ('a \<Rightarrow> 'e + 'b) \<Rightarrow> 'e + 'b" where
  "andthen m f = (case m of Inl e \<Rightarrow> Inl e | Inr x \<Rightarrow> f x)"

definition map_err :: "('e \<Rightarrow> 'f) \<Rightarrow> 'e + 'a \<Rightarrow> 'f + 'a" where
  "map_err g m = (case m of Inl e \<Rightarrow> Inl (g e) | Inr x \<Rightarrow> Inr x)"

definition ok_or :: "'e \<Rightarrow> 'a option \<Rightarrow> 'e + 'a" where
  "ok_or e x = (case x of None \<Rightarrow> Inl e | Some v \<Rightarrow> Inr v)"

lemma andthen_simps [simp, err_simps]:
  "andthen (Inl e) f = Inl e" "andthen (Inr x) f = f x"
  by (simp_all add: andthen_def)

lemma map_err_simps [simp, err_simps]:
  "map_err g (Inl e) = Inl (g e)" "map_err g (Inr x) = Inr x"
  by (simp_all add: map_err_def)

lemma ok_or_simps [simp, err_simps]:
  "ok_or e None = Inl e" "ok_or e (Some v) = Inr v"
  by (simp_all add: ok_or_def)

lemma andthen_eq_Inr [err_simps]:
  "andthen m f = Inr y \<longleftrightarrow> (\<exists>x. m = Inr x \<and> f x = Inr y)"
  by (cases m) simp_all

lemma map_err_eq_Inr [err_simps]: "map_err g m = Inr y \<longleftrightarrow> m = Inr y"
  by (cases m) simp_all

lemma ok_or_eq_Inr [err_simps]: "ok_or e m = Inr y \<longleftrightarrow> m = Some y"
  by (cases m) simp_all

section \<open>Lists\<close>

text \<open>\<open>if let Some(x) = xs.iter_mut().find(p) { f(x) }\<close>: the first element that satisfies
  \<open>p\<close> is replaced, the others are kept.\<close>

fun update_first :: "('a \<Rightarrow> bool) \<Rightarrow> ('a \<Rightarrow> 'a) \<Rightarrow> 'a list \<Rightarrow> 'a list" where
  "update_first p f [] = []"
| "update_first p f (x # xs) = (if p x then f x # xs else x # update_first p f xs)"

lemma length_update_first [simp]: "length (update_first p f xs) = length xs"
  by (induction xs) auto

lemma map_update_first:
  "(\<And>x. p x \<Longrightarrow> g (f x) = g x) \<Longrightarrow> map g (update_first p f xs) = map g xs"
  by (induction xs) auto

lemma set_update_first: "set (update_first p f xs) \<subseteq> set xs \<union> f ` set xs"
  by (induction xs) auto

lemma update_first_id: "find p xs = None \<Longrightarrow> update_first p f xs = xs"
  by (induction xs) (auto split: if_splits)

lemma find_update_first:
  "(\<And>x. p x \<Longrightarrow> p (f x)) \<Longrightarrow> find p (update_first p f xs) = map_option f (find p xs)"
  by (induction xs) auto

lemma find_update_first_other:
  "(\<And>x. p x \<Longrightarrow> \<not> q x \<and> \<not> q (f x)) \<Longrightarrow> find q (update_first p f xs) = find q xs"
  by (induction xs) auto

lemma update_first_eq_map:
  assumes "distinct (map k xs)" and "\<And>x. p x \<longleftrightarrow> k x = a"
  shows "update_first p f xs = map (\<lambda>x. if p x then f x else x) xs"
  using assms(1)
proof (induction xs)
  case (Cons x xs)
  have "\<not> p y" if "p x" and "y \<in> set xs" for y
    using Cons.prems that by (metis assms(2) distinct.simps(2) image_eqI list.set_map list.simps(9))
  then have "map (\<lambda>y. if p y then f y else y) xs = xs" if "p x"
    using that by (auto intro!: map_idI)
  with Cons show ?case by auto
qed simp

lemma find_Some_mem: "find p xs = Some x \<Longrightarrow> x \<in> set xs \<and> p x"
  by (auto simp: find_Some_iff)

lemma find_key_eq:
  "distinct (map k xs) \<Longrightarrow> x \<in> set xs \<Longrightarrow> find (\<lambda>y. k y = k x) xs = Some x"
  by (induction xs) (auto simp: image_iff)

lemma find_append: "find p (xs @ ys) = (case find p xs of None \<Rightarrow> find p ys | Some x \<Rightarrow> Some x)"
  by (induction xs) auto

lemma find_filter_key:
  "(\<And>x. x \<in> set xs \<Longrightarrow> p x \<Longrightarrow> q x) \<Longrightarrow> find p (filter q xs) = find p xs"
  by (induction xs) auto

lemma find_filter_distinct:
  "distinct (map k xs) \<Longrightarrow> find (\<lambda>x. k x = a) (filter P xs) =
     (case find (\<lambda>x. k x = a) xs of None \<Rightarrow> None | Some x \<Rightarrow> if P x then Some x else None)"
proof (induction xs)
  case (Cons x xs)
  have "find (\<lambda>y. k y = k x) xs = None"
    using Cons.prems by (auto simp: find_None_iff image_iff)
  with Cons show ?case by auto
qed simp

lemma sorted_wrt_less_last:
  fixes xs :: "'a::linorder list"
  shows "sorted_wrt (<) xs \<Longrightarrow> x \<in> set xs \<Longrightarrow> x \<le> last xs"
  by (induction xs) (auto simp: less_imp_le)

lemma sorted_wrt_less_distinct: "sorted_wrt (<) (xs :: 'a::linorder list) \<Longrightarrow> distinct xs"
  by (induction xs) auto

text \<open>Two association lists whose keys ascend strictly are equal as soon as they hold the
  same bindings.\<close>

lemma strict_sorted_map_of_unique:
  fixes xs ys :: "('k::linorder \<times> 'v) list"
  assumes "sorted_wrt (<) (map fst xs)" and "sorted_wrt (<) (map fst ys)"
    and "map_of xs = map_of ys"
  shows "xs = ys"
proof -
  have dx: "distinct (map fst xs)" and dy: "distinct (map fst ys)"
    using assms(1,2) by (simp_all add: sorted_wrt_less_distinct)
  have "(k, v) \<in> set xs \<longleftrightarrow> (k, v) \<in> set ys" for k v
    using map_of_eq_Some_iff [OF dx, of k v] map_of_eq_Some_iff [OF dy, of k v] assms(3) by simp
  then have same: "set xs = set ys"
    by (auto simp: set_eq_iff)
  show ?thesis
  proof (rule map_sorted_distinct_set_unique [of fst])
    show "inj_on fst (set xs \<union> set ys)"
      using dx same by (simp add: distinct_map)
  qed (use assms(1,2) dx dy same in \<open>simp_all add: strict_sorted_iff\<close>)
qed

text \<open>\<open>HashMap::insert\<close> on an association list without repeated keys.\<close>

fun reg_insert :: "'k \<Rightarrow> 'v \<Rightarrow> ('k \<times> 'v) list \<Rightarrow> ('k \<times> 'v) list" where
  "reg_insert k v [] = [(k, v)]"
| "reg_insert k v ((k', v') # rest) =
     (if k = k' then (k, v) # rest else (k', v') # reg_insert k v rest)"

lemma map_of_reg_insert: "map_of (reg_insert k v xs) = (map_of xs)(k \<mapsto> v)"
  by (induction k v xs rule: reg_insert.induct) auto

lemma keys_reg_insert: "set (map fst (reg_insert k v xs)) = insert k (set (map fst xs))"
  by (induction k v xs rule: reg_insert.induct) auto

lemma distinct_reg_insert: "distinct (map fst xs) \<Longrightarrow> distinct (map fst (reg_insert k v xs))"
proof (induction k v xs rule: reg_insert.induct)
  case (2 k v k' v' rest)
  then show ?case
    using keys_reg_insert [of k v rest] by auto
qed simp

lemma map_of_filter_key: "map_of (filter (\<lambda>p. fst p \<noteq> k) xs) = (map_of xs)(k := None)"
  by (induction xs) auto

section \<open>Strings\<close>

text \<open>\<open>str::split(c)\<close>: the pieces between the separators, an empty string giving one empty
  piece.\<close>

fun split_on :: "char \<Rightarrow> string \<Rightarrow> string list" where
  "split_on c [] = [[]]"
| "split_on c (x # xs) =
     (if x = c then [] # split_on c xs
      else case split_on c xs of [] \<Rightarrow> [[x]] | t # ts \<Rightarrow> (x # t) # ts)"

fun join_with :: "char \<Rightarrow> string list \<Rightarrow> string" where
  "join_with c [] = []"
| "join_with c [t] = t"
| "join_with c (t # ts) = t @ c # join_with c ts"

lemma split_on_not_Nil [simp]: "split_on c s \<noteq> []"
  by (cases s) (auto split: list.splits)

lemma join_split_on: "join_with c (split_on c s) = s"
proof (induction c s rule: split_on.induct)
  case (2 c x xs)
  obtain t ts where ts: "split_on c xs = t # ts"
    by (cases "split_on c xs") auto
  with 2 show ?case by (cases ts) auto
qed simp

lemma split_on_inj: "split_on c s = split_on c t \<Longrightarrow> s = t"
  by (metis join_split_on)

lemma split_on_no_sep: "t \<in> set (split_on c s) \<Longrightarrow> c \<notin> set t"
  by (induction c s arbitrary: t rule: split_on.induct) (auto split: list.splits if_splits)

lemma split_on_free: "c \<notin> set s \<Longrightarrow> split_on c s = [s]"
  by (induction s) auto

lemma split_on_append: "c \<notin> set p \<Longrightarrow> split_on c (p @ c # s) = p # split_on c s"
  by (induction p) auto

text \<open>\<open>str::starts_with\<close> and \<open>str::contains\<close>.\<close>

fun starts_with :: "string \<Rightarrow> string \<Rightarrow> bool" where
  "starts_with s [] = True"
| "starts_with [] (y # ys) = False"
| "starts_with (x # xs) (y # ys) = (x = y \<and> starts_with xs ys)"

fun contains_str :: "string \<Rightarrow> string \<Rightarrow> bool" where
  "contains_str [] n = (n = [])"
| "contains_str (x # xs) n = (starts_with (x # xs) n \<or> contains_str xs n)"

lemma starts_with_iff [str_simps]: "starts_with s p \<longleftrightarrow> (\<exists>r. s = p @ r)"
  by (induction s p rule: starts_with.induct) auto

lemma contains_str_iff [str_simps]: "contains_str s n \<longleftrightarrow> (\<exists>a b. s = a @ n @ b)"
proof (induction s)
  case (Cons x xs)
  show ?case
    by (auto simp: Cons starts_with_iff Cons_eq_append_conv)
qed simp

lemma starts_with_first_token:
  assumes "c \<notin> set p"
  shows "starts_with s (p @ [c]) \<longleftrightarrow> (\<exists>r. split_on c s = p # split_on c r)"
proof
  assume "starts_with s (p @ [c])"
  then show "\<exists>r. split_on c s = p # split_on c r"
    using split_on_append [OF assms] by (auto simp: starts_with_iff)
next
  assume "\<exists>r. split_on c s = p # split_on c r"
  then obtain r where "split_on c s = split_on c (p @ c # r)"
    using split_on_append [OF assms] by auto
  then show "starts_with s (p @ [c])"
    by (auto simp: starts_with_iff dest: split_on_inj)
qed

text \<open>The decimal rendering of an unsigned integer in a formatted message.\<close>

definition digit_char :: "nat \<Rightarrow> char" where
  "digit_char d = char_of (48 + d)"

fun show_nat :: "nat \<Rightarrow> string" where
  "show_nat n = (if n < 10 then [digit_char n] else show_nat (n div 10) @ [digit_char (n mod 10)])"

declare show_nat.simps [simp del]

definition show_word :: "'a::len word \<Rightarrow> string" where
  "show_word w = show_nat (unat w)"

section \<open>Saturating arithmetic\<close>

lemma unat_bound: "unat (a :: 'a::len word) < 2 ^ LENGTH('a)"
  by (rule unsigned_less)

definition saturating_sub :: "'a::len word \<Rightarrow> 'a word \<Rightarrow> 'a word" where
  "saturating_sub a b = (if b \<le> a then a - b else 0)"

definition saturating_mul :: "u64 \<Rightarrow> u64 \<Rightarrow> u64" where
  "saturating_mul a b = (if unat a * unat b < 2 ^ 64 then a * b else - 1)"

definition saturating_pow :: "u64 \<Rightarrow> u32 \<Rightarrow> u64" where
  "saturating_pow a n = (if unat a ^ unat n < 2 ^ 64 then a ^ unat n else - 1)"

lemma unat_max_u64 [simp]: "unat (- 1 :: u64) = 18446744073709551615"
  by (simp add: unsigned_minus_1_eq_mask mask_eq_exp_minus_1)

lemma word_less_plus_1: "(x :: 'a::len word) \<noteq> - 1 \<Longrightarrow> x < x + 1"
proof -
  assume "x \<noteq> - 1"
  then have "1 + x \<noteq> 0" by (metis add_eq_0_iff2 add.commute)
  then have "unat (1 + x) = Suc (unat x)" by (rule unatSuc)
  then show ?thesis by (simp add: word_less_nat_alt add.commute)
qed

lemma unat_saturating_sub: "unat (saturating_sub a b) = unat a - unat b"
  by (auto simp: saturating_sub_def unat_sub word_le_nat_alt)

lemma unat_saturating_mul: "unat (saturating_mul a b) = min (unat a * unat b) (2 ^ 64 - 1)"
  by (auto simp: saturating_mul_def unat_word_ariths min_def)

lemma unat_saturating_pow: "unat (saturating_pow a n) = min (unat a ^ unat n) (2 ^ 64 - 1)"
proof (cases "unat a ^ unat n < 2 ^ 64")
  case True
  have "unat (a ^ k) = unat a ^ k mod 2 ^ 64" for k
    by (induction k) (simp_all add: unat_word_ariths mod_mult_right_eq)
  with True show ?thesis by (simp add: saturating_pow_def)
qed (simp add: saturating_pow_def)

end
