(* ===== verification/Storage_Types.thy ===== *)
theory Storage_Types
  imports Prelude
begin

text \<open>
  The data of the storage layer (\<open>storage/types.rs\<close>), the \<open>EventStore\<close> trait
  (\<open>storage/mod.rs\<close>) as a record of operations, and the contract of an event store: its
  content is a finite map from sequence numbers to events, every operation that changes it
  either fails and leaves it alone or performs a stated update of that map, and every query is
  a stated function of the events in sequence order. The wall clock (\<open>current_time_ms\<close>) is the
  argument \<open>now\<close> of the operations that read it.
\<close>

section \<open>Events and deliveries\<close>

datatype event_status = EvPending | EvDispatching | EvDelivered | EvPartiallyDelivered | EvDeadLettered

fun as_u8 :: "event_status \<Rightarrow> u8" where
  "as_u8 EvPending = 0"
| "as_u8 EvDispatching = 1"
| "as_u8 EvDelivered = 2"
| "as_u8 EvPartiallyDelivered = 3"
| "as_u8 EvDeadLettered = 4"

definition from_u8 :: "u8 \<Rightarrow> event_status option" where
  "from_u8 val =
     (if val = 0 then Some EvPending
      else if val = 1 then Some EvDispatching
      else if val = 2 then Some EvDelivered
      else if val = 3 then Some EvPartiallyDelivered
      else if val = 4 then Some EvDeadLettered
      else None)"

datatype delivery_status = DlPending | DlDelivered | DlFailed | DlDeadLettered

record delivery_record =
  dl_subscriber_id :: string
  dl_status :: delivery_status
  dl_attempts :: u32
  dl_last_attempt :: "u64 option"
  dl_next_retry :: "u64 option"
  dl_error :: "string option"

record stored_event =
  ev_seq :: u64
  ev_subject :: string
  ev_payload :: bytes
  ev_stored_at :: u64
  ev_status :: event_status
  ev_deliveries :: "delivery_record list"
  ev_reply_subject :: "string option"

definition is_retryable :: "delivery_record \<Rightarrow> u32 \<Rightarrow> u64 \<Rightarrow> bool" where
  "is_retryable d max_attempts now_ms \<longleftrightarrow>
     dl_status d = DlFailed \<and> dl_attempts d < max_attempts
     \<and> (case dl_next_retry d of None \<Rightarrow> True | Some t \<Rightarrow> t \<le> now_ms)"

record retryable_delivery =
  rd_seq :: u64
  rd_subject :: string
  rd_subscriber_id :: string
  rd_attempts :: u32
  rd_payload :: bytes
  rd_reply_subject :: "string option"
  rd_next_retry :: "u64 option"

datatype persisted_subscription_kind = AsyncWebhook | SyncInterceptor

record persisted_subscription =
  ps_persisted_id :: string
  ps_pattern :: string
  ps_url :: string
  ps_headers :: "(string \<times> string) list"
  ps_priority :: u32
  ps_created_at :: u64
  ps_kind :: persisted_subscription_kind
  ps_timeout_ms :: "u64 option"

definition new_async_webhook ::
  "string \<Rightarrow> string \<Rightarrow> string \<Rightarrow> (string \<times> string) list \<Rightarrow> u32 \<Rightarrow> u64 \<Rightarrow> persisted_subscription" where
  "new_async_webhook persisted_id pattern url headers prio created_at =
     \<lparr>ps_persisted_id = persisted_id, ps_pattern = pattern, ps_url = url, ps_headers = headers,
      ps_priority = prio, ps_created_at = created_at, ps_kind = AsyncWebhook,
      ps_timeout_ms = None\<rparr>"

definition new_sync_interceptor ::
  "string \<Rightarrow> string \<Rightarrow> string \<Rightarrow> (string \<times> string) list \<Rightarrow> u32 \<Rightarrow> u64 \<Rightarrow> u64 option
   \<Rightarrow> persisted_subscription" where
  "new_sync_interceptor persisted_id pattern url headers prio created_at timeout_ms =
     \<lparr>ps_persisted_id = persisted_id, ps_pattern = pattern, ps_url = url, ps_headers = headers,
      ps_priority = prio, ps_created_at = created_at, ps_kind = SyncInterceptor,
      ps_timeout_ms = timeout_ms\<rparr>"

datatype storage_error =
    OperationFailed string
  | NotFound
  | DatabaseError string

section \<open>The \<open>EventStore\<close> trait\<close>

record 's store_ops =
  st_append :: "'s \<Rightarrow> stored_event \<Rightarrow> u64 \<Rightarrow> (storage_error + u64) \<times> 's"
  st_get :: "'s \<Rightarrow> u64 \<Rightarrow> storage_error + stored_event option"
  st_update_status :: "'s \<Rightarrow> u64 \<Rightarrow> event_status \<Rightarrow> (storage_error + unit) \<times> 's"
  st_record_delivery :: "'s \<Rightarrow> u64 \<Rightarrow> string \<Rightarrow> delivery_status \<Rightarrow> string option \<Rightarrow> u64 option
    \<Rightarrow> u64 \<Rightarrow> (storage_error + unit) \<times> 's"
  st_query_by_status :: "'s \<Rightarrow> event_status \<Rightarrow> nat \<Rightarrow> storage_error + stored_event list"
  st_query_by_subject :: "'s \<Rightarrow> string \<Rightarrow> u64 option \<Rightarrow> nat \<Rightarrow> storage_error + stored_event list"
  st_query_retryable :: "'s \<Rightarrow> u32 \<Rightarrow> nat \<Rightarrow> u64 \<Rightarrow> storage_error + retryable_delivery list"
  st_count_retryable :: "'s \<Rightarrow> u32 \<Rightarrow> u64 \<Rightarrow> storage_error + u64"
  st_compact :: "'s \<Rightarrow> duration \<Rightarrow> u64 \<Rightarrow> (storage_error + u64) \<times> 's"
  st_requeue_dead_lettered :: "'s \<Rightarrow> u64 \<Rightarrow> (storage_error + stored_event) \<times> 's"
  st_purge_dead_lettered :: "'s \<Rightarrow> u64 \<Rightarrow> (storage_error + unit) \<times> 's"
  st_save_subscription :: "'s \<Rightarrow> persisted_subscription \<Rightarrow> (storage_error + unit) \<times> 's"
  st_list_subscriptions :: "'s \<Rightarrow> storage_error + persisted_subscription list"
  st_delete_subscription :: "'s \<Rightarrow> string \<Rightarrow> (storage_error + unit) \<times> 's"

text \<open>The default method of the trait that no store overrides.\<close>

definition query_dead_lettered ::
  "'s store_ops \<Rightarrow> 's \<Rightarrow> string option \<Rightarrow> nat \<Rightarrow> storage_error + stored_event list" where
  "query_dead_lettered S s subj limit =
     andthen (st_query_by_status S s EvDeadLettered limit) (\<lambda>events.
       Inr (case subj of
              Some sb \<Rightarrow> take limit (filter (\<lambda>e. ev_subject e = sb) events)
            | None \<Rightarrow> events))"

section \<open>The delivery bookkeeping of one event\<close>

text \<open>The body of \<open>record_delivery\<close> that both stores contain: the subscriber's record is
  updated, or a first one is pushed.\<close>

definition counts_attempt :: "delivery_status \<Rightarrow> bool" where
  "counts_attempt st \<longleftrightarrow> st = DlFailed \<or> st = DlDeadLettered"

definition update_delivery ::
  "delivery_status \<Rightarrow> string option \<Rightarrow> u64 option \<Rightarrow> u64 \<Rightarrow> delivery_record \<Rightarrow> delivery_record" where
  "update_delivery st err next_retry now d =
     d\<lparr>dl_status := st,
       dl_attempts := (if counts_attempt st then dl_attempts d + 1 else dl_attempts d),
       dl_last_attempt := Some now,
       dl_error := (if counts_attempt st then err else dl_error d),
       dl_next_retry := next_retry\<rparr>"

definition first_delivery ::
  "string \<Rightarrow> delivery_status \<Rightarrow> string option \<Rightarrow> u64 option \<Rightarrow> u64 \<Rightarrow> delivery_record" where
  "first_delivery sub st err next_retry now =
     \<lparr>dl_subscriber_id = sub, dl_status = st, dl_attempts = (if st = DlFailed then 1 else 0),
      dl_last_attempt = Some now, dl_next_retry = next_retry, dl_error = err\<rparr>"

definition apply_delivery ::
  "string \<Rightarrow> delivery_status \<Rightarrow> string option \<Rightarrow> u64 option \<Rightarrow> u64
   \<Rightarrow> delivery_record list \<Rightarrow> delivery_record list" where
  "apply_delivery sub st err next_retry now ds =
     (case find (\<lambda>d. dl_subscriber_id d = sub) ds of
        Some _ \<Rightarrow> update_first (\<lambda>d. dl_subscriber_id d = sub) (update_delivery st err next_retry now) ds
      | None \<Rightarrow> ds @ [first_delivery sub st err next_retry now])"

definition deliveries_wf :: "stored_event \<Rightarrow> bool" where
  "deliveries_wf e \<longleftrightarrow> distinct (map dl_subscriber_id (ev_deliveries e))"

text \<open>The rows of \<open>query_retryable\<close> for one event.\<close>

definition retryables_of :: "u32 \<Rightarrow> u64 \<Rightarrow> stored_event \<Rightarrow> retryable_delivery list" where
  "retryables_of max_attempts now e =
     map (\<lambda>d. \<lparr>rd_seq = ev_seq e, rd_subject = ev_subject e, rd_subscriber_id = dl_subscriber_id d,
               rd_attempts = dl_attempts d, rd_payload = ev_payload e,
               rd_reply_subject = ev_reply_subject e, rd_next_retry = dl_next_retry d\<rparr>)
       (filter (\<lambda>d. is_retryable d max_attempts now) (ev_deliveries e))"

text \<open>The counting loop of \<open>count_retryable\<close> over the deliveries of one event.\<close>

fun count_retryable_deliveries :: "u32 \<Rightarrow> u64 \<Rightarrow> delivery_record list \<Rightarrow> u64 \<Rightarrow> u64" where
  "count_retryable_deliveries max_attempts now [] n = n"
| "count_retryable_deliveries max_attempts now (d # ds) n =
     count_retryable_deliveries max_attempts now ds
       (if is_retryable d max_attempts now then n + 1 else n)"

definition retry_key :: "retryable_delivery \<Rightarrow> u64" where
  "retry_key r = (case rd_next_retry r of None \<Rightarrow> 0 | Some t \<Rightarrow> t)"

definition terminal_status :: "event_status \<Rightarrow> bool" where
  "terminal_status st \<longleftrightarrow> st = EvDelivered \<or> st = EvDeadLettered"

definition compactable :: "u64 \<Rightarrow> stored_event \<Rightarrow> bool" where
  "compactable threshold e \<longleftrightarrow> terminal_status (ev_status e) \<and> ev_stored_at e < threshold"

lemma from_as_u8: "from_u8 (as_u8 st) = Some st"
  by (cases st) (simp_all add: from_u8_def)

lemma as_u8_inj [simp]: "as_u8 a = as_u8 b \<longleftrightarrow> a = b"
  by (cases a; cases b) simp_all

lemma dl_subscriber_id_update [simp]:
  "dl_subscriber_id (update_delivery st err nr now d) = dl_subscriber_id d"
  by (simp add: update_delivery_def)

lemma dl_subscriber_id_first [simp]:
  "dl_subscriber_id (first_delivery sub st err nr now) = sub"
  by (simp add: first_delivery_def)

lemma apply_delivery_ids:
  "map dl_subscriber_id (apply_delivery sub st err nr now ds) =
     map dl_subscriber_id ds @ (if sub \<in> set (map dl_subscriber_id ds) then [] else [sub])"
  by (auto simp: apply_delivery_def map_update_first find_None_iff find_Some_iff split: option.splits)

lemma apply_delivery_distinct:
  "distinct (map dl_subscriber_id ds)
   \<Longrightarrow> distinct (map dl_subscriber_id (apply_delivery sub st err nr now ds))"
  by (simp add: apply_delivery_ids)

lemma find_apply_delivery:
  "find (\<lambda>d. dl_subscriber_id d = sub) (apply_delivery sub st err nr now ds) =
     Some (case find (\<lambda>d. dl_subscriber_id d = sub) ds of
             None \<Rightarrow> first_delivery sub st err nr now
           | Some d \<Rightarrow> update_delivery st err nr now d)"
  by (auto simp: apply_delivery_def find_update_first find_append split: option.splits)

lemma find_apply_delivery_other:
  "s \<noteq> sub \<Longrightarrow> find (\<lambda>d. dl_subscriber_id d = s) (apply_delivery sub st err nr now ds) =
     find (\<lambda>d. dl_subscriber_id d = s) ds"
  by (auto simp: apply_delivery_def find_append find_update_first_other split: option.splits)

lemma count_retryable_deliveries_eq:
  "count_retryable_deliveries mx now ds n =
     n + of_nat (length (filter (\<lambda>d. is_retryable d mx now) ds))"
  by (induction mx now ds n rule: count_retryable_deliveries.induct) auto

section \<open>The contract of an event store\<close>

text \<open>The events of a log in ascending sequence order, and the next sequence number.\<close>

definition listing :: "(u64 \<rightharpoonup> stored_event) \<Rightarrow> stored_event list" where
  "listing m = map (\<lambda>q. the (m q)) (sorted_list_of_set (dom m))"

definition next_seq :: "(u64 \<rightharpoonup> stored_event) \<Rightarrow> u64" where
  "next_seq m = (if dom m = {} then 1 else Max (dom m) + 1)"

definition seq_room :: "(u64 \<rightharpoonup> stored_event) \<Rightarrow> bool" where
  "seq_room m \<longleftrightarrow> - 1 \<notin> dom m"

definition log_wf :: "(u64 \<rightharpoonup> stored_event) \<Rightarrow> bool" where
  "log_wf m \<longleftrightarrow> finite (dom m) \<and> (\<forall>q e. m q = Some e \<longrightarrow> ev_seq e = q \<and> deliveries_wf e)"

definition upd_event :: "(u64 \<rightharpoonup> stored_event) \<Rightarrow> u64 \<Rightarrow> (stored_event \<Rightarrow> stored_event) \<Rightarrow> (u64 \<rightharpoonup> stored_event)" where
  "upd_event m q f = (case m q of None \<Rightarrow> m | Some e \<Rightarrow> m(q \<mapsto> f e))"

definition retryable_rows :: "u32 \<Rightarrow> u64 \<Rightarrow> (u64 \<rightharpoonup> stored_event) \<Rightarrow> retryable_delivery list" where
  "retryable_rows max_attempts now m = concat (map (retryables_of max_attempts now) (listing m))"

definition log_compact :: "u64 \<Rightarrow> (u64 \<rightharpoonup> stored_event) \<Rightarrow> (u64 \<rightharpoonup> stored_event)" where
  "log_compact threshold m =
     (\<lambda>q. case m q of None \<Rightarrow> None | Some e \<Rightarrow> if compactable threshold e then None else Some e)"

text \<open>\<open>now.saturating_sub(older_than.as_millis() as u64)\<close>: the cast keeps the low 64 bits.\<close>

definition compact_threshold :: "duration \<Rightarrow> u64 \<Rightarrow> u64" where
  "compact_threshold older_than now = saturating_sub now (of_nat (as_millis older_than))"

lemma listing_seqs: "log_wf m \<Longrightarrow> map ev_seq (listing m) = sorted_list_of_set (dom m)"
  by (auto simp: listing_def log_wf_def intro!: map_idI)

lemma listing_strict: "log_wf m \<Longrightarrow> sorted_wrt (<) (map ev_seq (listing m))"
  by (simp add: listing_seqs)

lemma set_listing: "log_wf m \<Longrightarrow> set (listing m) = ran m"
  by (force simp: listing_def log_wf_def ran_def dom_def)

lemma find_listing:
  assumes "log_wf m"
  shows "find (\<lambda>e. ev_seq e = q) (listing m) = m q"
proof (cases "m q")
  case None
  with assms show ?thesis
    by (auto simp: find_None_iff set_listing ran_def log_wf_def)
next
  case (Some e)
  have "distinct (map ev_seq (listing m))"
    using assms by (simp add: listing_seqs)
  moreover have "e \<in> set (listing m)" and "ev_seq e = q"
    using assms Some by (auto simp: set_listing ran_def log_wf_def)
  ultimately show ?thesis
    using find_key_eq Some by fastforce
qed

lemma listing_unique:
  assumes "sorted_wrt (<) (map ev_seq xs)"
  shows "listing (\<lambda>q. find (\<lambda>e. ev_seq e = q) xs) = xs"
proof -
  let ?m = "\<lambda>q. find (\<lambda>e. ev_seq e = q) xs"
  have d: "distinct (map ev_seq xs)"
    using assms by (rule sorted_wrt_less_distinct)
  have "dom ?m = set (map ev_seq xs)"
    by (auto simp: dom_def find_Some_iff2 find_None_iff dest!: find_Some_mem)
  moreover have "sorted_list_of_set (set (map ev_seq xs)) = map ev_seq xs"
    using assms by (simp only: sorted_list_of_set.idem_if_sorted_distinct strict_sorted_iff)
  ultimately have "listing ?m = map (\<lambda>q. the (?m q)) (map ev_seq xs)"
    by (simp add: listing_def)
  also have "\<dots> = xs"
    using find_key_eq [OF d] by (auto intro!: map_idI)
  finally show ?thesis .
qed

text \<open>A failing operation reports an error and leaves the store as it was.\<close>

definition failed :: "('e + 'a) \<times> 's \<Rightarrow> 's \<Rightarrow> bool" where
  "failed r s \<longleftrightarrow> (\<exists>x. fst r = Inl x) \<and> snd r = s"

text \<open>A call of the trait with its arguments, its result, and what the call does to a log: the
  reference model both stores are compared with. Every error is the one result \<open>RError\<close>.\<close>

datatype store_op =
    SAppend stored_event u64
  | SGet u64
  | SUpdate u64 event_status
  | SRecord u64 string delivery_status "string option" "u64 option" u64
  | SByStatus event_status nat
  | SBySubject string "u64 option" nat
  | SRetryable u32 nat u64
  | SCountRetryable u32 u64
  | SCompact duration u64
  | SRequeue u64
  | SPurge u64

datatype store_result =
    RSeq u64 | RUnit | RCount u64 | REvent stored_event | RLookup "stored_event option"
  | REvents "stored_event list" | RRetryables "retryable_delivery list" | RError

fun log_step :: "store_op \<Rightarrow> (u64 \<rightharpoonup> stored_event) \<Rightarrow> store_result \<times> (u64 \<rightharpoonup> stored_event)" where
  "log_step (SAppend e now) m =
     (RSeq (next_seq m), m(next_seq m \<mapsto> e\<lparr>ev_seq := next_seq m, ev_stored_at := now\<rparr>))"
| "log_step (SGet q) m = (RLookup (m q), m)"
| "log_step (SUpdate q st) m =
     (case m q of None \<Rightarrow> (RError, m) | Some e \<Rightarrow> (RUnit, m(q \<mapsto> e\<lparr>ev_status := st\<rparr>)))"
| "log_step (SRecord q sub dst err nr now) m =
     (case m q of None \<Rightarrow> (RError, m)
      | Some e \<Rightarrow> (RUnit, m(q \<mapsto> e\<lparr>ev_deliveries := apply_delivery sub dst err nr now (ev_deliveries e)\<rparr>)))"
| "log_step (SByStatus st n) m = (REvents (take n (filter (\<lambda>e. ev_status e = st) (listing m))), m)"
| "log_step (SBySubject sb since n) m =
     (REvents (take n (filter (\<lambda>e. ev_subject e = sb
        \<and> (case since of None \<Rightarrow> True | Some k \<Rightarrow> k \<le> ev_seq e)) (listing m))), m)"
| "log_step (SRetryable mx n now) m = (RRetryables (take n (sort_key retry_key (retryable_rows mx now m))), m)"
| "log_step (SCountRetryable mx now) m = (RCount (of_nat (length (retryable_rows mx now m))), m)"
| "log_step (SCompact older now) m =
     (RCount (of_nat (length (filter (compactable (compact_threshold older now)) (listing m)))),
      log_compact (compact_threshold older now) m)"
| "log_step (SRequeue q) m =
     (case m q of None \<Rightarrow> (RError, m)
      | Some e \<Rightarrow> if ev_status e \<noteq> EvDeadLettered then (RError, m)
          else (REvent (e\<lparr>ev_status := EvPending, ev_deliveries := []\<rparr>),
                m(q \<mapsto> e\<lparr>ev_status := EvPending, ev_deliveries := []\<rparr>)))"
| "log_step (SPurge q) m =
     (case m q of None \<Rightarrow> (RError, m)
      | Some e \<Rightarrow> if ev_status e \<noteq> EvDeadLettered then (RError, m) else (RUnit, m(q := None)))"

definition as_result :: "('a \<Rightarrow> store_result) \<Rightarrow> storage_error + 'a \<Rightarrow> store_result" where
  "as_result f r = (case r of Inl _ \<Rightarrow> RError | Inr x \<Rightarrow> f x)"

fun store_step :: "'s store_ops \<Rightarrow> store_op \<Rightarrow> 's \<Rightarrow> store_result \<times> 's" where
  "store_step S (SAppend e now) s = map_prod (as_result RSeq) id (st_append S s e now)"
| "store_step S (SGet q) s = (as_result RLookup (st_get S s q), s)"
| "store_step S (SUpdate q st) s = map_prod (as_result (\<lambda>_. RUnit)) id (st_update_status S s q st)"
| "store_step S (SRecord q sub dst err nr now) s =
     map_prod (as_result (\<lambda>_. RUnit)) id (st_record_delivery S s q sub dst err nr now)"
| "store_step S (SByStatus st n) s = (as_result REvents (st_query_by_status S s st n), s)"
| "store_step S (SBySubject sb since n) s = (as_result REvents (st_query_by_subject S s sb since n), s)"
| "store_step S (SRetryable mx n now) s = (as_result RRetryables (st_query_retryable S s mx n now), s)"
| "store_step S (SCountRetryable mx now) s = (as_result RCount (st_count_retryable S s mx now), s)"
| "store_step S (SCompact older now) s = map_prod (as_result RCount) id (st_compact S s older now)"
| "store_step S (SRequeue q) s = map_prod (as_result REvent) id (st_requeue_dead_lettered S s q)"
| "store_step S (SPurge q) s = map_prod (as_result (\<lambda>_. RUnit)) id (st_purge_dead_lettered S s q)"

fun log_run :: "store_op list \<Rightarrow> (u64 \<rightharpoonup> stored_event) \<Rightarrow> store_result list" where
  "log_run [] m = []"
| "log_run (op # ops) m = fst (log_step op m) # log_run ops (snd (log_step op m))"

fun store_run :: "'s store_ops \<Rightarrow> store_op list \<Rightarrow> 's \<Rightarrow> store_result list" where
  "store_run S [] s = []"
| "store_run S (op # ops) s = fst (store_step S op s) # store_run S ops (snd (store_step S op s))"

text \<open>An appended event has no deliveries yet, and its number does not overflow.\<close>

fun op_ok :: "store_op \<Rightarrow> (u64 \<rightharpoonup> stored_event) \<Rightarrow> bool" where
  "op_ok (SAppend e now) m \<longleftrightarrow> seq_room m \<and> ev_deliveries e = []"
| "op_ok _ m \<longleftrightarrow> True"

fun ops_ok :: "store_op list \<Rightarrow> (u64 \<rightharpoonup> stored_event) \<Rightarrow> bool" where
  "ops_ok [] m \<longleftrightarrow> True"
| "ops_ok (op # ops) m \<longleftrightarrow> op_ok op m \<and> ops_ok ops (snd (log_step op m))"

lemma as_result_simps [simp]: "as_result f (Inl x) = RError" "as_result f (Inr y) = f y"
  by (simp_all add: as_result_def)

lemma failed_result: "failed r s \<Longrightarrow> map_prod (as_result f) id r = (RError, s)"
  by (cases r) (auto simp: failed_def)

locale event_store =
  fixes S :: "'s store_ops"
    and view :: "'s \<Rightarrow> (u64 \<rightharpoonup> stored_event)"
    and inv :: "'s \<Rightarrow> bool"
  assumes view_wf: "inv s \<Longrightarrow> log_wf (view s)"
    and get_law: "inv s \<Longrightarrow> (\<exists>x. st_get S s q = Inl x) \<or> st_get S s q = Inr (view s q)"
    and append_law: "inv s \<Longrightarrow> seq_room (view s) \<Longrightarrow> ev_deliveries e = [] \<Longrightarrow>
      failed (st_append S s e now) s \<or>
      (\<exists>s'. st_append S s e now = (Inr (next_seq (view s)), s') \<and> inv s'
         \<and> view s' = (view s)(next_seq (view s) \<mapsto>
              e\<lparr>ev_seq := next_seq (view s), ev_stored_at := now\<rparr>))"
    and update_law: "inv s \<Longrightarrow>
      failed (st_update_status S s q st) s \<or>
      (\<exists>s'. st_update_status S s q st = (Inr (), s') \<and> inv s' \<and> view s q \<noteq> None
         \<and> view s' = upd_event (view s) q (\<lambda>e. e\<lparr>ev_status := st\<rparr>))"
    and record_law: "inv s \<Longrightarrow>
      failed (st_record_delivery S s q sub dst err nr now) s \<or>
      (\<exists>s'. st_record_delivery S s q sub dst err nr now = (Inr (), s') \<and> inv s' \<and> view s q \<noteq> None
         \<and> view s' = upd_event (view s) q
              (\<lambda>e. e\<lparr>ev_deliveries := apply_delivery sub dst err nr now (ev_deliveries e)\<rparr>))"
    and requeue_law: "inv s \<Longrightarrow>
      failed (st_requeue_dead_lettered S s q) s \<or>
      (\<exists>s' e. view s q = Some e \<and> ev_status e = EvDeadLettered
         \<and> st_requeue_dead_lettered S s q = (Inr (e\<lparr>ev_status := EvPending, ev_deliveries := []\<rparr>), s')
         \<and> inv s' \<and> view s' = (view s)(q \<mapsto> e\<lparr>ev_status := EvPending, ev_deliveries := []\<rparr>))"
    and purge_law: "inv s \<Longrightarrow>
      failed (st_purge_dead_lettered S s q) s \<or>
      (\<exists>s' e. view s q = Some e \<and> ev_status e = EvDeadLettered
         \<and> st_purge_dead_lettered S s q = (Inr (), s') \<and> inv s' \<and> view s' = (view s)(q := None))"
    and compact_law: "inv s \<Longrightarrow>
      failed (st_compact S s older now) s \<or>
      (\<exists>s'. st_compact S s older now =
           (Inr (of_nat (length (filter (compactable (compact_threshold older now)) (listing (view s))))), s')
         \<and> inv s' \<and> view s' = log_compact (compact_threshold older now) (view s))"
    and by_status_law: "inv s \<Longrightarrow> st_query_by_status S s st n = Inr es \<Longrightarrow>
      es = take n (filter (\<lambda>e. ev_status e = st) (listing (view s)))"
    and by_subject_law: "inv s \<Longrightarrow> st_query_by_subject S s sb since n = Inr es \<Longrightarrow>
      es = take n (filter (\<lambda>e. ev_subject e = sb
             \<and> (case since of None \<Rightarrow> True | Some k \<Rightarrow> k \<le> ev_seq e)) (listing (view s)))"
    and retryable_law: "inv s \<Longrightarrow> st_query_retryable S s mx n now = Inr rs \<Longrightarrow>
      rs = take n (sort_key retry_key (retryable_rows mx now (view s)))"
    and count_law: "inv s \<Longrightarrow> st_count_retryable S s mx now = Inr c \<Longrightarrow>
      c = of_nat (length (retryable_rows mx now (view s)))"

begin

lemma step_law:
  assumes "inv s" and "op_ok op (view s)"
  shows "store_step S op s = (RError, s) \<or>
    (\<exists>s'. store_step S op s = (fst (log_step op (view s)), s') \<and> inv s' \<and> view s' = snd (log_step op (view s)))"
proof (cases op)
  case (SAppend e now)
  then show ?thesis
    using append_law [OF assms(1), of e now] assms(2) by (auto dest: failed_result)
next
  case (SGet q)
  then show ?thesis using get_law [OF assms(1), of q] assms(1) by auto
next
  case (SUpdate q st)
  then show ?thesis
    using update_law [OF assms(1), of q st] by (auto simp: upd_event_def dest: failed_result)
next
  case (SRecord q sub dst err nr now)
  then show ?thesis
    using record_law [OF assms(1), of q sub dst err nr now] by (auto simp: upd_event_def dest: failed_result)
next
  case (SByStatus st n)
  then show ?thesis using by_status_law [OF assms(1), of st n] assms(1)
    by (cases "st_query_by_status S s st n") auto
next
  case (SBySubject sb since n)
  then show ?thesis using by_subject_law [OF assms(1), of sb since n] assms(1)
    by (cases "st_query_by_subject S s sb since n") auto
next
  case (SRetryable mx n now)
  then show ?thesis using retryable_law [OF assms(1), of mx n now] assms(1)
    by (cases "st_query_retryable S s mx n now") auto
next
  case (SCountRetryable mx now)
  then show ?thesis using count_law [OF assms(1), of mx now] assms(1)
    by (cases "st_count_retryable S s mx now") auto
next
  case (SCompact older now)
  then show ?thesis
    using compact_law [OF assms(1), of older now] by (auto dest: failed_result)
next
  case (SRequeue q)
  then show ?thesis
    using requeue_law [OF assms(1), of q] by (auto dest: failed_result)
next
  case (SPurge q)
  then show ?thesis
    using purge_law [OF assms(1), of q] by (auto dest: failed_result)
qed

end

text \<open>A store on which no infrastructure fault occurs: the operations fail only where the trait
  says they do.\<close>

locale reliable_store = event_store +
  assumes get_total: "inv s \<Longrightarrow> st_get S s q = Inr (view s q)"
    and append_total: "inv s \<Longrightarrow> seq_room (view s) \<Longrightarrow> ev_deliveries e = [] \<Longrightarrow> \<not> failed (st_append S s e now) s"
    and update_total: "inv s \<Longrightarrow> view s q \<noteq> None \<Longrightarrow> \<not> failed (st_update_status S s q st) s"
    and record_total: "inv s \<Longrightarrow> view s q \<noteq> None \<Longrightarrow>
      \<not> failed (st_record_delivery S s q sub dst err nr now) s"
    and requeue_total: "inv s \<Longrightarrow> view s q = Some e \<Longrightarrow> ev_status e = EvDeadLettered \<Longrightarrow>
      \<not> failed (st_requeue_dead_lettered S s q) s"
    and purge_total: "inv s \<Longrightarrow> view s q = Some e \<Longrightarrow> ev_status e = EvDeadLettered \<Longrightarrow>
      \<not> failed (st_purge_dead_lettered S s q) s"
    and compact_total: "inv s \<Longrightarrow> \<not> failed (st_compact S s older now) s"
    and retryable_total: "inv s \<Longrightarrow> \<exists>rs. st_query_retryable S s mx n now = Inr rs"
    and by_status_total: "inv s \<Longrightarrow> \<exists>es. st_query_by_status S s st n = Inr es"
    and by_subject_total: "inv s \<Longrightarrow> \<exists>es. st_query_by_subject S s sb since n = Inr es"
    and count_total: "inv s \<Longrightarrow> \<exists>c. st_count_retryable S s mx now = Inr c"
begin

lemma step_total:
  assumes "inv s" and "op_ok op (view s)"
  shows "\<exists>s'. store_step S op s = (fst (log_step op (view s)), s') \<and> inv s' \<and> view s' = snd (log_step op (view s))"
proof -
  have ok: "store_step S op s \<noteq> (RError, s)" if "fst (log_step op (view s)) \<noteq> RError"
  proof (cases op)
    case (SAppend e now)
    then show ?thesis
      using append_law [OF assms(1), of e now] append_total [OF assms(1), of e now] assms(2) by auto
  next
    case (SUpdate q st)
    then show ?thesis
      using update_law [OF assms(1), of q st] update_total [OF assms(1), of q st] that
      by (auto split: option.splits)
  next
    case (SRecord q sub dst err nr now)
    then show ?thesis
      using record_law [OF assms(1), of q sub dst err nr now] record_total [OF assms(1), of q sub dst err nr now]
        that by (auto split: option.splits)
  next
    case (SCompact older now)
    then show ?thesis
      using compact_law [OF assms(1), of older now] compact_total [OF assms(1), of older now] by auto
  next
    case (SRequeue q)
    then show ?thesis
      using requeue_law [OF assms(1), of q] requeue_total [OF assms(1), of q] that
      by (auto split: option.splits if_splits)
  next
    case (SPurge q)
    then show ?thesis
      using purge_law [OF assms(1), of q] purge_total [OF assms(1), of q] that
      by (auto split: option.splits if_splits)
  next
    case (SGet q)
    then show ?thesis using get_total [OF assms(1), of q] by simp
  next
    case (SByStatus st n)
    then show ?thesis using by_status_total [OF assms(1), of st n] by auto
  next
    case (SBySubject sb since n)
    then show ?thesis using by_subject_total [OF assms(1), of sb since n] by auto
  next
    case (SRetryable mx n now)
    then show ?thesis using retryable_total [OF assms(1), of mx n now] by auto
  next
    case (SCountRetryable mx now)
    then show ?thesis using count_total [OF assms(1), of mx now] by auto
  qed
  show ?thesis
  proof (cases "store_step S op s = (RError, s)")
    case True
    then have "fst (log_step op (view s)) = RError" using ok by blast
    moreover from this have "snd (log_step op (view s)) = view s"
      by (cases op) (auto split: option.splits if_splits)
    ultimately show ?thesis using True assms(1) by auto
  next
    case False
    then show ?thesis using step_law [OF assms] by auto
  qed
qed

lemma run_total:
  "inv s \<Longrightarrow> ops_ok ops (view s) \<Longrightarrow> store_run S ops s = log_run ops (view s)"
proof (induction ops arbitrary: s)
  case (Cons op ops)
  obtain s' where "store_step S op s = (fst (log_step op (view s)), s')" "inv s'"
      "view s' = snd (log_step op (view s))"
    using step_total [of s op] Cons.prems by auto
  with Cons.IH [of s'] Cons.prems(2) show ?case by simp
qed simp

end

text \<open>Starting from an empty log, fewer than \<open>2 ^ 64 - 1\<close> calls cannot exhaust the numbers.\<close>

definition log_bound :: "nat \<Rightarrow> (u64 \<rightharpoonup> stored_event) \<Rightarrow> bool" where
  "log_bound n m \<longleftrightarrow> finite (dom m) \<and> (\<forall>q \<in> dom m. unat q \<le> n)"

lemma log_bound_step:
  assumes "log_bound n m" and "n < 2 ^ 64 - 1"
  shows "log_bound (Suc n) (snd (log_step op m))"
proof -
  have mono: "log_bound (Suc n) m'" if "dom m' \<subseteq> dom m" for m'
    using assms(1) that unfolding log_bound_def by (meson finite_subset le_SucI subsetD)
  have nx: "unat (next_seq m) \<le> Suc n"
  proof (cases "dom m = {}")
    case False
    have "unat (Max (dom m)) \<le> n"
      using assms(1) Max_in [of "dom m"] False by (auto simp: log_bound_def)
    moreover have "unat (Max (dom m) + 1) \<le> unat (Max (dom m)) + 1"
      by (simp add: unat_word_ariths)
    ultimately show ?thesis using False by (simp add: next_seq_def)
  qed (simp add: next_seq_def)
  show ?thesis
  proof (cases op)
    case (SAppend e now)
    then show ?thesis
      using assms(1) nx unfolding log_bound_def by (auto intro: le_SucI)
  qed (auto simp: log_compact_def intro!: mono split: option.splits if_splits)
qed

lemma ops_ok_bounded:
  "log_bound n m \<Longrightarrow> n + length ops < 2 ^ 64 - 1 \<Longrightarrow>
   (\<And>e now. SAppend e now \<in> set ops \<Longrightarrow> ev_deliveries e = []) \<Longrightarrow> ops_ok ops m"
proof (induction ops arbitrary: n m)
  case (Cons op ops)
  have "seq_room m"
    using Cons.prems(1,2) by (fastforce simp: seq_room_def log_bound_def dest: bspec [where x = "- 1"])
  then have "op_ok op m"
    using Cons.prems(3) by (cases op) auto
  moreover have "ops_ok ops (snd (log_step op m))"
    using Cons.prems log_bound_step [OF Cons.prems(1), of op]
    by (intro Cons.IH [of "Suc n"]) auto
  ultimately show ?case by simp
qed simp

end
