(* ===== verification/Redb_Store.thy ===== *)
theory Redb_Store
  imports Storage_Types "HOL-Library.RBT"
begin

text \<open>
  The durable event store (\<open>storage/redb_store.rs\<close>): an events table with three index tables
  (by subject, by status, and of the events that have a failed delivery) and a table of persisted
  subscriptions, each operation one redb transaction. redb and serde_json are third-party crates:
  a redb table is a type variable with a record of operations, and the functions that serialise
  are fields of the environment. Every call that returns a \<open>Result\<close> the code propagates with
  \<open>?\<close> can fail: the environment says at which point of which operation, and with which message.
  The calls whose \<open>Result\<close> the code discards (\<open>let _ = t.remove(k)\<close>) can fail as well, and
  then leave the row in place.
\<close>

section \<open>Tables, transactions and faults\<close>

record ('t, 'k, 'v) table_ops =
  tb_get :: "'t \<Rightarrow> 'k \<Rightarrow> 'v option"
  tb_insert :: "'t \<Rightarrow> 'k \<Rightarrow> 'v \<Rightarrow> 't"
  tb_remove :: "'t \<Rightarrow> 'k \<Rightarrow> 't"
  tb_iter :: "'t \<Rightarrow> ('k \<times> 'v) list"
  tb_range_from :: "'t \<Rightarrow> 'k \<Rightarrow> ('k \<times> 'v) list"
  tb_last :: "'t \<Rightarrow> ('k \<times> 'v) option"

text \<open>The n-th fallible call of an operation, or the n-th one in round i of its loop.\<close>

datatype fault_point = At nat | InLoop nat nat | Join

record ('et, 'st, 'ut, 'ft, 'pt) redb_env =
  EVENTS_TABLE :: "('et, u64, bytes) table_ops"
  SUBJECT_IDX_TABLE :: "('st, string \<times> u64, unit) table_ops"
  STATUS_IDX_TABLE :: "('ut, u8 \<times> u64, unit) table_ops"
  FAILED_DELIVERIES_IDX_TABLE :: "('ft, u64, unit) table_ops"
  SUBSCRIPTIONS_TABLE :: "('pt, string, bytes) table_ops"
  ser_event :: "stored_event \<Rightarrow> string + bytes"
  de_event :: "bytes \<Rightarrow> string + stored_event"
  ser_sub :: "persisted_subscription \<Rightarrow> string + bytes"
  de_sub :: "bytes \<Rightarrow> string + persisted_subscription"
  fault :: "string \<Rightarrow> fault_point \<Rightarrow> string option"
  rm_fault :: "string \<Rightarrow> fault_point \<Rightarrow> bool"

record ('et, 'st, 'ut, 'ft, 'pt) redb_db =
  t_events :: 'et
  t_subject :: 'st
  t_status :: 'ut
  t_failed :: 'ft
  t_subs :: 'pt

definition db_io ::
  "('et, 'st, 'ut, 'ft, 'pt) redb_env \<Rightarrow> string \<Rightarrow> fault_point \<Rightarrow> string \<Rightarrow> storage_error + unit" where
  "db_io E op p msg = (case fault E op p of None \<Rightarrow> Inr () | Some e \<Rightarrow> Inl (DatabaseError (msg @ e)))"

definition serde :: "string \<Rightarrow> string + 'a \<Rightarrow> storage_error + 'a" where
  "serde msg r = map_err (\<lambda>e. OperationFailed (msg @ e)) r"

definition quiet_remove ::
  "('et, 'st, 'ut, 'ft, 'pt) redb_env \<Rightarrow> string \<Rightarrow> fault_point \<Rightarrow> ('t, 'k, 'v) table_ops \<Rightarrow> 't \<Rightarrow> 'k \<Rightarrow> 't" where
  "quiet_remove E op p T t k = (if rm_fault E op p then t else tb_remove T t k)"

text \<open>\<open>spawn_blocking(...).await.map_err(...)?\<close>: a task that does not finish commits nothing.\<close>

definition joined ::
  "('et, 'st, 'ut, 'ft, 'pt) redb_env \<Rightarrow> string \<Rightarrow> string \<Rightarrow> storage_error + 'a \<Rightarrow> storage_error + 'a" where
  "joined E op msg r = (case fault E op Join of None \<Rightarrow> r | Some e \<Rightarrow> Inl (OperationFailed (msg @ e)))"

text \<open>A write transaction that returns before \<open>commit\<close> succeeds is dropped with its changes.\<close>

definition write_txn ::
  "('et, 'st, 'ut, 'ft, 'pt) redb_env \<Rightarrow> string \<Rightarrow> string \<Rightarrow> ('et, 'st, 'ut, 'ft, 'pt) redb_db
   \<Rightarrow> storage_error + ('a \<times> ('et, 'st, 'ut, 'ft, 'pt) redb_db)
   \<Rightarrow> (storage_error + 'a) \<times> ('et, 'st, 'ut, 'ft, 'pt) redb_db" where
  "write_txn E op msg db r =
     (case joined E op msg r of Inl e \<Rightarrow> (Inl e, db) | Inr (a, db') \<Rightarrow> (Inr a, db'))"

section \<open>Operations\<close>

definition redb_append ::
  "('et, 'st, 'ut, 'ft, 'pt) redb_env \<Rightarrow> ('et, 'st, 'ut, 'ft, 'pt) redb_db \<Rightarrow> stored_event \<Rightarrow> u64
   \<Rightarrow> (storage_error + u64) \<times> ('et, 'st, 'ut, 'ft, 'pt) redb_db" where
  "redb_append E db event now =
     (let io = db_io E ''append'' in
      write_txn E ''append'' ''spawn_blocking error: '' db (
        andthen (io (At 0) ''failed to begin write: '') (\<lambda>_.
        andthen (io (At 1) ''failed to open events table: '') (\<lambda>_.
        andthen (io (At 2) ''failed to get last: '') (\<lambda>_.
        let last_seq = (case tb_last (EVENTS_TABLE E) (t_events db) of None \<Rightarrow> 0 | Some (k, _) \<Rightarrow> k);
            q = last_seq + 1;
            stored = event\<lparr>ev_seq := q, ev_stored_at := now\<rparr> in
        andthen (serde ''failed to serialize event: '' (ser_event E stored)) (\<lambda>serialized.
        andthen (io (At 3) ''failed to open events table: '') (\<lambda>_.
        andthen (io (At 4) ''failed to insert event: '') (\<lambda>_.
        let et = tb_insert (EVENTS_TABLE E) (t_events db) q serialized in
        andthen (io (At 5) ''failed to open subject_idx: '') (\<lambda>_.
        andthen (io (At 6) ''failed to insert subject index: '') (\<lambda>_.
        let st = tb_insert (SUBJECT_IDX_TABLE E) (t_subject db) (ev_subject stored, q) () in
        andthen (io (At 7) ''failed to open status_idx: '') (\<lambda>_.
        andthen (io (At 8) ''failed to insert status index: '') (\<lambda>_.
        let ut = tb_insert (STATUS_IDX_TABLE E) (t_status db) (as_u8 (ev_status stored), q) () in
        andthen (io (At 9) ''failed to commit: '') (\<lambda>_.
        Inr (q, db\<lparr>t_events := et, t_subject := st, t_status := ut\<rparr>))))))))))))))"

definition redb_get ::
  "('et, 'st, 'ut, 'ft, 'pt) redb_env \<Rightarrow> ('et, 'st, 'ut, 'ft, 'pt) redb_db \<Rightarrow> u64
   \<Rightarrow> storage_error + stored_event option" where
  "redb_get E db q =
     (let io = db_io E ''get'' in
      joined E ''get'' ''spawn_blocking error: '' (
        andthen (io (At 0) ''failed to begin read: '') (\<lambda>_.
        andthen (io (At 1) ''failed to open events table: '') (\<lambda>_.
        andthen (io (At 2) ''failed to get event: '') (\<lambda>_.
        case tb_get (EVENTS_TABLE E) (t_events db) q of
          Some data \<Rightarrow> andthen (serde ''failed to deserialize: '' (de_event E data)) (\<lambda>event. Inr (Some event))
        | None \<Rightarrow> Inr None)))))"

text \<open>The common beginning of the operations that read one event in a write transaction.\<close>

definition read_event ::
  "('et, 'st, 'ut, 'ft, 'pt) redb_env \<Rightarrow> ('et, 'st, 'ut, 'ft, 'pt) redb_db \<Rightarrow> string \<Rightarrow> u64
   \<Rightarrow> storage_error + stored_event" where
  "read_event E db op q =
     andthen (db_io E op (At 0) ''failed to begin write: '') (\<lambda>_.
     andthen (db_io E op (At 1) ''failed to open events table: '') (\<lambda>_.
     andthen (db_io E op (At 2) ''failed to get event: '') (\<lambda>_.
     andthen (ok_or NotFound (tb_get (EVENTS_TABLE E) (t_events db) q)) (\<lambda>data.
     serde ''failed to deserialize event: '' (de_event E data)))))"

definition redb_update_status ::
  "('et, 'st, 'ut, 'ft, 'pt) redb_env \<Rightarrow> ('et, 'st, 'ut, 'ft, 'pt) redb_db \<Rightarrow> u64 \<Rightarrow> event_status
   \<Rightarrow> (storage_error + unit) \<times> ('et, 'st, 'ut, 'ft, 'pt) redb_db" where
  "redb_update_status E db q st =
     (let op = ''update_status''; io = db_io E op in
      write_txn E op ''spawn_blocking error: '' db (
        andthen (read_event E db op q) (\<lambda>event.
        let old_status_u8 = as_u8 (ev_status event) in
        andthen (serde ''failed to serialize event: '' (ser_event E (event\<lparr>ev_status := st\<rparr>))) (\<lambda>serialized.
        andthen (io (At 3) ''failed to open events table: '') (\<lambda>_.
        andthen (io (At 4) ''failed to update event: '') (\<lambda>_.
        let et = tb_insert (EVENTS_TABLE E) (t_events db) q serialized in
        andthen (io (At 5) ''failed to open status_idx: '') (\<lambda>_.
        let ut = quiet_remove E op (At 6) (STATUS_IDX_TABLE E) (t_status db) (old_status_u8, q) in
        andthen (io (At 7) ''failed to insert new status index: '') (\<lambda>_.
        let ut = tb_insert (STATUS_IDX_TABLE E) ut (as_u8 st, q) () in
        andthen (io (At 8) ''failed to commit: '') (\<lambda>_.
        Inr ((), db\<lparr>t_events := et, t_status := ut\<rparr>))))))))))"

definition has_failed :: "delivery_record list \<Rightarrow> bool" where
  "has_failed ds = list_ex (\<lambda>d. dl_status d = DlFailed) ds"

definition redb_record_delivery ::
  "('et, 'st, 'ut, 'ft, 'pt) redb_env \<Rightarrow> ('et, 'st, 'ut, 'ft, 'pt) redb_db \<Rightarrow> u64 \<Rightarrow> string
   \<Rightarrow> delivery_status \<Rightarrow> string option \<Rightarrow> u64 option \<Rightarrow> u64
   \<Rightarrow> (storage_error + unit) \<times> ('et, 'st, 'ut, 'ft, 'pt) redb_db" where
  "redb_record_delivery E db q subscriber_id st err next_retry now =
     (let op = ''record_delivery''; io = db_io E op in
      write_txn E op ''spawn_blocking error: '' db (
        andthen (read_event E db op q) (\<lambda>event.
        let event = event\<lparr>ev_deliveries :=
              apply_delivery subscriber_id st err next_retry now (ev_deliveries event)\<rparr>;
            has_failed_deliveries = has_failed (ev_deliveries event) in
        andthen (serde ''failed to serialize event: '' (ser_event E event)) (\<lambda>serialized.
        andthen (io (At 3) ''failed to open events table: '') (\<lambda>_.
        andthen (io (At 4) ''failed to update event: '') (\<lambda>_.
        let et = tb_insert (EVENTS_TABLE E) (t_events db) q serialized in
        andthen (io (At 5) ''failed to open failed_deliveries_idx: '') (\<lambda>_.
        andthen (if has_failed_deliveries
                 then andthen (io (At 6) ''failed to insert failed_deliveries_idx: '') (\<lambda>_.
                        Inr (tb_insert (FAILED_DELIVERIES_IDX_TABLE E) (t_failed db) q ()))
                 else Inr (quiet_remove E op (At 7) (FAILED_DELIVERIES_IDX_TABLE E) (t_failed db) q)) (\<lambda>ft.
        andthen (io (At 8) ''failed to commit: '') (\<lambda>_.
        Inr ((), db\<lparr>t_events := et, t_failed := ft\<rparr>))))))))))"

text \<open>One row of an index scan: the event it points to, when it is still there.\<close>

definition fetch_event ::
  "('et, 'st, 'ut, 'ft, 'pt) redb_env \<Rightarrow> ('et, 'st, 'ut, 'ft, 'pt) redb_db \<Rightarrow> string \<Rightarrow> nat \<Rightarrow> u64
   \<Rightarrow> storage_error + stored_event option" where
  "fetch_event E db op i q =
     andthen (db_io E op (InLoop i 1) ''failed to get event: '') (\<lambda>_.
     case tb_get (EVENTS_TABLE E) (t_events db) q of
       None \<Rightarrow> Inr None
     | Some data \<Rightarrow> andthen (serde ''failed to deserialize: '' (de_event E data)) (\<lambda>e. Inr (Some e)))"

fun status_loop ::
  "('et, 'st, 'ut, 'ft, 'pt) redb_env \<Rightarrow> ('et, 'st, 'ut, 'ft, 'pt) redb_db \<Rightarrow> event_status \<Rightarrow> nat
   \<Rightarrow> nat \<Rightarrow> ((u8 \<times> u64) \<times> unit) list \<Rightarrow> stored_event list \<Rightarrow> storage_error + stored_event list" where
  "status_loop E db st limit i [] results = Inr results"
| "status_loop E db st limit i (((key_status, q), _) # items) results =
     andthen (db_io E ''query_by_status'' (InLoop i 0) ''failed to iterate: '') (\<lambda>_.
     if key_status \<noteq> as_u8 st then Inr results
     else if length results \<ge> limit then Inr results
     else andthen (fetch_event E db ''query_by_status'' i q) (\<lambda>found.
       status_loop E db st limit (Suc i) items
         (case found of None \<Rightarrow> results
          | Some event \<Rightarrow> if ev_status event = st then results @ [event] else results)))"

definition redb_query_by_status ::
  "('et, 'st, 'ut, 'ft, 'pt) redb_env \<Rightarrow> ('et, 'st, 'ut, 'ft, 'pt) redb_db \<Rightarrow> event_status \<Rightarrow> nat
   \<Rightarrow> storage_error + stored_event list" where
  "redb_query_by_status E db st limit =
     (let op = ''query_by_status''; io = db_io E op in
      joined E op ''spawn_blocking error: '' (
        andthen (io (At 0) ''failed to begin read: '') (\<lambda>_.
        andthen (io (At 1) ''failed to open status_idx: '') (\<lambda>_.
        andthen (io (At 2) ''failed to open events table: '') (\<lambda>_.
        andthen (io (At 3) ''failed to range query: '') (\<lambda>_.
        status_loop E db st limit 0
          (tb_range_from (STATUS_IDX_TABLE E) (t_status db) (as_u8 st, 0)) []))))))"

fun subject_loop ::
  "('et, 'st, 'ut, 'ft, 'pt) redb_env \<Rightarrow> ('et, 'st, 'ut, 'ft, 'pt) redb_db \<Rightarrow> string \<Rightarrow> nat
   \<Rightarrow> nat \<Rightarrow> ((string \<times> u64) \<times> unit) list \<Rightarrow> stored_event list \<Rightarrow> storage_error + stored_event list" where
  "subject_loop E db subj limit i [] results = Inr results"
| "subject_loop E db subj limit i (((key_subject, q), _) # items) results =
     andthen (db_io E ''query_by_subject'' (InLoop i 0) ''failed to iterate: '') (\<lambda>_.
     if key_subject \<noteq> subj then Inr results
     else if length results \<ge> limit then Inr results
     else andthen (fetch_event E db ''query_by_subject'' i q) (\<lambda>found.
       subject_loop E db subj limit (Suc i) items
         (case found of None \<Rightarrow> results | Some event \<Rightarrow> results @ [event])))"

definition redb_query_by_subject ::
  "('et, 'st, 'ut, 'ft, 'pt) redb_env \<Rightarrow> ('et, 'st, 'ut, 'ft, 'pt) redb_db \<Rightarrow> string \<Rightarrow> u64 option \<Rightarrow> nat
   \<Rightarrow> storage_error + stored_event list" where
  "redb_query_by_subject E db subj since limit =
     (let op = ''query_by_subject''; io = db_io E op in
      joined E op ''spawn_blocking error: '' (
        andthen (io (At 0) ''failed to begin read: '') (\<lambda>_.
        andthen (io (At 1) ''failed to open subject_idx: '') (\<lambda>_.
        andthen (io (At 2) ''failed to open events table: '') (\<lambda>_.
        let start_seq = (case since of None \<Rightarrow> 0 | Some k \<Rightarrow> k) in
        andthen (io (At 3) ''failed to range query: '') (\<lambda>_.
        subject_loop E db subj limit 0
          (tb_range_from (SUBJECT_IDX_TABLE E) (t_subject db) (subj, start_seq)) []))))))"

fun retryable_loop ::
  "('et, 'st, 'ut, 'ft, 'pt) redb_env \<Rightarrow> ('et, 'st, 'ut, 'ft, 'pt) redb_db \<Rightarrow> u32 \<Rightarrow> u64 \<Rightarrow> nat
   \<Rightarrow> (u64 \<times> unit) list \<Rightarrow> retryable_delivery list \<Rightarrow> storage_error + retryable_delivery list" where
  "retryable_loop E db max_attempts now i [] results = Inr results"
| "retryable_loop E db max_attempts now i ((q, _) # items) results =
     andthen (db_io E ''query_retryable'' (InLoop i 0) ''failed to iterate: '') (\<lambda>_.
     andthen (fetch_event E db ''query_retryable'' i q) (\<lambda>found.
       retryable_loop E db max_attempts now (Suc i) items
         (case found of None \<Rightarrow> results | Some event \<Rightarrow> results @ retryables_of max_attempts now event)))"

definition redb_query_retryable ::
  "('et, 'st, 'ut, 'ft, 'pt) redb_env \<Rightarrow> ('et, 'st, 'ut, 'ft, 'pt) redb_db \<Rightarrow> u32 \<Rightarrow> nat \<Rightarrow> u64
   \<Rightarrow> storage_error + retryable_delivery list" where
  "redb_query_retryable E db max_attempts limit now =
     (let op = ''query_retryable''; io = db_io E op in
      joined E op ''spawn_blocking error: '' (
        andthen (io (At 0) ''failed to begin read: '') (\<lambda>_.
        andthen (io (At 1) ''failed to open events table: '') (\<lambda>_.
        andthen (io (At 2) ''failed to open failed_deliveries_idx: '') (\<lambda>_.
        andthen (io (At 3) ''failed to iterate: '') (\<lambda>_.
        andthen (retryable_loop E db max_attempts now 0
          (tb_iter (FAILED_DELIVERIES_IDX_TABLE E) (t_failed db)) []) (\<lambda>results.
        Inr (take limit (sort_key retry_key results)))))))))"

fun count_loop ::
  "('et, 'st, 'ut, 'ft, 'pt) redb_env \<Rightarrow> ('et, 'st, 'ut, 'ft, 'pt) redb_db \<Rightarrow> u32 \<Rightarrow> u64 \<Rightarrow> nat
   \<Rightarrow> (u64 \<times> unit) list \<Rightarrow> u64 \<Rightarrow> storage_error + u64" where
  "count_loop E db max_attempts now i [] cnt = Inr cnt"
| "count_loop E db max_attempts now i ((q, _) # items) cnt =
     andthen (db_io E ''count_retryable'' (InLoop i 0) ''failed to iterate: '') (\<lambda>_.
     andthen (fetch_event E db ''count_retryable'' i q) (\<lambda>found.
       count_loop E db max_attempts now (Suc i) items
         (case found of None \<Rightarrow> cnt
          | Some event \<Rightarrow> count_retryable_deliveries max_attempts now (ev_deliveries event) cnt)))"

definition redb_count_retryable ::
  "('et, 'st, 'ut, 'ft, 'pt) redb_env \<Rightarrow> ('et, 'st, 'ut, 'ft, 'pt) redb_db \<Rightarrow> u32 \<Rightarrow> u64
   \<Rightarrow> storage_error + u64" where
  "redb_count_retryable E db max_attempts now =
     (let op = ''count_retryable''; io = db_io E op in
      joined E op ''spawn_blocking error: '' (
        andthen (io (At 0) ''failed to begin read: '') (\<lambda>_.
        andthen (io (At 1) ''failed to open events table: '') (\<lambda>_.
        andthen (io (At 2) ''failed to open failed_deliveries_idx: '') (\<lambda>_.
        andthen (io (At 3) ''failed to iterate: '') (\<lambda>_.
        count_loop E db max_attempts now 0
          (tb_iter (FAILED_DELIVERIES_IDX_TABLE E) (t_failed db)) 0))))))"

text \<open>\<open>compact\<close>: the rows to delete are collected first, then removed one by one.\<close>

fun compact_scan ::
  "('et, 'st, 'ut, 'ft, 'pt) redb_env \<Rightarrow> u64 \<Rightarrow> nat \<Rightarrow> (u64 \<times> bytes) list
   \<Rightarrow> (u64 \<times> string \<times> u8) list \<Rightarrow> storage_error + (u64 \<times> string \<times> u8) list" where
  "compact_scan E threshold i [] items = Inr items"
| "compact_scan E threshold i ((q, data) # rows) items =
     andthen (db_io E ''compact'' (InLoop i 2) ''failed to iterate: '') (\<lambda>_.
     andthen (serde ''failed to deserialize: '' (de_event E data)) (\<lambda>event.
       compact_scan E threshold (Suc i) rows
         (if compactable threshold event
          then items @ [(q, ev_subject event, as_u8 (ev_status event))] else items)))"

fun compact_delete ::
  "('et, 'st, 'ut, 'ft, 'pt) redb_env \<Rightarrow> nat \<Rightarrow> (u64 \<times> string \<times> u8) list
   \<Rightarrow> ('et, 'st, 'ut, 'ft, 'pt) redb_db \<Rightarrow> ('et, 'st, 'ut, 'ft, 'pt) redb_db" where
  "compact_delete E i [] db = db"
| "compact_delete E i ((q, subj, status_u8) # items) db =
     compact_delete E (Suc i) items
       (db\<lparr>t_events := quiet_remove E ''compact'' (InLoop i 0) (EVENTS_TABLE E) (t_events db) q,
           t_subject := quiet_remove E ''compact'' (InLoop i 1) (SUBJECT_IDX_TABLE E) (t_subject db) (subj, q),
           t_status := quiet_remove E ''compact'' (InLoop i 2) (STATUS_IDX_TABLE E) (t_status db) (status_u8, q),
           t_failed := quiet_remove E ''compact'' (InLoop i 3) (FAILED_DELIVERIES_IDX_TABLE E) (t_failed db) q\<rparr>)"

definition redb_compact ::
  "('et, 'st, 'ut, 'ft, 'pt) redb_env \<Rightarrow> ('et, 'st, 'ut, 'ft, 'pt) redb_db \<Rightarrow> duration \<Rightarrow> u64
   \<Rightarrow> (storage_error + u64) \<times> ('et, 'st, 'ut, 'ft, 'pt) redb_db" where
  "redb_compact E db older_than now =
     (let op = ''compact''; io = db_io E op;
          threshold = compact_threshold older_than now in
      write_txn E op ''spawn_blocking error: '' db (
        andthen (io (At 0) ''failed to begin write: '') (\<lambda>_.
        andthen (io (At 1) ''failed to open events table: '') (\<lambda>_.
        andthen (io (At 2) ''failed to iterate: '') (\<lambda>_.
        andthen (compact_scan E threshold 0 (tb_iter (EVENTS_TABLE E) (t_events db)) []) (\<lambda>to_delete.
        if to_delete = [] then Inr (0, db)
        else
          let removed = of_nat (length to_delete) in
          andthen (io (At 3) ''failed to open events table: '') (\<lambda>_.
          andthen (io (At 4) ''failed to open subject_idx: '') (\<lambda>_.
          andthen (io (At 5) ''failed to open status_idx: '') (\<lambda>_.
          andthen (io (At 6) ''failed to open failed_deliveries_idx: '') (\<lambda>_.
          let db' = compact_delete E 0 to_delete db in
          andthen (io (At 7) ''failed to commit: '') (\<lambda>_. Inr (removed, db'))))))))))))"

definition not_dead_lettered :: "u64 \<Rightarrow> storage_error" where
  "not_dead_lettered q = OperationFailed (''event '' @ show_word q @ '' is not dead-lettered'')"

definition redb_requeue_dead_lettered ::
  "('et, 'st, 'ut, 'ft, 'pt) redb_env \<Rightarrow> ('et, 'st, 'ut, 'ft, 'pt) redb_db \<Rightarrow> u64
   \<Rightarrow> (storage_error + stored_event) \<times> ('et, 'st, 'ut, 'ft, 'pt) redb_db" where
  "redb_requeue_dead_lettered E db q =
     (let op = ''requeue_dead_lettered''; io = db_io E op in
      write_txn E op ''spawn_blocking error: '' db (
        andthen (read_event E db op q) (\<lambda>event.
        if ev_status event \<noteq> EvDeadLettered then Inl (not_dead_lettered q)
        else
          let old_status = as_u8 (ev_status event);
              event = event\<lparr>ev_status := EvPending, ev_deliveries := []\<rparr> in
          andthen (serde ''failed to serialize event: '' (ser_event E event)) (\<lambda>serialized.
          andthen (io (At 3) ''failed to open events table: '') (\<lambda>_.
          andthen (io (At 4) ''failed to update event: '') (\<lambda>_.
          let et = tb_insert (EVENTS_TABLE E) (t_events db) q serialized in
          andthen (io (At 5) ''failed to open status_idx: '') (\<lambda>_.
          let ut = quiet_remove E op (At 6) (STATUS_IDX_TABLE E) (t_status db) (old_status, q) in
          andthen (io (At 7) ''failed to insert status index: '') (\<lambda>_.
          let ut = tb_insert (STATUS_IDX_TABLE E) ut (as_u8 EvPending, q) () in
          andthen (io (At 8) ''failed to open failed_deliveries_idx: '') (\<lambda>_.
          let ft = quiet_remove E op (At 9) (FAILED_DELIVERIES_IDX_TABLE E) (t_failed db) q in
          andthen (io (At 10) ''failed to commit: '') (\<lambda>_.
          Inr (event, db\<lparr>t_events := et, t_status := ut, t_failed := ft\<rparr>)))))))))))"

definition redb_purge_dead_lettered ::
  "('et, 'st, 'ut, 'ft, 'pt) redb_env \<Rightarrow> ('et, 'st, 'ut, 'ft, 'pt) redb_db \<Rightarrow> u64
   \<Rightarrow> (storage_error + unit) \<times> ('et, 'st, 'ut, 'ft, 'pt) redb_db" where
  "redb_purge_dead_lettered E db q =
     (let op = ''purge_dead_lettered''; io = db_io E op in
      write_txn E op ''spawn_blocking error: '' db (
        andthen (read_event E db op q) (\<lambda>event.
        if ev_status event \<noteq> EvDeadLettered then Inl (not_dead_lettered q)
        else
          andthen (io (At 3) ''failed to open events table: '') (\<lambda>_.
          let et = quiet_remove E op (At 0) (EVENTS_TABLE E) (t_events db) q in
          andthen (io (At 4) ''failed to open subject_idx: '') (\<lambda>_.
          let st = quiet_remove E op (At 1) (SUBJECT_IDX_TABLE E) (t_subject db) (ev_subject event, q) in
          andthen (io (At 5) ''failed to open status_idx: '') (\<lambda>_.
          let ut = quiet_remove E op (At 2) (STATUS_IDX_TABLE E) (t_status db) (as_u8 (ev_status event), q) in
          andthen (io (At 6) ''failed to open failed_deliveries_idx: '') (\<lambda>_.
          let ft = quiet_remove E op (At 3) (FAILED_DELIVERIES_IDX_TABLE E) (t_failed db) q in
          andthen (io (At 7) ''failed to commit: '') (\<lambda>_.
          Inr ((), db\<lparr>t_events := et, t_subject := st, t_status := ut, t_failed := ft\<rparr>)))))))))"

definition redb_save_subscription ::
  "('et, 'st, 'ut, 'ft, 'pt) redb_env \<Rightarrow> ('et, 'st, 'ut, 'ft, 'pt) redb_db \<Rightarrow> persisted_subscription
   \<Rightarrow> (storage_error + unit) \<times> ('et, 'st, 'ut, 'ft, 'pt) redb_db" where
  "redb_save_subscription E db sub =
     (let op = ''save_subscription''; io = db_io E op in
      write_txn E op ''spawn_blocking: '' db (
        andthen (serde ''serialize subscription: '' (ser_sub E sub)) (\<lambda>serialized.
        andthen (io (At 0) ''begin write: '') (\<lambda>_.
        andthen (io (At 1) ''open subscriptions table: '') (\<lambda>_.
        andthen (io (At 2) ''insert subscription: '') (\<lambda>_.
        let pt = tb_insert (SUBSCRIPTIONS_TABLE E) (t_subs db) (ps_persisted_id sub) serialized in
        andthen (io (At 3) ''commit: '') (\<lambda>_. Inr ((), db\<lparr>t_subs := pt\<rparr>))))))))"

fun subs_loop ::
  "('et, 'st, 'ut, 'ft, 'pt) redb_env \<Rightarrow> nat \<Rightarrow> (string \<times> bytes) list \<Rightarrow> persisted_subscription list
   \<Rightarrow> storage_error + persisted_subscription list" where
  "subs_loop E i [] results = Inr results"
| "subs_loop E i ((_, data) # rows) results =
     andthen (db_io E ''list_subscriptions'' (InLoop i 0) ''iterate row: '') (\<lambda>_.
     andthen (serde ''deserialize subscription: '' (de_sub E data)) (\<lambda>sub.
       subs_loop E (Suc i) rows (results @ [sub])))"

definition redb_list_subscriptions ::
  "('et, 'st, 'ut, 'ft, 'pt) redb_env \<Rightarrow> ('et, 'st, 'ut, 'ft, 'pt) redb_db
   \<Rightarrow> storage_error + persisted_subscription list" where
  "redb_list_subscriptions E db =
     (let op = ''list_subscriptions''; io = db_io E op in
      joined E op ''spawn_blocking: '' (
        andthen (io (At 0) ''begin read: '') (\<lambda>_.
        andthen (io (At 1) ''open subscriptions: '') (\<lambda>_.
        andthen (io (At 2) ''iterate: '') (\<lambda>_.
        subs_loop E 0 (tb_iter (SUBSCRIPTIONS_TABLE E) (t_subs db)) [])))))"

definition redb_delete_subscription ::
  "('et, 'st, 'ut, 'ft, 'pt) redb_env \<Rightarrow> ('et, 'st, 'ut, 'ft, 'pt) redb_db \<Rightarrow> string
   \<Rightarrow> (storage_error + unit) \<times> ('et, 'st, 'ut, 'ft, 'pt) redb_db" where
  "redb_delete_subscription E db persisted_id =
     (let op = ''delete_subscription''; io = db_io E op in
      write_txn E op ''spawn_blocking: '' db (
        andthen (io (At 0) ''begin write: '') (\<lambda>_.
        andthen (io (At 1) ''open subscriptions table: '') (\<lambda>_.
        let pt = quiet_remove E op (At 0) (SUBSCRIPTIONS_TABLE E) (t_subs db) persisted_id in
        andthen (io (At 2) ''commit: '') (\<lambda>_. Inr ((), db\<lparr>t_subs := pt\<rparr>))))))"

text \<open>\<open>impl EventStore for RedbEventStore\<close>.\<close>

definition redb_ops ::
  "('et, 'st, 'ut, 'ft, 'pt) redb_env \<Rightarrow> ('et, 'st, 'ut, 'ft, 'pt) redb_db store_ops" where
  "redb_ops E =
     \<lparr>st_append = redb_append E, st_get = redb_get E, st_update_status = redb_update_status E,
      st_record_delivery = redb_record_delivery E, st_query_by_status = redb_query_by_status E,
      st_query_by_subject = redb_query_by_subject E, st_query_retryable = redb_query_retryable E,
      st_count_retryable = redb_count_retryable E, st_compact = redb_compact E,
      st_requeue_dead_lettered = redb_requeue_dead_lettered E,
      st_purge_dead_lettered = redb_purge_dead_lettered E,
      st_save_subscription = redb_save_subscription E, st_list_subscriptions = redb_list_subscriptions E,
      st_delete_subscription = redb_delete_subscription E\<rparr>"

section \<open>What redb promises of a table\<close>

text \<open>A table is a finite map kept in key order: the documented behaviour of redb's B-tree
  tables inside one transaction.\<close>

locale redb_table =
  fixes T :: "('t, 'k::linorder, 'v) table_ops"
  assumes iter_sorted: "sorted_wrt (<) (map fst (tb_iter T t))"
    and get_iter: "tb_get T t k = map_of (tb_iter T t) k"
    and insert_law: "tb_get T (tb_insert T t k v) j = (if j = k then Some v else tb_get T t j)"
    and remove_law: "tb_get T (tb_remove T t k) j = (if j = k then None else tb_get T t j)"
    and range_law: "tb_range_from T t k = filter (\<lambda>p. k \<le> fst p) (tb_iter T t)"
    and last_law: "tb_last T t = (if tb_iter T t = [] then None else Some (last (tb_iter T t)))"
begin

lemma iter_distinct: "distinct (map fst (tb_iter T t))"
  using iter_sorted by (rule sorted_wrt_less_distinct)

lemma iter_mem: "(k, v) \<in> set (tb_iter T t) \<longleftrightarrow> tb_get T t k = Some v"
  by (simp add: get_iter iter_distinct)

lemma iter_keys: "set (map fst (tb_iter T t)) = {k. tb_get T t k \<noteq> None}"
  by (auto simp: get_iter map_of_eq_None_iff image_iff)

lemma get_quiet:
  "tb_get T (quiet_remove E op p T t k) j = (if j = k \<and> \<not> rm_fault E op p then None else tb_get T t j)"
  by (simp add: quiet_remove_def remove_law)

lemma last_none: "tb_last T t = None \<longleftrightarrow> tb_get T t = Map.empty"
proof (cases "tb_iter T t")
  case (Cons p ps)
  then have "tb_get T t (fst p) \<noteq> None"
    by (simp add: get_iter)
  with Cons show ?thesis by (auto simp: last_law)
qed (simp add: last_law fun_eq_iff get_iter)

lemma last_some:
  assumes "tb_last T t = Some (k, v)"
  shows "tb_get T t k = Some v" and "tb_get T t j \<noteq> None \<Longrightarrow> j \<le> k"
proof -
  have l: "tb_iter T t \<noteq> []" "last (tb_iter T t) = (k, v)"
    using assms by (auto simp: last_law split: if_splits)
  then show "tb_get T t k = Some v"
    using iter_mem [of k v t] last_in_set [of "tb_iter T t"] by auto
  assume "tb_get T t j \<noteq> None"
  then have "j \<in> set (map fst (tb_iter T t))"
    by (simp only: iter_keys) simp
  then show "j \<le> k"
    using sorted_wrt_less_last [OF iter_sorted] l by (fastforce simp: last_map)
qed

end

section \<open>Invariant and abstraction\<close>

definition redb_view ::
  "('et, 'st, 'ut, 'ft, 'pt) redb_env \<Rightarrow> ('et, 'st, 'ut, 'ft, 'pt) redb_db \<Rightarrow> (u64 \<rightharpoonup> stored_event)" where
  "redb_view E db = (\<lambda>q. case tb_get (EVENTS_TABLE E) (t_events db) q of
      None \<Rightarrow> None
    | Some data \<Rightarrow> (case de_event E data of Inl _ \<Rightarrow> None | Inr e \<Rightarrow> Some e))"

text \<open>Every row decodes to an event under its own number; the subject index is exact; the status
  index and the index of failed deliveries miss nothing, but may hold stale rows.\<close>

definition redb_inv ::
  "('et, 'st, 'ut, 'ft, 'pt) redb_env \<Rightarrow> ('et, 'st, 'ut, 'ft, 'pt) redb_db \<Rightarrow> bool" where
  "redb_inv E db \<longleftrightarrow>
     (\<forall>q data. tb_get (EVENTS_TABLE E) (t_events db) q = Some data \<longrightarrow>
        (\<exists>e. de_event E data = Inr e \<and> ev_seq e = q \<and> deliveries_wf e))
   \<and> (\<forall>sb q. tb_get (SUBJECT_IDX_TABLE E) (t_subject db) (sb, q) \<noteq> None \<longleftrightarrow>
        (\<exists>e. redb_view E db q = Some e \<and> ev_subject e = sb))
   \<and> (\<forall>q e. redb_view E db q = Some e \<longrightarrow>
        tb_get (STATUS_IDX_TABLE E) (t_status db) (as_u8 (ev_status e), q) \<noteq> None)
   \<and> (\<forall>q e. redb_view E db q = Some e \<longrightarrow> has_failed (ev_deliveries e) \<longrightarrow>
        tb_get (FAILED_DELIVERIES_IDX_TABLE E) (t_failed db) q \<noteq> None)"

lemma db_io_Inr [err_simps]: "db_io E op p msg = Inr u \<longleftrightarrow> fault E op p = None"
  by (auto simp: db_io_def split: option.splits)

lemma if_io_InrD:
  "(if c then andthen (db_io E op p msg) (\<lambda>_. Inr a) else Inr b) = Inr x \<Longrightarrow> x = (if c then a else b)"
  by (auto simp: err_simps split: if_splits)

lemma serde_Inr [err_simps]: "serde msg r = Inr x \<longleftrightarrow> r = Inr x"
  by (simp add: serde_def map_err_eq_Inr)

lemma joined_Inr [err_simps]: "joined E op msg r = Inr x \<longleftrightarrow> fault E op Join = None \<and> r = Inr x"
  by (auto simp: joined_def split: option.splits)

lemma txn_rule:
  "(\<And>a db'. r = Inr (a, db') \<Longrightarrow> Q a db') \<Longrightarrow>
     failed (write_txn E op msg db r) db \<or> (\<exists>a db'. write_txn E op msg db r = (Inr a, db') \<and> Q a db')"
  by (auto simp: write_txn_def failed_def joined_def split: sum.splits option.splits)

lemma seq_list_unique:
  assumes "sorted_wrt (<) (map ev_seq xs)" and "sorted_wrt (<) (map ev_seq ys)" and "set xs = set ys"
  shows "xs = ys"
proof (rule map_sorted_distinct_set_unique [of ev_seq])
  show "inj_on ev_seq (set xs \<union> set ys)"
    using sorted_wrt_less_distinct [OF assms(1)] assms(3) by (simp add: distinct_map)
qed (use assms sorted_wrt_less_distinct in \<open>auto simp: strict_sorted_iff\<close>)

lemma seq_sorted_filter:
  "sorted_wrt (<) (map ev_seq xs) \<Longrightarrow> sorted_wrt (<) (map ev_seq (filter P xs))"
  by (simp add: sorted_wrt_map sorted_wrt_filter)

lemma range_prefix:
  fixes xs :: "(('a::linorder \<times> 'b::linorder) \<times> 'v) list"
  shows "sorted_wrt (<) (map fst xs) \<Longrightarrow>
   takeWhile (\<lambda>p. fst (fst p) = c) (filter (\<lambda>p. (c, lo) \<le> fst p) xs)
     = filter (\<lambda>p. fst (fst p) = c \<and> lo \<le> snd (fst p)) xs"
proof (induction xs)
  case (Cons x xs)
  have "filter (\<lambda>p. fst (fst p) = c \<and> lo \<le> snd (fst p)) xs = []" if "c < fst (fst x)"
    using Cons.prems that by (auto simp: filter_empty_conv less_prod_def)
  with Cons show ?case
    by (cases x) (auto simp: less_eq_prod_def)
qed simp

lemma range_seqs_sorted:
  fixes xs :: "(('a::linorder \<times> 'b::linorder) \<times> 'v) list"
  shows "sorted_wrt (<) (map fst xs) \<Longrightarrow>
    sorted_wrt (<) (map (snd \<circ> fst) (filter (\<lambda>p. fst (fst p) = c \<and> P p) xs))"
  by (induction xs) (auto simp: less_prod_def)

lemma concat_map_filter_irrelevant:
  "(\<And>x. x \<in> set xs \<Longrightarrow> \<not> P x \<Longrightarrow> f x = []) \<Longrightarrow> concat (map f (filter P xs)) = concat (map f xs)"
  by (induction xs) auto

lemma retryables_not_failed: "\<not> has_failed (ev_deliveries e) \<Longrightarrow> retryables_of mx now e = []"
  by (auto simp: retryables_of_def has_failed_def list_ex_iff is_retryable_def filter_empty_conv)

text \<open>The table laws, the round trip of serde_json, and that removing an event row or its subject
  row does not fail where the code ignores that it did.\<close>

locale redb_store = ev: redb_table "EVENTS_TABLE E" + subj: redb_table "SUBJECT_IDX_TABLE E"
  + stat: redb_table "STATUS_IDX_TABLE E" + fl: redb_table "FAILED_DELIVERIES_IDX_TABLE E"
  + psub: redb_table "SUBSCRIPTIONS_TABLE E"
  for E :: "('et, 'st, 'ut, 'ft, 'pt) redb_env"
  + assumes event_roundtrip: "ser_event E e = Inr b \<Longrightarrow> de_event E b = Inr e"
    and sub_roundtrip: "ser_sub E u = Inr b \<Longrightarrow> de_sub E b = Inr u"
    and purge_rows: "\<not> rm_fault E ''purge_dead_lettered'' (At 0)" "\<not> rm_fault E ''purge_dead_lettered'' (At 1)"
    and compact_rows: "\<not> rm_fault E ''compact'' (InLoop i 0)" "\<not> rm_fault E ''compact'' (InLoop i 1)"
begin

lemma view_decode:
  "redb_inv E db \<Longrightarrow> tb_get (EVENTS_TABLE E) (t_events db) q = Some data \<Longrightarrow>
     \<exists>e. de_event E data = Inr e \<and> redb_view E db q = Some e \<and> ev_seq e = q \<and> deliveries_wf e"
  by (fastforce simp: redb_inv_def redb_view_def)

lemma view_none:
  "redb_inv E db \<Longrightarrow> redb_view E db q = None \<longleftrightarrow> tb_get (EVENTS_TABLE E) (t_events db) q = None"
  by (cases "tb_get (EVENTS_TABLE E) (t_events db) q")
    (auto simp: redb_view_def [of E db] dest: view_decode)

lemma view_some:
  "redb_inv E db \<Longrightarrow> redb_view E db q = Some e \<Longrightarrow>
     (\<exists>data. tb_get (EVENTS_TABLE E) (t_events db) q = Some data \<and> de_event E data = Inr e)
     \<and> ev_seq e = q \<and> deliveries_wf e"
  by (cases "tb_get (EVENTS_TABLE E) (t_events db) q")
    (auto simp: redb_view_def [of E db] dest: view_decode)

lemma dom_view: "redb_inv E db \<Longrightarrow> dom (redb_view E db) = set (map fst (tb_iter (EVENTS_TABLE E) (t_events db)))"
  unfolding ev.iter_keys by (auto simp: dom_def view_none)

lemma redb_view_wf: "redb_inv E db \<Longrightarrow> log_wf (redb_view E db)"
  using view_some by (fastforce simp: log_wf_def dom_view)

lemma read_event_cases:
  assumes "redb_inv E db" and "read_event E db op q = Inr e"
  shows "redb_view E db q = Some e"
  using assms by (auto simp: read_event_def err_simps dest: view_decode)

lemma inv_replace:
  assumes inv: "redb_inv E db" and q: "redb_view E db q = Some e"
    and de: "de_event E data = Inr e'" "ev_seq e' = q" "deliveries_wf e'" "ev_subject e' = ev_subject e"
    and db': "t_events db' = tb_insert (EVENTS_TABLE E) (t_events db) q data" "t_subject db' = t_subject db"
    and st: "\<And>k. snd k \<noteq> q \<Longrightarrow> tb_get (STATUS_IDX_TABLE E) (t_status db) k \<noteq> None
      \<Longrightarrow> tb_get (STATUS_IDX_TABLE E) (t_status db') k \<noteq> None"
      "tb_get (STATUS_IDX_TABLE E) (t_status db') (as_u8 (ev_status e'), q) \<noteq> None"
    and fd: "\<And>k. k \<noteq> q \<Longrightarrow> tb_get (FAILED_DELIVERIES_IDX_TABLE E) (t_failed db) k \<noteq> None
      \<Longrightarrow> tb_get (FAILED_DELIVERIES_IDX_TABLE E) (t_failed db') k \<noteq> None"
      "has_failed (ev_deliveries e') \<Longrightarrow> tb_get (FAILED_DELIVERIES_IDX_TABLE E) (t_failed db') q \<noteq> None"
  shows "redb_inv E db' \<and> redb_view E db' = (redb_view E db)(q \<mapsto> e')"
proof -
  have v: "redb_view E db' = (redb_view E db)(q \<mapsto> e')"
    using db' de by (auto simp: redb_view_def fun_eq_iff ev.insert_law)
  show ?thesis
    unfolding redb_inv_def v db'
  proof (intro conjI allI impI)
    fix k d
    assume "tb_get (EVENTS_TABLE E) (tb_insert (EVENTS_TABLE E) (t_events db) q data) k = Some d"
    then show "\<exists>e. de_event E d = Inr e \<and> ev_seq e = k \<and> deliveries_wf e"
      using inv de view_decode [OF inv, of k d] by (auto simp: ev.insert_law split: if_splits)
  next
    fix sb k
    show "(tb_get (SUBJECT_IDX_TABLE E) (t_subject db) (sb, k) \<noteq> None) =
        (\<exists>e. ((redb_view E db)(q \<mapsto> e')) k = Some e \<and> ev_subject e = sb)"
      using inv q de(4) by (auto simp: redb_inv_def)
  next
    fix k x
    assume "((redb_view E db)(q \<mapsto> e')) k = Some x"
    then show "tb_get (STATUS_IDX_TABLE E) (t_status db') (as_u8 (ev_status x), k) \<noteq> None"
      using inv st by (cases "k = q") (auto simp: redb_inv_def)
  next
    fix k x
    assume "((redb_view E db)(q \<mapsto> e')) k = Some x" "has_failed (ev_deliveries x)"
    then show "tb_get (FAILED_DELIVERIES_IDX_TABLE E) (t_failed db') k \<noteq> None"
      using inv fd by (cases "k = q") (auto simp: redb_inv_def)
  qed simp
qed

lemma inv_delete:
  assumes inv: "redb_inv E db" and q: "redb_view E db q = Some e"
    and db': "t_events db' = tb_remove (EVENTS_TABLE E) (t_events db) q"
      "t_subject db' = tb_remove (SUBJECT_IDX_TABLE E) (t_subject db) (ev_subject e, q)"
    and st: "\<And>k. snd k \<noteq> q \<Longrightarrow> tb_get (STATUS_IDX_TABLE E) (t_status db) k \<noteq> None
      \<Longrightarrow> tb_get (STATUS_IDX_TABLE E) (t_status db') k \<noteq> None"
    and fd: "\<And>k. k \<noteq> q \<Longrightarrow> tb_get (FAILED_DELIVERIES_IDX_TABLE E) (t_failed db) k \<noteq> None
      \<Longrightarrow> tb_get (FAILED_DELIVERIES_IDX_TABLE E) (t_failed db') k \<noteq> None"
  shows "redb_inv E db' \<and> redb_view E db' = (redb_view E db)(q := None)"
proof -
  have v: "redb_view E db' = (redb_view E db)(q := None)"
    using db' by (auto simp: redb_view_def fun_eq_iff ev.remove_law)
  show ?thesis
    unfolding redb_inv_def v db'
  proof (intro conjI allI impI)
    fix k d
    assume "tb_get (EVENTS_TABLE E) (tb_remove (EVENTS_TABLE E) (t_events db) q) k = Some d"
    then show "\<exists>e. de_event E d = Inr e \<and> ev_seq e = k \<and> deliveries_wf e"
      using view_decode [OF inv, of k d] by (auto simp: ev.remove_law split: if_splits)
  next
    fix sb k
    show "(tb_get (SUBJECT_IDX_TABLE E) (tb_remove (SUBJECT_IDX_TABLE E) (t_subject db) (ev_subject e, q)) (sb, k) \<noteq> None) =
        (\<exists>e. ((redb_view E db)(q := None)) k = Some e \<and> ev_subject e = sb)"
      using inv q by (auto simp: redb_inv_def subj.remove_law)
  next
    fix k x
    assume "((redb_view E db)(q := None)) k = Some x"
    then show "tb_get (STATUS_IDX_TABLE E) (t_status db') (as_u8 (ev_status x), k) \<noteq> None"
      using inv st by (cases "k = q") (auto simp: redb_inv_def)
  next
    fix k x
    assume "((redb_view E db)(q := None)) k = Some x" "has_failed (ev_deliveries x)"
    then show "tb_get (FAILED_DELIVERIES_IDX_TABLE E) (t_failed db') k \<noteq> None"
      using inv fd by (cases "k = q") (auto simp: redb_inv_def)
  qed simp
qed

lemma redb_get_correct:
  assumes "redb_inv E db"
  shows "(\<exists>x. redb_get E db q = Inl x) \<or> redb_get E db q = Inr (redb_view E db q)"
proof (cases "redb_get E db q")
  case (Inr r)
  then show ?thesis
    using assms
    by (auto simp: redb_get_def Let_def err_simps redb_view_def split: option.splits dest: view_decode)
qed simp

lemma redb_next_seq:
  assumes "redb_inv E db"
  shows "(case tb_last (EVENTS_TABLE E) (t_events db) of None \<Rightarrow> 0 | Some (k, _) \<Rightarrow> k) + 1
    = next_seq (redb_view E db)"
proof (cases "tb_last (EVENTS_TABLE E) (t_events db)")
  case None
  then have "dom (redb_view E db) = {}"
    using assms by (auto simp: ev.last_none view_none dom_def)
  with None show ?thesis by (simp add: next_seq_def)
next
  case (Some p)
  obtain k d where p: "p = (k, d)" by (cases p)
  note l = ev.last_some [OF Some [unfolded p]]
  have "k \<in> dom (redb_view E db)"
    using assms l(1) by (auto simp: dom_def view_none dest: view_decode)
  moreover have "Max (dom (redb_view E db)) = k"
    using l assms \<open>k \<in> dom _\<close> redb_view_wf [OF assms]
    by (intro Max_eqI) (auto simp: log_wf_def view_none dom_def)
  ultimately show ?thesis
    using Some p by (auto simp: next_seq_def)
qed

lemma next_seq_fresh:
  assumes "finite (dom m)" and "seq_room m"
  shows "m (next_seq m) = None"
proof (rule ccontr)
  assume "m (next_seq m) \<noteq> None"
  then have "next_seq m \<in> dom m" by auto
  moreover have "Max (dom m) < next_seq m" if "dom m \<noteq> {}"
  proof -
    have "Max (dom m) \<noteq> - 1"
      using assms(2) Max_in [OF assms(1) that] by (auto simp: seq_room_def)
    then have "Max (dom m) < Max (dom m) + 1" by (rule word_less_plus_1)
    with that show ?thesis unfolding next_seq_def by (simp only: if_False)
  qed
  ultimately show False
    using Max_ge [OF assms(1), of "next_seq m"] by (metis empty_iff leD)
qed

lemma redb_append_correct:
  assumes inv: "redb_inv E db" and room: "seq_room (redb_view E db)" and e: "ev_deliveries e = []"
  shows "failed (redb_append E db e now) db \<or>
    (\<exists>db'. redb_append E db e now = (Inr (next_seq (redb_view E db)), db') \<and> redb_inv E db'
       \<and> redb_view E db' = (redb_view E db)(next_seq (redb_view E db) \<mapsto>
            e\<lparr>ev_seq := next_seq (redb_view E db), ev_stored_at := now\<rparr>))"
proof -
  let ?q = "next_seq (redb_view E db)"
  let ?e = "e\<lparr>ev_seq := ?q, ev_stored_at := now\<rparr>"
  have fresh: "redb_view E db ?q = None"
    using redb_view_wf [OF inv] room by (intro next_seq_fresh) (auto simp: log_wf_def)
  have upd: "redb_inv E db' \<and> redb_view E db' = (redb_view E db)(?q \<mapsto> ?e)"
    if b: "ser_event E ?e = Inr b" and db': "db' = db\<lparr>t_events := tb_insert (EVENTS_TABLE E) (t_events db) ?q b,
      t_subject := tb_insert (SUBJECT_IDX_TABLE E) (t_subject db) (ev_subject e, ?q) (),
      t_status := tb_insert (STATUS_IDX_TABLE E) (t_status db) (as_u8 (ev_status e), ?q) ()\<rparr>" for b db'
  proof -
    have v: "redb_view E db' = (redb_view E db)(?q \<mapsto> ?e)"
      using event_roundtrip [OF b] db' by (auto simp: redb_view_def fun_eq_iff ev.insert_law)
    show ?thesis
      using inv event_roundtrip [OF b] fresh e
      unfolding redb_inv_def v
      by (auto simp: db' ev.insert_law subj.insert_law stat.insert_law deliveries_wf_def has_failed_def)
  qed
  have "failed (redb_append E db e now) db \<or> (\<exists>a db'. redb_append E db e now = (Inr a, db') \<and>
      a = ?q \<and> redb_inv E db' \<and> redb_view E db' = (redb_view E db)(?q \<mapsto> ?e))"
    unfolding redb_append_def Let_def redb_next_seq [OF inv]
    by (rule txn_rule) (auto simp: err_simps dest!: upd)
  then show ?thesis by blast
qed

lemma redb_update_correct:
  assumes inv: "redb_inv E db"
  shows "failed (redb_update_status E db q st) db \<or>
    (\<exists>db'. redb_update_status E db q st = (Inr (), db') \<and> redb_inv E db' \<and> redb_view E db q \<noteq> None
       \<and> redb_view E db' = upd_event (redb_view E db) q (\<lambda>e. e\<lparr>ev_status := st\<rparr>))"
proof -
  have upd: "redb_inv E db' \<and> redb_view E db' = (redb_view E db)(q \<mapsto> e\<lparr>ev_status := st\<rparr>)"
    if "redb_view E db q = Some e" and "ser_event E (e\<lparr>ev_status := st\<rparr>) = Inr b"
      and "db' = db\<lparr>t_events := tb_insert (EVENTS_TABLE E) (t_events db) q b,
        t_status := tb_insert (STATUS_IDX_TABLE E) (quiet_remove E op p (STATUS_IDX_TABLE E)
          (t_status db) (as_u8 (ev_status e), q)) (as_u8 st, q) ()\<rparr>" for b e db' op p
    using that inv view_some [OF inv that(1)] event_roundtrip [OF that(2)]
    by (intro inv_replace [where e = e and data = b])
      (auto simp: deliveries_wf_def stat.insert_law stat.get_quiet redb_inv_def)
  have "failed (redb_update_status E db q st) db \<or>
      (\<exists>a db'. redb_update_status E db q st = (Inr a, db') \<and> redb_inv E db' \<and> redb_view E db q \<noteq> None
       \<and> redb_view E db' = upd_event (redb_view E db) q (\<lambda>e. e\<lparr>ev_status := st\<rparr>))"
    unfolding redb_update_status_def Let_def
    by (rule txn_rule)
      (auto simp: err_simps upd_event_def dest!: read_event_cases [OF inv] dest: upd)
  then show ?thesis by simp
qed

lemma redb_record_correct:
  assumes inv: "redb_inv E db"
  shows "failed (redb_record_delivery E db q sub dst err nr now) db \<or>
    (\<exists>db'. redb_record_delivery E db q sub dst err nr now = (Inr (), db') \<and> redb_inv E db'
       \<and> redb_view E db q \<noteq> None \<and> redb_view E db' = upd_event (redb_view E db) q
          (\<lambda>e. e\<lparr>ev_deliveries := apply_delivery sub dst err nr now (ev_deliveries e)\<rparr>))"
proof -
  let ?f = "\<lambda>e. e\<lparr>ev_deliveries := apply_delivery sub dst err nr now (ev_deliveries e)\<rparr>"
  have upd: "redb_inv E db' \<and> redb_view E db' = (redb_view E db)(q \<mapsto> ?f e)"
    if "redb_view E db q = Some e" and "ser_event E (?f e) = Inr b"
      and "db' = db\<lparr>t_events := tb_insert (EVENTS_TABLE E) (t_events db) q b,
        t_failed := ft\<rparr>"
      and "ft = (if has_failed (ev_deliveries (?f e))
          then tb_insert (FAILED_DELIVERIES_IDX_TABLE E) (t_failed db) q ()
          else quiet_remove E ''record_delivery'' (At 7) (FAILED_DELIVERIES_IDX_TABLE E) (t_failed db) q)"
    for b e db' ft
    using that inv view_some [OF inv that(1)] event_roundtrip [OF that(2)]
    by (intro inv_replace [where e = e and data = b])
      (auto simp: deliveries_wf_def apply_delivery_distinct fl.insert_law fl.get_quiet redb_inv_def)
  have "failed (redb_record_delivery E db q sub dst err nr now) db \<or>
      (\<exists>a db'. redb_record_delivery E db q sub dst err nr now = (Inr a, db') \<and> redb_inv E db'
       \<and> redb_view E db q \<noteq> None \<and> redb_view E db' = upd_event (redb_view E db) q ?f)"
    unfolding redb_record_delivery_def Let_def
    by (rule txn_rule)
      (auto simp only: err_simps upd_event_def stored_event.simps prod.inject sum.inject
        option.case option.distinct
        dest!: read_event_cases [OF inv] if_io_InrD dest: upd [OF _ _ refl refl])
  then show ?thesis by simp
qed

lemma redb_requeue_correct:
  assumes inv: "redb_inv E db"
  shows "failed (redb_requeue_dead_lettered E db q) db \<or>
    (\<exists>db' e. redb_view E db q = Some e \<and> ev_status e = EvDeadLettered
       \<and> redb_requeue_dead_lettered E db q = (Inr (e\<lparr>ev_status := EvPending, ev_deliveries := []\<rparr>), db')
       \<and> redb_inv E db' \<and> redb_view E db' = (redb_view E db)(q \<mapsto> e\<lparr>ev_status := EvPending, ev_deliveries := []\<rparr>))"
proof -
  let ?f = "\<lambda>e. e\<lparr>ev_status := EvPending, ev_deliveries := []\<rparr>"
  have upd: "redb_inv E db' \<and> redb_view E db' = (redb_view E db)(q \<mapsto> ?f e)"
    if "redb_view E db q = Some e" and "ser_event E (?f e) = Inr b"
      and "db' = db\<lparr>t_events := tb_insert (EVENTS_TABLE E) (t_events db) q b,
        t_status := tb_insert (STATUS_IDX_TABLE E) (quiet_remove E op p (STATUS_IDX_TABLE E)
          (t_status db) (c, q)) (0, q) (),
        t_failed := quiet_remove E op' p' (FAILED_DELIVERIES_IDX_TABLE E) (t_failed db) q\<rparr>"
      for b e db' op p op' p' c
    using that inv view_some [OF inv that(1)] event_roundtrip [OF that(2)]
    by (intro inv_replace [where e = e and data = b])
      (auto simp: deliveries_wf_def stat.insert_law stat.get_quiet fl.get_quiet has_failed_def redb_inv_def)
  have "failed (redb_requeue_dead_lettered E db q) db \<or>
      (\<exists>a db'. redb_requeue_dead_lettered E db q = (Inr a, db') \<and>
       (\<exists>e. redb_view E db q = Some e \<and> ev_status e = EvDeadLettered \<and> a = ?f e
       \<and> redb_inv E db' \<and> redb_view E db' = (redb_view E db)(q \<mapsto> ?f e)))"
    unfolding redb_requeue_dead_lettered_def Let_def
    by (rule txn_rule)
      (auto simp: err_simps split: if_splits dest!: read_event_cases [OF inv] dest: upd)
  then show ?thesis by blast
qed

lemma redb_purge_correct:
  assumes inv: "redb_inv E db"
  shows "failed (redb_purge_dead_lettered E db q) db \<or>
    (\<exists>db' e. redb_view E db q = Some e \<and> ev_status e = EvDeadLettered
       \<and> redb_purge_dead_lettered E db q = (Inr (), db') \<and> redb_inv E db'
       \<and> redb_view E db' = (redb_view E db)(q := None))"
proof -
  have upd: "redb_inv E db' \<and> redb_view E db' = (redb_view E db)(q := None)"
    if "redb_view E db q = Some e"
      and "db' = db\<lparr>t_events := tb_remove (EVENTS_TABLE E) (t_events db) q,
        t_subject := tb_remove (SUBJECT_IDX_TABLE E) (t_subject db) (ev_subject e, q),
        t_status := quiet_remove E op p (STATUS_IDX_TABLE E) (t_status db) (c, q),
        t_failed := quiet_remove E op' p' (FAILED_DELIVERIES_IDX_TABLE E) (t_failed db) q\<rparr>"
      for e db' op p op' p' c
    using that inv
    by (intro inv_delete [where e = e]) (auto simp: stat.get_quiet fl.get_quiet)
  have q: "quiet_remove E ''purge_dead_lettered'' (At 0) T t k = tb_remove T t k"
    "quiet_remove E ''purge_dead_lettered'' (At 1) T' t' k' = tb_remove T' t' k'" for T t k T' t' k'
    using purge_rows by (simp_all add: quiet_remove_def)
  have "failed (redb_purge_dead_lettered E db q) db \<or>
      (\<exists>a db'. redb_purge_dead_lettered E db q = (Inr a, db') \<and>
       (\<exists>e. redb_view E db q = Some e \<and> ev_status e = EvDeadLettered
       \<and> redb_inv E db' \<and> redb_view E db' = (redb_view E db)(q := None)))"
    unfolding redb_purge_dead_lettered_def Let_def q
    by (rule txn_rule)
      (auto simp: err_simps split: if_splits dest!: read_event_cases [OF inv] dest: upd)
  then show ?thesis by auto
qed

lemma fetch_event_view:
  "redb_inv E db \<Longrightarrow> fetch_event E db op i q = Inr r \<Longrightarrow> r = redb_view E db q"
  by (auto simp: fetch_event_def err_simps redb_view_def split: option.splits dest: view_decode)

lemma status_loop_result:
  assumes inv: "redb_inv E db"
  shows "status_loop E db st limit i items results = Inr es \<Longrightarrow> length results \<le> limit \<Longrightarrow>
   es = results @ take (limit - length results)
     (filter (\<lambda>e. ev_status e = st) (List.map_filter (redb_view E db)
        (map (snd \<circ> fst) (takeWhile (\<lambda>p. fst (fst p) = as_u8 st) items))))"
proof (induction items arbitrary: i results)
  case (Cons p items)
  obtain c q u where p: "p = ((c, q), u)" by (metis prod.exhaust)
  show ?case
  proof (cases "c = as_u8 st \<and> length results < limit")
    case False
    with Cons.prems p show ?thesis by (auto simp: err_simps split: if_splits)
  next
    case True
    let ?r = "case redb_view E db q of None \<Rightarrow> results
      | Some e \<Rightarrow> if ev_status e = st then results @ [e] else results"
    have "status_loop E db st limit (Suc i) items ?r = Inr es"
      using Cons.prems(1) True p by (auto simp: err_simps dest!: fetch_event_view [OF inv])
    then show ?thesis
      using Cons.IH [of "Suc i" ?r] True p
      by (auto simp: map_filter_simps Suc_diff_Suc [symmetric] split: option.splits if_splits)
  qed
qed (simp add: map_filter_simps)

lemma subject_loop_result:
  assumes inv: "redb_inv E db"
  shows "subject_loop E db sb limit i items results = Inr es \<Longrightarrow> length results \<le> limit \<Longrightarrow>
   es = results @ take (limit - length results) (List.map_filter (redb_view E db)
        (map (snd \<circ> fst) (takeWhile (\<lambda>p. fst (fst p) = sb) items)))"
proof (induction items arbitrary: i results)
  case (Cons p items)
  obtain c q u where p: "p = ((c, q), u)" by (metis prod.exhaust)
  show ?case
  proof (cases "c = sb \<and> length results < limit")
    case False
    with Cons.prems p show ?thesis by (auto simp: err_simps split: if_splits)
  next
    case True
    let ?r = "case redb_view E db q of None \<Rightarrow> results | Some e \<Rightarrow> results @ [e]"
    have "subject_loop E db sb limit (Suc i) items ?r = Inr es"
      using Cons.prems(1) True p by (auto simp: err_simps dest!: fetch_event_view [OF inv])
    then show ?thesis
      using Cons.IH [of "Suc i" ?r] True p
      by (auto simp: map_filter_simps Suc_diff_Suc [symmetric] split: option.splits)
  qed
qed (simp add: map_filter_simps)

lemma retryable_loop_result:
  assumes inv: "redb_inv E db"
  shows "retryable_loop E db mx now i items results = Inr rs \<Longrightarrow>
   rs = results @ concat (map (retryables_of mx now) (List.map_filter (redb_view E db) (map fst items)))"
proof (induction items arbitrary: i results)
  case (Cons p items)
  obtain q u where p: "p = (q, u)" by (cases p)
  let ?r = "case redb_view E db q of None \<Rightarrow> results | Some e \<Rightarrow> results @ retryables_of mx now e"
  have "retryable_loop E db mx now (Suc i) items ?r = Inr rs"
    using Cons.prems(1) p by (auto simp: err_simps dest!: fetch_event_view [OF inv])
  then show ?case
    using Cons.IH [of "Suc i" ?r] p by (auto simp: map_filter_simps split: option.splits)
qed (simp add: map_filter_simps)

lemma count_loop_result:
  assumes inv: "redb_inv E db"
  shows "count_loop E db mx now i items n = Inr c \<Longrightarrow>
   c = n + of_nat (length (concat (map (retryables_of mx now) (List.map_filter (redb_view E db) (map fst items)))))"
proof (induction items arbitrary: i n)
  case (Cons p items)
  obtain q u where p: "p = (q, u)" by (cases p)
  let ?r = "case redb_view E db q of None \<Rightarrow> n
    | Some e \<Rightarrow> count_retryable_deliveries mx now (ev_deliveries e) n"
  have "count_loop E db mx now (Suc i) items ?r = Inr c"
    using Cons.prems(1) p by (auto simp: err_simps dest!: fetch_event_view [OF inv])
  then show ?case
    using Cons.IH [of "Suc i" ?r] p
    by (auto simp: map_filter_simps count_retryable_deliveries_eq retryables_of_def split: option.splits)
qed (simp add: map_filter_simps)

lemma hits_sorted:
  assumes "redb_inv E db" and "sorted_wrt (<) qs"
  shows "sorted_wrt (<) (map ev_seq (List.map_filter (redb_view E db) qs))"
proof -
  have "map ev_seq (List.map_filter (redb_view E db) qs) = filter (\<lambda>q. redb_view E db q \<noteq> None) qs"
    using view_some [OF assms(1)] by (induction qs) (auto simp: map_filter_simps split: option.splits)
  then show ?thesis
    using assms(2) by (simp add: sorted_wrt_filter)
qed

lemma set_hits: "set (List.map_filter (redb_view E db) qs) = {e. \<exists>q \<in> set qs. redb_view E db q = Some e}"
  by (induction qs) (auto simp: map_filter_simps split: option.splits)

lemma listing_sorted: "redb_inv E db \<Longrightarrow> sorted_wrt (<) (map ev_seq (listing (redb_view E db)))"
  by (rule listing_strict [OF redb_view_wf])

lemma set_listing_view: "redb_inv E db \<Longrightarrow> set (listing (redb_view E db)) = ran (redb_view E db)"
  by (rule set_listing [OF redb_view_wf])

lemma by_status_correct:
  assumes inv: "redb_inv E db" and r: "redb_query_by_status E db st n = Inr es"
  shows "es = take n (filter (\<lambda>e. ev_status e = st) (listing (redb_view E db)))"
proof -
  define qs where "qs = map (snd \<circ> fst) (filter (\<lambda>p. fst (fst p) = as_u8 st \<and> 0 \<le> snd (fst p))
    (tb_iter (STATUS_IDX_TABLE E) (t_status db)))"
  let ?h = "filter (\<lambda>e. ev_status e = st) (List.map_filter (redb_view E db) qs)"
  have "es = take n ?h"
    using r status_loop_result [OF inv, of st n 0
        "filter (\<lambda>p. (as_u8 st, 0) \<le> fst p) (tb_iter (STATUS_IDX_TABLE E) (t_status db))" "[]" es]
    by (simp add: qs_def redb_query_by_status_def Let_def err_simps stat.range_law range_prefix stat.iter_sorted)
  moreover have "?h = filter (\<lambda>e. ev_status e = st) (listing (redb_view E db))"
  proof (rule seq_list_unique)
    show "sorted_wrt (<) (map ev_seq ?h)"
      unfolding qs_def by (intro seq_sorted_filter hits_sorted [OF inv] range_seqs_sorted stat.iter_sorted)
    show "sorted_wrt (<) (map ev_seq (filter (\<lambda>e. ev_status e = st) (listing (redb_view E db))))"
      by (intro seq_sorted_filter listing_sorted inv)
    have "q \<in> set qs" if "redb_view E db q = Some e" "ev_status e = st" for q e
    proof -
      have "tb_get (STATUS_IDX_TABLE E) (t_status db) (as_u8 st, q) = Some ()"
        using inv that by (auto simp: redb_inv_def)
      then have "((as_u8 st, q), ()) \<in> set (tb_iter (STATUS_IDX_TABLE E) (t_status db))"
        by (simp add: stat.iter_mem)
      then show ?thesis by (force simp: qs_def image_iff)
    qed
    then show "set ?h = set (filter (\<lambda>e. ev_status e = st) (listing (redb_view E db)))"
      by (auto simp: set_hits set_listing_view [OF inv] ran_def)
  qed
  ultimately show ?thesis by simp
qed

lemma by_subject_correct:
  assumes inv: "redb_inv E db" and r: "redb_query_by_subject E db sb since n = Inr es"
  shows "es = take n (filter (\<lambda>e. ev_subject e = sb
           \<and> (case since of None \<Rightarrow> True | Some k \<Rightarrow> k \<le> ev_seq e)) (listing (redb_view E db)))"
proof -
  let ?lo = "case since of None \<Rightarrow> 0 | Some k \<Rightarrow> k"
  let ?P = "\<lambda>e. ev_subject e = sb \<and> (case since of None \<Rightarrow> True | Some k \<Rightarrow> k \<le> ev_seq e)"
  define qs where "qs = map (snd \<circ> fst) (filter (\<lambda>p. fst (fst p) = sb \<and> ?lo \<le> snd (fst p))
    (tb_iter (SUBJECT_IDX_TABLE E) (t_subject db)))"
  let ?h = "List.map_filter (redb_view E db) qs"
  have "es = take n ?h"
    using r subject_loop_result [OF inv, of sb n 0
        "filter (\<lambda>p. (sb, ?lo) \<le> fst p) (tb_iter (SUBJECT_IDX_TABLE E) (t_subject db))" "[]" es]
    by (simp add: qs_def redb_query_by_subject_def Let_def err_simps subj.range_law range_prefix subj.iter_sorted)
  moreover have "?h = filter ?P (listing (redb_view E db))"
  proof (rule seq_list_unique)
    show "sorted_wrt (<) (map ev_seq ?h)"
      unfolding qs_def by (intro hits_sorted [OF inv] range_seqs_sorted subj.iter_sorted)
    show "sorted_wrt (<) (map ev_seq (filter ?P (listing (redb_view E db))))"
      by (intro seq_sorted_filter listing_sorted inv)
    have "q \<in> set qs \<longleftrightarrow> (\<exists>e. redb_view E db q = Some e \<and> ev_subject e = sb) \<and> ?lo \<le> q" for q
    proof -
      have "q \<in> set qs \<longleftrightarrow> ((sb, q), ()) \<in> set (tb_iter (SUBJECT_IDX_TABLE E) (t_subject db)) \<and> ?lo \<le> q"
        by (force simp: qs_def image_iff)
      then show ?thesis
        using inv by (auto simp: subj.iter_mem redb_inv_def)
    qed
    then have "e \<in> set ?h \<longleftrightarrow> (\<exists>q. redb_view E db q = Some e \<and> ev_subject e = sb \<and> ?lo \<le> q)" for e
      unfolding set_hits mem_Collect_eq by (metis option.inject)
    moreover have "(\<exists>q. redb_view E db q = Some e \<and> ev_subject e = sb \<and> ?lo \<le> q) \<longleftrightarrow>
        (\<exists>q. redb_view E db q = Some e) \<and> ?P e" for e
      using view_some [OF inv] by (cases since) auto
    ultimately show "set ?h = set (filter ?P (listing (redb_view E db)))"
      by (simp add: set_eq_iff set_listing_view [OF inv] ran_def)
  qed
  ultimately show ?thesis by simp
qed

lemma failed_hits:
  assumes inv: "redb_inv E db"
  shows "concat (map (retryables_of mx now) (List.map_filter (redb_view E db)
      (map fst (tb_iter (FAILED_DELIVERIES_IDX_TABLE E) (t_failed db))))) = retryable_rows mx now (redb_view E db)"
proof -
  let ?K = "{k. tb_get (FAILED_DELIVERIES_IDX_TABLE E) (t_failed db) k \<noteq> None}"
  let ?h = "List.map_filter (redb_view E db) (map fst (tb_iter (FAILED_DELIVERIES_IDX_TABLE E) (t_failed db)))"
  have "?h = filter (\<lambda>e. ev_seq e \<in> ?K) (listing (redb_view E db))"
  proof (rule seq_list_unique)
    show "sorted_wrt (<) (map ev_seq ?h)"
      using hits_sorted [OF inv fl.iter_sorted] .
    show "sorted_wrt (<) (map ev_seq (filter (\<lambda>e. ev_seq e \<in> ?K) (listing (redb_view E db))))"
      by (intro seq_sorted_filter listing_sorted inv)
    show "set ?h = set (filter (\<lambda>e. ev_seq e \<in> ?K) (listing (redb_view E db)))"
      using view_some [OF inv] unfolding set_hits fl.iter_keys
      by (fastforce simp: set_listing_view [OF inv] ran_def)
  qed
  moreover have "retryables_of mx now e = []" if "e \<in> set (listing (redb_view E db))" "ev_seq e \<notin> ?K" for e
    using that inv view_some [OF inv] retryables_not_failed
    by (fastforce simp: set_listing_view [OF inv] ran_def redb_inv_def)
  then have "concat (map (retryables_of mx now) (filter (\<lambda>e. ev_seq e \<in> ?K) (listing (redb_view E db))))
      = concat (map (retryables_of mx now) (listing (redb_view E db)))"
    by (rule concat_map_filter_irrelevant)
  ultimately show ?thesis
    unfolding retryable_rows_def by (simp only:)
qed

lemma compact_scan_result:
  "compact_scan E th i rows items = Inr out \<Longrightarrow>
     out = items @ map (\<lambda>p. (fst p, ev_subject (snd p), as_u8 (ev_status (snd p))))
       (filter (\<lambda>p. compactable th (snd p)) (map (\<lambda>p. (fst p, projr (de_event E (snd p)))) rows))"
proof (induction rows arbitrary: i items)
  case (Cons p rows)
  obtain q data where p: "p = (q, data)" by (cases p)
  obtain x where x: "de_event E data = Inr x" and "compact_scan E th (Suc i) rows
      (if compactable th x then items @ [(q, ev_subject x, as_u8 (ev_status x))] else items) = Inr out"
    using Cons.prems p by (auto simp: err_simps)
  from Cons.IH [OF this(2)] x p show ?case by (simp split: if_splits)
qed simp

lemma rows_listing:
  assumes inv: "redb_inv E db"
  shows "map (\<lambda>p. (fst p, projr (de_event E (snd p)))) (tb_iter (EVENTS_TABLE E) (t_events db))
    = map (\<lambda>e. (ev_seq e, e)) (listing (redb_view E db))"
proof -
  have dec: "redb_view E db q = Some (projr (de_event E d)) \<and> ev_seq (projr (de_event E d)) = q"
    if "(q, d) \<in> set (tb_iter (EVENTS_TABLE E) (t_events db))" for q d
    using that view_decode [OF inv, of q d] by (auto simp: ev.iter_mem)
  have "sorted_list_of_set (dom (redb_view E db)) = map fst (tb_iter (EVENTS_TABLE E) (t_events db))"
    unfolding dom_view [OF inv] using ev.iter_sorted [of "t_events db"]
    by (simp only: sorted_list_of_set.idem_if_sorted_distinct strict_sorted_iff)
  then have "map (\<lambda>e. (ev_seq e, e)) (listing (redb_view E db)) =
      map (\<lambda>p. (ev_seq (the (redb_view E db (fst p))), the (redb_view E db (fst p)))) (tb_iter (EVENTS_TABLE E) (t_events db))"
    by (simp add: listing_def)
  also have "\<dots> = map (\<lambda>p. (fst p, projr (de_event E (snd p)))) (tb_iter (EVENTS_TABLE E) (t_events db))"
    using dec by auto
  finally show ?thesis by simp
qed

lemma compact_delete_result:
  "redb_inv E db \<Longrightarrow> distinct (map fst items) \<Longrightarrow>
   (\<And>q sb c. (q, sb, c) \<in> set items \<Longrightarrow> \<exists>e. redb_view E db q = Some e \<and> ev_subject e = sb) \<Longrightarrow>
   redb_inv E (compact_delete E i items db)
   \<and> redb_view E (compact_delete E i items db)
      = (\<lambda>q. if q \<in> set (map fst items) then None else redb_view E db q)"
proof (induction items arbitrary: i db)
  case (Cons p items)
  obtain q sb c where p: "p = (q, sb, c)" by (metis prod.exhaust)
  obtain e where e: "redb_view E db q = Some e" "ev_subject e = sb"
    using Cons.prems(3) [of q sb c] p by auto
  let ?db = "db\<lparr>t_events := quiet_remove E ''compact'' (InLoop i 0) (EVENTS_TABLE E) (t_events db) q,
           t_subject := quiet_remove E ''compact'' (InLoop i 1) (SUBJECT_IDX_TABLE E) (t_subject db) (sb, q),
           t_status := quiet_remove E ''compact'' (InLoop i 2) (STATUS_IDX_TABLE E) (t_status db) (c, q),
           t_failed := quiet_remove E ''compact'' (InLoop i 3) (FAILED_DELIVERIES_IDX_TABLE E) (t_failed db) q\<rparr>"
  have db: "redb_inv E ?db \<and> redb_view E ?db = (redb_view E db)(q := None)"
  proof (rule inv_delete [OF Cons.prems(1) e(1)])
    show "t_events ?db = tb_remove (EVENTS_TABLE E) (t_events db) q"
      and "t_subject ?db = tb_remove (SUBJECT_IDX_TABLE E) (t_subject db) (ev_subject e, q)"
      using compact_rows [of i] by (simp_all add: quiet_remove_def e(2))
  qed (auto simp: stat.get_quiet fl.get_quiet)
  have "redb_inv E (compact_delete E (Suc i) items ?db) \<and> redb_view E (compact_delete E (Suc i) items ?db)
      = (\<lambda>k. if k \<in> set (map fst items) then None else redb_view E ?db k)"
  proof (rule Cons.IH)
    fix k s d
    assume m: "(k, s, d) \<in> set items"
    then have "k \<noteq> q"
      using Cons.prems(2) p by (force simp: image_iff)
    then show "\<exists>e. redb_view E ?db k = Some e \<and> ev_subject e = s"
      using Cons.prems(3) m db by auto
  qed (use db Cons.prems(2) in auto)
  then show ?case
    using db p by (auto simp: fun_eq_iff)
qed simp

lemma redb_compact_correct:
  assumes inv: "redb_inv E db"
  shows "failed (redb_compact E db older now) db \<or>
    (\<exists>db'. redb_compact E db older now =
         (Inr (of_nat (length (filter (compactable (compact_threshold older now)) (listing (redb_view E db))))), db')
       \<and> redb_inv E db' \<and> redb_view E db' = log_compact (compact_threshold older now) (redb_view E db))"
proof -
  let ?P = "compactable (compact_threshold older now)"
  let ?v = "redb_view E db"
  define out where "out = map (\<lambda>e. (ev_seq e, ev_subject e, as_u8 (ev_status e))) (filter ?P (listing ?v))"
  have scan: "compact_scan E (compact_threshold older now) i (tb_iter (EVENTS_TABLE E) (t_events db)) [] = Inr x
      \<Longrightarrow> x = out" for i x
    using compact_scan_result [of "compact_threshold older now" i "tb_iter (EVENTS_TABLE E) (t_events db)" "[]" x]
    by (simp add: rows_listing [OF inv] out_def filter_map comp_def)
  have fsts: "map fst out = map ev_seq (filter ?P (listing ?v))"
    by (simp add: out_def)
  have mem: "q \<in> set (map fst out) \<longleftrightarrow> (\<exists>e. ?v q = Some e \<and> ?P e)" for q
    unfolding fsts using view_some [OF inv] by (auto simp: set_listing_view [OF inv] ran_def image_iff)
  have lc: "log_compact (compact_threshold older now) ?v = (\<lambda>q. if q \<in> set (map fst out) then None else ?v q)"
    unfolding mem log_compact_def by (auto simp: fun_eq_iff split: option.splits)
  have del: "redb_inv E (compact_delete E i out db) \<and> redb_view E (compact_delete E i out db)
      = log_compact (compact_threshold older now) ?v" for i
    unfolding lc
  proof (rule compact_delete_result [OF inv])
    show "distinct (map fst out)"
      unfolding fsts by (rule sorted_wrt_less_distinct [OF seq_sorted_filter [OF listing_sorted [OF inv]]])
    fix q sb c
    assume "(q, sb, c) \<in> set out"
    then show "\<exists>e. ?v q = Some e \<and> ev_subject e = sb"
      using view_some [OF inv] by (auto simp: out_def set_listing_view [OF inv] ran_def)
  qed
  have len: "length out = length (filter ?P (listing ?v))"
    by (simp add: out_def)
  have nil: "out = [] \<Longrightarrow> log_compact (compact_threshold older now) ?v = ?v"
    unfolding lc by simp
  have "failed (redb_compact E db older now) db \<or>
    (\<exists>a db'. redb_compact E db older now = (Inr a, db') \<and> a = of_nat (length out)
       \<and> redb_inv E db' \<and> redb_view E db' = log_compact (compact_threshold older now) ?v)"
    unfolding redb_compact_def Let_def
    by (rule txn_rule) (auto simp: err_simps inv nil del split: if_splits dest!: scan)
  then show ?thesis unfolding len by blast
qed

end

sublocale redb_store < es: event_store "redb_ops E" "redb_view E" "redb_inv E"
proof
  fix db q
  assume inv: "redb_inv E db"
  show "log_wf (redb_view E db)" using inv by (rule redb_view_wf)
  show "(\<exists>x. st_get (redb_ops E) db q = Inl x) \<or> st_get (redb_ops E) db q = Inr (redb_view E db q)"
    using redb_get_correct [OF inv] by (simp add: redb_ops_def)
  fix st sub dst err nr now
  show "failed (st_update_status (redb_ops E) db q st) db \<or>
      (\<exists>db'. st_update_status (redb_ops E) db q st = (Inr (), db') \<and> redb_inv E db' \<and> redb_view E db q \<noteq> None
         \<and> redb_view E db' = upd_event (redb_view E db) q (\<lambda>e. e\<lparr>ev_status := st\<rparr>))"
    using redb_update_correct [OF inv, of q st] by (simp add: redb_ops_def)
  show "failed (st_record_delivery (redb_ops E) db q sub dst err nr now) db \<or>
      (\<exists>db'. st_record_delivery (redb_ops E) db q sub dst err nr now = (Inr (), db') \<and> redb_inv E db'
         \<and> redb_view E db q \<noteq> None \<and> redb_view E db' = upd_event (redb_view E db) q
              (\<lambda>e. e\<lparr>ev_deliveries := apply_delivery sub dst err nr now (ev_deliveries e)\<rparr>))"
    using redb_record_correct [OF inv, of q sub dst err nr now] by (simp add: redb_ops_def)
  fix mx n rs c
  show "st_query_retryable (redb_ops E) db mx n now = Inr rs \<Longrightarrow>
      rs = take n (sort_key retry_key (retryable_rows mx now (redb_view E db)))"
    by (auto simp: redb_ops_def redb_query_retryable_def Let_def err_simps failed_hits [OF inv]
        dest!: retryable_loop_result [OF inv])
  show "st_count_retryable (redb_ops E) db mx now = Inr c \<Longrightarrow>
      c = of_nat (length (retryable_rows mx now (redb_view E db)))"
    by (auto simp: redb_ops_def redb_count_retryable_def Let_def err_simps failed_hits [OF inv]
        dest!: count_loop_result [OF inv])
qed (simp_all add: redb_ops_def redb_append_correct redb_update_correct redb_record_correct
    redb_requeue_correct redb_purge_correct redb_compact_correct by_status_correct by_subject_correct)

text \<open>Without faults, and when every event can be serialised, the operations fail only where the
  trait says so.\<close>

locale redb_faultless = redb_store +
  assumes no_fault [simp]: "fault E op p = None"
    and ser_total: "\<exists>b. ser_event E e = Inr b"
begin

lemma db_io_ok [simp]: "db_io E op p msg = Inr ()"
  by (simp add: db_io_def)

lemma joined_ok [simp]: "joined E op msg r = r"
  by (simp add: joined_def)

lemma write_txn_ok: "write_txn E op msg db r = (case r of Inl x \<Rightarrow> (Inl x, db) | Inr (a, db') \<Rightarrow> (Inr a, db'))"
  by (simp add: write_txn_def)

lemma serde_ser: "\<exists>b. serde msg (ser_event E e) = Inr b"
  using ser_total by (simp add: serde_Inr)

lemma read_event_ok: "redb_inv E db \<Longrightarrow> redb_view E db q = Some e \<Longrightarrow> read_event E db op q = Inr e"
  by (auto simp: read_event_def serde_def dest: view_some)

lemma fetch_event_ok: "redb_inv E db \<Longrightarrow> fetch_event E db op i q = Inr (redb_view E db q)"
  by (cases "tb_get (EVENTS_TABLE E) (t_events db) q")
    (auto simp: fetch_event_def serde_def dest: view_decode view_none [THEN iffD2])

lemma status_loop_ok: "redb_inv E db \<Longrightarrow> \<exists>es. status_loop E db st n i items results = Inr es"
  by (induction items arbitrary: i results) (auto simp: fetch_event_ok split: option.splits)

lemma subject_loop_ok: "redb_inv E db \<Longrightarrow> \<exists>es. subject_loop E db sb n i items results = Inr es"
  by (induction items arbitrary: i results) (auto simp: fetch_event_ok split: option.splits)

lemma retryable_loop_ok: "redb_inv E db \<Longrightarrow> \<exists>rs. retryable_loop E db mx now i items results = Inr rs"
  by (induction items arbitrary: i results) (auto simp: fetch_event_ok)

lemma count_loop_ok: "redb_inv E db \<Longrightarrow> \<exists>c. count_loop E db mx now i items n = Inr c"
  by (induction items arbitrary: i n) (auto simp: fetch_event_ok)

lemma compact_scan_ok:
  assumes "redb_inv E db" and "set rows \<subseteq> set (tb_iter (EVENTS_TABLE E) (t_events db))"
  shows "\<exists>out. compact_scan E th i rows items = Inr out"
  using assms(2)
proof (induction rows arbitrary: i items)
  case (Cons p rows)
  then obtain e where "de_event E (snd p) = Inr e"
    using view_decode [OF assms(1), of "fst p" "snd p"] by (auto simp: ev.iter_mem [symmetric])
  with Cons show ?case by (cases p) (simp add: serde_def)
qed simp

end

sublocale redb_faultless < rel: reliable_store "redb_ops E" "redb_view E" "redb_inv E"
proof
  fix db q
  assume inv: "redb_inv E db"
  show "st_get (redb_ops E) db q = Inr (redb_view E db q)"
    using inv by (cases "tb_get (EVENTS_TABLE E) (t_events db) q")
      (auto simp: redb_ops_def redb_get_def Let_def serde_def dest: view_decode view_none [THEN iffD2])
  fix e :: stored_event and now st sub dst err nr older
  obtain bs where bs: "\<And>x. ser_event E x = Inr (bs x)"
    using ser_total by metis
  show "\<not> failed (st_append (redb_ops E) db e now) db"
    by (auto simp: redb_ops_def redb_append_def failed_def write_txn_ok bs serde_def Let_def)
  show "redb_view E db q \<noteq> None \<Longrightarrow> \<not> failed (st_update_status (redb_ops E) db q st) db"
    using read_event_ok [OF inv]
    by (auto simp: redb_ops_def redb_update_status_def failed_def write_txn_ok bs serde_def Let_def)
  show "redb_view E db q \<noteq> None \<Longrightarrow> \<not> failed (st_record_delivery (redb_ops E) db q sub dst err nr now) db"
    using read_event_ok [OF inv]
    by (auto simp: redb_ops_def redb_record_delivery_def failed_def write_txn_ok bs serde_def Let_def
        split: if_splits)
  show "redb_view E db q = Some e \<Longrightarrow> ev_status e = EvDeadLettered
      \<Longrightarrow> \<not> failed (st_requeue_dead_lettered (redb_ops E) db q) db"
    using read_event_ok [OF inv]
    by (auto simp: redb_ops_def redb_requeue_dead_lettered_def failed_def write_txn_ok bs serde_def Let_def)
  show "redb_view E db q = Some e \<Longrightarrow> ev_status e = EvDeadLettered
      \<Longrightarrow> \<not> failed (st_purge_dead_lettered (redb_ops E) db q) db"
    using read_event_ok [OF inv]
    by (auto simp: redb_ops_def redb_purge_dead_lettered_def failed_def write_txn_ok Let_def)
  show "\<not> failed (st_compact (redb_ops E) db older now) db"
    using compact_scan_ok [OF inv order_refl, of "compact_threshold older now" 0 "[]"]
    by (auto simp: redb_ops_def redb_compact_def failed_def write_txn_ok Let_def split: if_splits)
  fix mx n sb since
  show "\<exists>rs. st_query_retryable (redb_ops E) db mx n now = Inr rs"
    using retryable_loop_ok [OF inv] by (force simp: redb_ops_def redb_query_retryable_def err_simps Let_def)
  show "\<exists>es. st_query_by_status (redb_ops E) db st n = Inr es"
    using status_loop_ok [OF inv] by (simp add: redb_ops_def redb_query_by_status_def Let_def)
  show "\<exists>es. st_query_by_subject (redb_ops E) db sb since n = Inr es"
    using subject_loop_ok [OF inv] by (simp add: redb_ops_def redb_query_by_subject_def Let_def)
  show "\<exists>c. st_count_retryable (redb_ops E) db mx now = Inr c"
    using count_loop_ok [OF inv] by (simp add: redb_ops_def redb_count_retryable_def Let_def)
qed

section \<open>Ordered tables\<close>

text \<open>Red-black trees meet the laws of a table, so the hypotheses on redb can be met.\<close>

definition rbt_table :: "(('k::linorder, 'v) RBT.rbt, 'k, 'v) table_ops" where
  "rbt_table =
     \<lparr>tb_get = RBT.lookup, tb_insert = (\<lambda>t k v. RBT.insert k v t), tb_remove = (\<lambda>t k. RBT.delete k t),
      tb_iter = RBT.entries, tb_range_from = (\<lambda>t k. filter (\<lambda>p. k \<le> fst p) (RBT.entries t)),
      tb_last = (\<lambda>t. if RBT.entries t = [] then None else Some (last (RBT.entries t)))\<rparr>"

interpretation rbt: redb_table rbt_table
proof
  fix t :: "('a::linorder, 'b) RBT.rbt" and k j :: 'a and v :: 'b
  show "sorted_wrt (<) (map fst (tb_iter rbt_table t))"
    by (simp add: rbt_table_def strict_sorted_iff RBT.sorted_entries RBT.distinct_entries)
  show "tb_get rbt_table t k = map_of (tb_iter rbt_table t) k"
    by (simp add: rbt_table_def RBT.map_of_entries)
qed (simp_all add: rbt_table_def)

end
