(* ===== verification/Codec.thy ===== *)
theory Codec
  imports Storage_Types
begin

text \<open>
  A byte encoding with a decoder for the stored types: a concrete instance of the serialiser that
  the durable stores take as a parameter. A codec is a pair of functions, and it is sound when
  the decoder returns the encoded value and the rest of the input.
\<close>

type_synonym 'a encoder = "'a \<Rightarrow> bytes"
type_synonym 'a decoder = "bytes \<Rightarrow> ('a \<times> bytes) option"

definition sound :: "'a encoder \<Rightarrow> 'a decoder \<Rightarrow> bool" where
  "sound f g \<longleftrightarrow> (\<forall>x r. g (f x @ r) = Some (x, r))"

definition enc_nat :: "nat encoder" where
  "enc_nat n = replicate n 1 @ [0]"

fun dec_nat :: "nat decoder" where
  "dec_nat [] = None"
| "dec_nat (b # bs) =
     (if b = 0 then Some (0, bs) else map_option (\<lambda>(n, r). (Suc n, r)) (dec_nat bs))"

definition enc_pair :: "'a encoder \<Rightarrow> 'b encoder \<Rightarrow> ('a \<times> 'b) encoder" where
  "enc_pair f g p = f (fst p) @ g (snd p)"

definition dec_pair :: "'a decoder \<Rightarrow> 'b decoder \<Rightarrow> ('a \<times> 'b) decoder" where
  "dec_pair f g bs =
     Option.bind (f bs) (\<lambda>(x, r). map_option (\<lambda>(y, r'). ((x, y), r')) (g r))"

fun dec_times :: "'a decoder \<Rightarrow> nat \<Rightarrow> 'a list decoder" where
  "dec_times g 0 bs = Some ([], bs)"
| "dec_times g (Suc n) bs =
     Option.bind (g bs) (\<lambda>(x, r). map_option (\<lambda>(xs, r'). (x # xs, r')) (dec_times g n r))"

definition enc_list :: "'a encoder \<Rightarrow> 'a list encoder" where
  "enc_list f xs = enc_nat (length xs) @ concat (map f xs)"

definition dec_list :: "'a decoder \<Rightarrow> 'a list decoder" where
  "dec_list g bs = Option.bind (dec_nat bs) (\<lambda>(n, r). dec_times g n r)"

definition enc_via :: "('a \<Rightarrow> 'b) \<Rightarrow> 'b encoder \<Rightarrow> 'a encoder" where
  "enc_via to f x = f (to x)"

definition dec_via :: "('b \<Rightarrow> 'a) \<Rightarrow> 'b decoder \<Rightarrow> 'a decoder" where
  "dec_via from g bs = map_option (\<lambda>(x, r). (from x, r)) (g bs)"

fun enc_option :: "'a encoder \<Rightarrow> 'a option encoder" where
  "enc_option f None = [0]"
| "enc_option f (Some x) = 1 # f x"

fun dec_option :: "'a decoder \<Rightarrow> 'a option decoder" where
  "dec_option g [] = None"
| "dec_option g (b # bs) = (if b = 0 then Some (None, bs) else map_option (\<lambda>(x, r). (Some x, r)) (g bs))"

named_theorems codec

lemma sound_nat [codec]: "sound enc_nat dec_nat"
proof -
  have "dec_nat (replicate n 1 @ 0 # r) = Some (n, r)" for n r
    by (induction n) auto
  then show ?thesis by (simp add: sound_def enc_nat_def)
qed

lemma sound_pair [codec]: "sound f f' \<Longrightarrow> sound g g' \<Longrightarrow> sound (enc_pair f g) (dec_pair f' g')"
  by (simp add: sound_def enc_pair_def dec_pair_def)

lemma sound_list [codec]: "sound f g \<Longrightarrow> sound (enc_list f) (dec_list g)"
proof -
  assume "sound f g"
  then have "dec_times g (length xs) (concat (map f xs) @ r) = Some (xs, r)" for xs r
    by (induction xs) (auto simp: sound_def)
  then show ?thesis
    using sound_nat by (simp add: sound_def enc_list_def dec_list_def)
qed

lemma sound_option [codec]: "sound f g \<Longrightarrow> sound (enc_option f) (dec_option g)"
  unfolding sound_def
proof (intro allI)
  fix x r
  assume "\<forall>x r. g (f x @ r) = Some (x, r)"
  then show "dec_option g (enc_option f x @ r) = Some (x, r)"
    by (cases x) auto
qed

lemma sound_via: "sound f g \<Longrightarrow> (\<And>x. from (to x) = x) \<Longrightarrow> sound (enc_via to f) (dec_via from g)"
  by (simp add: sound_def enc_via_def dec_via_def)

section \<open>Codecs of the stored types\<close>

definition enc_word :: "'a::len word encoder" where "enc_word = enc_via unat enc_nat"
definition dec_word :: "'a::len word decoder" where "dec_word = dec_via of_nat dec_nat"

definition enc_string :: "string encoder" where "enc_string = enc_list (enc_via of_char enc_nat)"
definition dec_string :: "string decoder" where "dec_string = dec_list (dec_via char_of dec_nat)"

definition status_of :: "nat \<Rightarrow> event_status" where
  "status_of n = (case from_u8 (of_nat n) of None \<Rightarrow> EvPending | Some st \<Rightarrow> st)"

fun dl_code :: "delivery_status \<Rightarrow> nat" where
  "dl_code DlPending = 0" | "dl_code DlDelivered = 1" | "dl_code DlFailed = 2" | "dl_code DlDeadLettered = 3"

definition dl_of :: "nat \<Rightarrow> delivery_status" where
  "dl_of n = (if n = 0 then DlPending else if n = 1 then DlDelivered else if n = 2 then DlFailed else DlDeadLettered)"

definition enc_delivery :: "delivery_record encoder" where
  "enc_delivery = enc_via (\<lambda>d. (dl_subscriber_id d, dl_code (dl_status d), dl_attempts d,
       dl_last_attempt d, dl_next_retry d, dl_error d))
     (enc_pair enc_string (enc_pair enc_nat (enc_pair enc_word
       (enc_pair (enc_option enc_word) (enc_pair (enc_option enc_word) (enc_option enc_string))))))"

definition dec_delivery :: "delivery_record decoder" where
  "dec_delivery = dec_via (\<lambda>(i, st, a, l, n, e).
       \<lparr>dl_subscriber_id = i, dl_status = dl_of st, dl_attempts = a, dl_last_attempt = l,
        dl_next_retry = n, dl_error = e\<rparr>)
     (dec_pair dec_string (dec_pair dec_nat (dec_pair dec_word
       (dec_pair (dec_option dec_word) (dec_pair (dec_option dec_word) (dec_option dec_string))))))"

definition enc_event :: "stored_event encoder" where
  "enc_event = enc_via (\<lambda>e. (ev_seq e, ev_subject e, ev_payload e, ev_stored_at e,
       unat (as_u8 (ev_status e)), ev_deliveries e, ev_reply_subject e))
     (enc_pair enc_word (enc_pair enc_string (enc_pair (enc_list enc_word) (enc_pair enc_word
       (enc_pair enc_nat (enc_pair (enc_list enc_delivery) (enc_option enc_string)))))))"

definition dec_event :: "stored_event decoder" where
  "dec_event = dec_via (\<lambda>(q, s, p, t, st, ds, rs).
       \<lparr>ev_seq = q, ev_subject = s, ev_payload = p, ev_stored_at = t, ev_status = status_of st,
        ev_deliveries = ds, ev_reply_subject = rs\<rparr>)
     (dec_pair dec_word (dec_pair dec_string (dec_pair (dec_list dec_word) (dec_pair dec_word
       (dec_pair dec_nat (dec_pair (dec_list dec_delivery) (dec_option dec_string)))))))"

definition kind_code :: "persisted_subscription_kind \<Rightarrow> nat" where
  "kind_code k = (case k of AsyncWebhook \<Rightarrow> 0 | SyncInterceptor \<Rightarrow> 1)"

definition enc_sub :: "persisted_subscription encoder" where
  "enc_sub = enc_via (\<lambda>u. (ps_persisted_id u, ps_pattern u, ps_url u, ps_headers u, ps_priority u,
       ps_created_at u, kind_code (ps_kind u), ps_timeout_ms u))
     (enc_pair enc_string (enc_pair enc_string (enc_pair enc_string
       (enc_pair (enc_list (enc_pair enc_string enc_string)) (enc_pair enc_word (enc_pair enc_word
       (enc_pair enc_nat (enc_option enc_word))))))))"

definition dec_sub :: "persisted_subscription decoder" where
  "dec_sub = dec_via (\<lambda>(i, p, u, h, pr, c, k, t).
       \<lparr>ps_persisted_id = i, ps_pattern = p, ps_url = u, ps_headers = h, ps_priority = pr,
        ps_created_at = c, ps_kind = (if k = 0 then AsyncWebhook else SyncInterceptor), ps_timeout_ms = t\<rparr>)
     (dec_pair dec_string (dec_pair dec_string (dec_pair dec_string
       (dec_pair (dec_list (dec_pair dec_string dec_string)) (dec_pair dec_word (dec_pair dec_word
       (dec_pair dec_nat (dec_option dec_word))))))))"

lemma sound_word [codec]: "sound enc_word dec_word"
  unfolding enc_word_def dec_word_def by (rule sound_via [OF sound_nat]) simp

lemma sound_string [codec]: "sound enc_string dec_string"
  unfolding enc_string_def dec_string_def by (rule sound_list, rule sound_via [OF sound_nat]) simp

lemma status_of_code: "status_of (unat (as_u8 st)) = st"
  by (simp add: status_of_def from_as_u8)

lemma dl_of_code: "dl_of (dl_code st) = st"
  by (cases st) (simp_all add: dl_of_def)

lemma sound_delivery [codec]: "sound enc_delivery dec_delivery"
  unfolding enc_delivery_def dec_delivery_def
  by (rule sound_via) (intro codec, simp add: dl_of_code)

lemma sound_event [codec]: "sound enc_event dec_event"
  unfolding enc_event_def dec_event_def
  by (rule sound_via) (intro codec, simp add: status_of_code)

lemma sound_sub [codec]: "sound enc_sub dec_sub"
  unfolding enc_sub_def dec_sub_def
  by (rule sound_via) (intro codec, simp add: kind_code_def split: persisted_subscription_kind.splits)

text \<open>A decoder of a whole input.\<close>

definition decode_all :: "'a decoder \<Rightarrow> bytes \<Rightarrow> string + 'a" where
  "decode_all g bs = (case g bs of Some (x, []) \<Rightarrow> Inr x | _ \<Rightarrow> Inl ''malformed'')"

lemma decode_all_sound: "sound f g \<Longrightarrow> decode_all g (f x) = Inr x"
  using append_Nil2 [of "f x"] by (auto simp: sound_def decode_all_def split: option.splits list.splits dest: spec [where x = x] spec [where x = "[]"]) (metis append_Nil2 list.distinct(1) option.inject prod.inject)+

end
