(* ===== verification/Memory_Store.thy ===== *)
theory Memory_Store
  imports Storage_Types
begin

text \<open>
  The in-memory event store (\<open>storage/memory_store.rs\<close>): a vector of events and a map of
  persisted subscriptions. The two locks are held for the whole of an operation, so an operation
  is a function of the state. It is shown to satisfy the contract of an event store.
\<close>

section \<open>State and operations\<close>

record mem_store =
  mem_events :: "stored_event list"
  mem_subscriptions :: "(string \<times> persisted_subscription) list"

definition mem_new :: mem_store where
  "mem_new = \<lparr>mem_events = [], mem_subscriptions = []\<rparr>"

definition mem_append :: "mem_store \<Rightarrow> stored_event \<Rightarrow> u64 \<Rightarrow> (storage_error + u64) \<times> mem_store" where
  "mem_append s event now =
     (let events = mem_events s;
          q = (if events = [] then 1 else ev_seq (last events) + 1);
          stored = event\<lparr>ev_seq := q, ev_stored_at := now\<rparr>
      in (Inr q, s\<lparr>mem_events := events @ [stored]\<rparr>))"

definition mem_get :: "mem_store \<Rightarrow> u64 \<Rightarrow> storage_error + stored_event option" where
  "mem_get s q = Inr (find (\<lambda>e. ev_seq e = q) (mem_events s))"

definition mem_update_status ::
  "mem_store \<Rightarrow> u64 \<Rightarrow> event_status \<Rightarrow> (storage_error + unit) \<times> mem_store" where
  "mem_update_status s q st =
     (case find (\<lambda>e. ev_seq e = q) (mem_events s) of
        Some _ \<Rightarrow> (Inr (), s\<lparr>mem_events :=
                    update_first (\<lambda>e. ev_seq e = q) (\<lambda>e. e\<lparr>ev_status := st\<rparr>) (mem_events s)\<rparr>)
      | None \<Rightarrow> (Inl NotFound, s))"

definition mem_record_delivery ::
  "mem_store \<Rightarrow> u64 \<Rightarrow> string \<Rightarrow> delivery_status \<Rightarrow> string option \<Rightarrow> u64 option \<Rightarrow> u64
   \<Rightarrow> (storage_error + unit) \<times> mem_store" where
  "mem_record_delivery s q subscriber_id st err next_retry now =
     (case find (\<lambda>e. ev_seq e = q) (mem_events s) of
        Some _ \<Rightarrow> (Inr (), s\<lparr>mem_events :=
                    update_first (\<lambda>e. ev_seq e = q)
                      (\<lambda>e. e\<lparr>ev_deliveries :=
                         apply_delivery subscriber_id st err next_retry now (ev_deliveries e)\<rparr>)
                      (mem_events s)\<rparr>)
      | None \<Rightarrow> (Inl NotFound, s))"

definition mem_query_by_status ::
  "mem_store \<Rightarrow> event_status \<Rightarrow> nat \<Rightarrow> storage_error + stored_event list" where
  "mem_query_by_status s st limit = Inr (take limit (filter (\<lambda>e. ev_status e = st) (mem_events s)))"

definition mem_query_by_subject ::
  "mem_store \<Rightarrow> string \<Rightarrow> u64 option \<Rightarrow> nat \<Rightarrow> storage_error + stored_event list" where
  "mem_query_by_subject s subj since limit =
     Inr (take limit (filter (\<lambda>e. ev_subject e = subj
        \<and> (case since of None \<Rightarrow> True | Some k \<Rightarrow> k \<le> ev_seq e)) (mem_events s)))"

definition mem_query_retryable ::
  "mem_store \<Rightarrow> u32 \<Rightarrow> nat \<Rightarrow> u64 \<Rightarrow> storage_error + retryable_delivery list" where
  "mem_query_retryable s max_attempts limit now =
     Inr (take limit (sort_key retry_key (concat (map (retryables_of max_attempts now) (mem_events s)))))"

definition mem_count_retryable :: "mem_store \<Rightarrow> u32 \<Rightarrow> u64 \<Rightarrow> storage_error + u64" where
  "mem_count_retryable s max_attempts now =
     Inr (fold (\<lambda>e n. count_retryable_deliveries max_attempts now (ev_deliveries e) n)
            (mem_events s) 0)"

definition mem_compact :: "mem_store \<Rightarrow> duration \<Rightarrow> u64 \<Rightarrow> (storage_error + u64) \<times> mem_store" where
  "mem_compact s older_than now =
     (let threshold = compact_threshold older_than now;
          kept = filter (\<lambda>e. \<not> compactable threshold e) (mem_events s)
      in (Inr (of_nat (length (mem_events s) - length kept)), s\<lparr>mem_events := kept\<rparr>))"

definition mem_requeue_dead_lettered ::
  "mem_store \<Rightarrow> u64 \<Rightarrow> (storage_error + stored_event) \<times> mem_store" where
  "mem_requeue_dead_lettered s q =
     (case find (\<lambda>e. ev_seq e = q) (mem_events s) of
        None \<Rightarrow> (Inl NotFound, s)
      | Some event \<Rightarrow>
          if ev_status event \<noteq> EvDeadLettered then
            (Inl (OperationFailed (''event '' @ show_word q @ '' is not dead-lettered'')), s)
          else
            (let requeued = event\<lparr>ev_status := EvPending, ev_deliveries := []\<rparr>
             in (Inr requeued,
                 s\<lparr>mem_events := update_first (\<lambda>e. ev_seq e = q) (\<lambda>_. requeued) (mem_events s)\<rparr>)))"

fun remove_first :: "('a \<Rightarrow> bool) \<Rightarrow> 'a list \<Rightarrow> 'a list" where
  "remove_first p [] = []"
| "remove_first p (x # xs) = (if p x then xs else x # remove_first p xs)"

definition mem_purge_dead_lettered ::
  "mem_store \<Rightarrow> u64 \<Rightarrow> (storage_error + unit) \<times> mem_store" where
  "mem_purge_dead_lettered s q =
     (case find (\<lambda>e. ev_seq e = q) (mem_events s) of
        None \<Rightarrow> (Inl NotFound, s)
      | Some event \<Rightarrow>
          if ev_status event \<noteq> EvDeadLettered then
            (Inl (OperationFailed (''event '' @ show_word q @ '' is not dead-lettered'')), s)
          else (Inr (), s\<lparr>mem_events := remove_first (\<lambda>e. ev_seq e = q) (mem_events s)\<rparr>))"

definition mem_save_subscription ::
  "mem_store \<Rightarrow> persisted_subscription \<Rightarrow> (storage_error + unit) \<times> mem_store" where
  "mem_save_subscription s sub =
     (Inr (), s\<lparr>mem_subscriptions := reg_insert (ps_persisted_id sub) sub (mem_subscriptions s)\<rparr>)"

definition mem_list_subscriptions :: "mem_store \<Rightarrow> storage_error + persisted_subscription list" where
  "mem_list_subscriptions s = Inr (map snd (mem_subscriptions s))"

definition mem_delete_subscription :: "mem_store \<Rightarrow> string \<Rightarrow> (storage_error + unit) \<times> mem_store" where
  "mem_delete_subscription s persisted_id =
     (Inr (), s\<lparr>mem_subscriptions := filter (\<lambda>p. fst p \<noteq> persisted_id) (mem_subscriptions s)\<rparr>)"

text \<open>\<open>impl EventStore for InMemoryEventStore\<close>.\<close>

definition memory_ops :: "mem_store store_ops" where
  "memory_ops =
     \<lparr>st_append = mem_append, st_get = mem_get, st_update_status = mem_update_status,
      st_record_delivery = mem_record_delivery, st_query_by_status = mem_query_by_status,
      st_query_by_subject = mem_query_by_subject, st_query_retryable = mem_query_retryable,
      st_count_retryable = mem_count_retryable, st_compact = mem_compact,
      st_requeue_dead_lettered = mem_requeue_dead_lettered,
      st_purge_dead_lettered = mem_purge_dead_lettered,
      st_save_subscription = mem_save_subscription, st_list_subscriptions = mem_list_subscriptions,
      st_delete_subscription = mem_delete_subscription\<rparr>"

section \<open>Invariant and abstraction\<close>

text \<open>The events stand in strictly ascending sequence order and no event records a subscriber
  twice; the abstraction finds an event by its number.\<close>

definition mem_inv :: "mem_store \<Rightarrow> bool" where
  "mem_inv s \<longleftrightarrow> sorted_wrt (<) (map ev_seq (mem_events s))
     \<and> (\<forall>e \<in> set (mem_events s). deliveries_wf e)"

definition mem_view :: "mem_store \<Rightarrow> (u64 \<rightharpoonup> stored_event)" where
  "mem_view s = (\<lambda>q. find (\<lambda>e. ev_seq e = q) (mem_events s))"

lemma mem_inv_distinct: "mem_inv s \<Longrightarrow> distinct (map ev_seq (mem_events s))"
  by (simp add: mem_inv_def sorted_wrt_less_distinct)

lemma mem_inv_new: "mem_inv mem_new"
  by (simp add: mem_inv_def mem_new_def)

lemma dom_mem_view: "dom (mem_view s) = ev_seq ` set (mem_events s)"
  by (auto simp: mem_view_def dom_def find_Some_iff2 find_None_iff dest!: find_Some_mem)

lemma mem_view_wf: "mem_inv s \<Longrightarrow> log_wf (mem_view s)"
  by (auto simp: log_wf_def dom_mem_view mem_inv_def) (auto simp: mem_view_def dest!: find_Some_mem)

lemma listing_mem: "mem_inv s \<Longrightarrow> listing (mem_view s) = mem_events s"
  unfolding mem_view_def by (rule listing_unique) (simp add: mem_inv_def)

lemma next_seq_mem:
  assumes "mem_inv s"
  shows "next_seq (mem_view s) = (if mem_events s = [] then 1 else ev_seq (last (mem_events s)) + 1)"
proof (cases "mem_events s = []")
  case False
  have "Max (ev_seq ` set (mem_events s)) = ev_seq (last (mem_events s))"
  proof (rule Max_eqI)
    fix q assume "q \<in> ev_seq ` set (mem_events s)"
    then show "q \<le> ev_seq (last (mem_events s))"
      using assms False sorted_wrt_less_last [of "map ev_seq (mem_events s)" q]
      by (simp add: mem_inv_def last_map)
  qed (use False in auto)
  with False show ?thesis by (simp add: next_seq_def dom_mem_view)
qed (simp add: next_seq_def dom_mem_view)

lemma view_update_first:
  assumes "\<And>e. ev_seq (f e) = ev_seq e"
  shows "mem_view (s\<lparr>mem_events := update_first (\<lambda>e. ev_seq e = q) f (mem_events s)\<rparr>)
         = upd_event (mem_view s) q f"
proof
  fix k
  show "mem_view (s\<lparr>mem_events := update_first (\<lambda>e. ev_seq e = q) f (mem_events s)\<rparr>) k
        = upd_event (mem_view s) q f k"
    using assms
    by (cases "k = q")
      (auto simp: mem_view_def upd_event_def find_update_first find_update_first_other
        update_first_id split: option.splits)
qed

lemma inv_update_first:
  assumes "mem_inv s" and "\<And>e. ev_seq (f e) = ev_seq e" and "\<And>e. deliveries_wf e \<Longrightarrow> deliveries_wf (f e)"
  shows "mem_inv (s\<lparr>mem_events := update_first (\<lambda>e. ev_seq e = q) f (mem_events s)\<rparr>)"
  using assms set_update_first [of "\<lambda>e. ev_seq e = q" f "mem_events s"]
  by (auto simp: mem_inv_def map_update_first)

lemma remove_first_eq_filter:
  "distinct (map k xs) \<Longrightarrow> (\<And>x. p x \<longleftrightarrow> k x = a) \<Longrightarrow> remove_first p xs = filter (\<lambda>x. \<not> p x) xs"
proof (induction xs)
  case (Cons x xs)
  have "filter (\<lambda>y. \<not> p y) xs = xs" if "p x"
    using Cons.prems that by (intro filter_True) (metis distinct.simps(2) image_eqI list.set_map list.simps(9))
  with Cons show ?case by auto
qed simp

lemma inv_filter: "mem_inv s \<Longrightarrow> mem_inv (s\<lparr>mem_events := filter P (mem_events s)\<rparr>)"
  by (auto simp: mem_inv_def sorted_wrt_filter sorted_wrt_map)

lemma view_filter:
  assumes "mem_inv s"
  shows "mem_view (s\<lparr>mem_events := filter P (mem_events s)\<rparr>)
         = (\<lambda>q. case mem_view s q of None \<Rightarrow> None | Some e \<Rightarrow> if P e then Some e else None)"
  using find_filter_distinct [OF mem_inv_distinct [OF assms]] by (simp add: mem_view_def)

lemma fold_count_retryable:
  "fold (\<lambda>e n. count_retryable_deliveries mx now (ev_deliveries e) n) es n
   = n + of_nat (length (concat (map (retryables_of mx now) es)))"
  by (induction es arbitrary: n) (auto simp: count_retryable_deliveries_eq retryables_of_def)

section \<open>The in-memory store satisfies the contract\<close>

lemma mem_append_correct:
  assumes "mem_inv s" and "seq_room (mem_view s)" and "ev_deliveries e = []"
  shows "\<exists>s'. mem_append s e now = (Inr (next_seq (mem_view s)), s') \<and> mem_inv s'
    \<and> mem_view s' = (mem_view s)(next_seq (mem_view s) \<mapsto>
         e\<lparr>ev_seq := next_seq (mem_view s), ev_stored_at := now\<rparr>)"
proof -
  let ?q = "next_seq (mem_view s)"
  have q: "?q = (if mem_events s = [] then 1 else ev_seq (last (mem_events s)) + 1)"
    using assms(1) by (rule next_seq_mem)
  have above: "ev_seq x < ?q" if "x \<in> set (mem_events s)" for x
  proof -
    have ne: "mem_events s \<noteq> []" using that by auto
    have "ev_seq (last (mem_events s)) \<noteq> - 1"
      using assms(2) ne by (metis dom_mem_view imageI last_in_set seq_room_def)
    then have "ev_seq (last (mem_events s)) < ?q"
      using ne q by (simp add: word_less_plus_1)
    moreover have "ev_seq x \<le> ev_seq (last (mem_events s))"
      using assms(1) that ne sorted_wrt_less_last [of "map ev_seq (mem_events s)" "ev_seq x"]
      by (simp add: mem_inv_def last_map)
    ultimately show ?thesis by simp
  qed
  let ?e = "e\<lparr>ev_seq := ?q, ev_stored_at := now\<rparr>"
  let ?s = "s\<lparr>mem_events := mem_events s @ [?e]\<rparr>"
  have "mem_inv ?s"
    using assms above by (auto simp: mem_inv_def sorted_wrt_append deliveries_wf_def)
  moreover have "find (\<lambda>e. ev_seq e = ?q) (mem_events s) = None"
    using above by (force simp: find_None_iff)
  then have "mem_view ?s = (mem_view s)(?q \<mapsto> ?e)"
    by (auto simp: mem_view_def fun_eq_iff find_append split: option.splits)
  ultimately show ?thesis
    using q by (auto simp: mem_append_def Let_def)
qed

lemma mem_compact_correct:
  assumes "mem_inv s"
  shows "\<exists>s'. mem_compact s older now =
      (Inr (of_nat (length (filter (compactable (compact_threshold older now)) (listing (mem_view s))))), s')
    \<and> mem_inv s' \<and> mem_view s' = log_compact (compact_threshold older now) (mem_view s)"
proof -
  let ?P = "compactable (compact_threshold older now)"
  have "length (mem_events s) - length (filter (\<lambda>e. \<not> ?P e) (mem_events s)) = length (filter ?P (mem_events s))"
    using sum_length_filter_compl [of ?P "mem_events s"] by simp
  then show ?thesis
    using assms
    by (auto simp: mem_compact_def Let_def listing_mem inv_filter view_filter log_compact_def
        simp del: of_nat_diff split: option.splits)
qed

lemma mem_update_correct:
  assumes "mem_inv s"
  shows "if mem_view s q = None then mem_update_status s q st = (Inl NotFound, s)
    else \<exists>s'. mem_update_status s q st = (Inr (), s') \<and> mem_inv s'
      \<and> mem_view s' = upd_event (mem_view s) q (\<lambda>e. e\<lparr>ev_status := st\<rparr>)"
  using assms
  by (auto simp: mem_update_status_def view_update_first deliveries_wf_def
      mem_view_def [of s] split: option.splits intro!: inv_update_first)

lemma mem_record_correct:
  assumes "mem_inv s"
  shows "if mem_view s q = None then mem_record_delivery s q sub dst err nr now = (Inl NotFound, s)
    else \<exists>s'. mem_record_delivery s q sub dst err nr now = (Inr (), s') \<and> mem_inv s'
      \<and> mem_view s' = upd_event (mem_view s) q
           (\<lambda>e. e\<lparr>ev_deliveries := apply_delivery sub dst err nr now (ev_deliveries e)\<rparr>)"
  using assms
  by (auto simp: mem_record_delivery_def view_update_first deliveries_wf_def
      apply_delivery_distinct mem_view_def [of s] split: option.splits intro!: inv_update_first)

lemma mem_get_eq: "mem_get s q = Inr (mem_view s q)"
  by (simp add: mem_get_def mem_view_def)

lemma upd_event_some: "m q = Some e \<Longrightarrow> upd_event m q f = m(q \<mapsto> f e)"
  by (simp add: upd_event_def)

lemma update_first_const:
  "find p xs = Some x \<Longrightarrow> update_first p (\<lambda>_. f x) xs = update_first p f xs"
  by (induction xs) (auto split: if_splits)

lemma mem_requeue_correct:
  assumes "mem_inv s"
  shows "failed (mem_requeue_dead_lettered s q) s \<and> (\<forall>e. mem_view s q = Some e \<longrightarrow> ev_status e \<noteq> EvDeadLettered)
    \<or> (\<exists>s' e. mem_view s q = Some e \<and> ev_status e = EvDeadLettered
         \<and> mem_requeue_dead_lettered s q = (Inr (e\<lparr>ev_status := EvPending, ev_deliveries := []\<rparr>), s')
         \<and> mem_inv s' \<and> mem_view s' = (mem_view s)(q \<mapsto> e\<lparr>ev_status := EvPending, ev_deliveries := []\<rparr>))"
proof (cases "mem_view s q")
  case None
  then show ?thesis
    by (auto simp: mem_requeue_dead_lettered_def mem_view_def failed_def)
next
  case (Some e)
  let ?f = "\<lambda>e. e\<lparr>ev_status := EvPending, ev_deliveries := []\<rparr>"
  let ?s = "s\<lparr>mem_events := update_first (\<lambda>e. ev_seq e = q) ?f (mem_events s)\<rparr>"
  have f: "find (\<lambda>e. ev_seq e = q) (mem_events s) = Some e"
    using Some by (simp add: mem_view_def)
  have "mem_inv ?s" "mem_view ?s = (mem_view s)(q \<mapsto> ?f e)"
    using assms Some by (simp_all add: inv_update_first deliveries_wf_def view_update_first upd_event_some)
  with f Some show ?thesis
    using update_first_const [OF f, of ?f]
    by (auto simp: mem_requeue_dead_lettered_def failed_def Let_def)
qed

lemma mem_purge_correct:
  assumes "mem_inv s"
  shows "failed (mem_purge_dead_lettered s q) s \<and> (\<forall>e. mem_view s q = Some e \<longrightarrow> ev_status e \<noteq> EvDeadLettered)
    \<or> (\<exists>s' e. mem_view s q = Some e \<and> ev_status e = EvDeadLettered
         \<and> mem_purge_dead_lettered s q = (Inr (), s') \<and> mem_inv s' \<and> mem_view s' = (mem_view s)(q := None))"
proof -
  have rm: "remove_first (\<lambda>e. ev_seq e = q) (mem_events s) = filter (\<lambda>e. ev_seq e \<noteq> q) (mem_events s)"
    using remove_first_eq_filter [OF mem_inv_distinct [OF assms], of "\<lambda>e. ev_seq e = q" q] by simp
  have "mem_view (s\<lparr>mem_events := filter (\<lambda>e. ev_seq e \<noteq> q) (mem_events s)\<rparr>) = (mem_view s)(q := None)"
    using mem_view_wf [OF assms]
    by (auto simp: view_filter [OF assms] fun_eq_iff log_wf_def split: option.splits)
  then show ?thesis
    using inv_filter [OF assms, of "\<lambda>e. ev_seq e \<noteq> q"]
    by (auto simp: mem_purge_dead_lettered_def rm failed_def mem_view_def [of s] split: option.splits)
qed

interpretation mem: reliable_store memory_ops mem_view mem_inv
proof unfold_locales
  fix s q st sub dst err nr now
  assume i: "mem_inv s"
  show "failed (st_update_status memory_ops s q st) s \<or>
      (\<exists>s'. st_update_status memory_ops s q st = (Inr (), s') \<and> mem_inv s' \<and> mem_view s q \<noteq> None
         \<and> mem_view s' = upd_event (mem_view s) q (\<lambda>e. e\<lparr>ev_status := st\<rparr>))"
    using mem_update_correct [OF i, of q st] by (auto simp: memory_ops_def failed_def split: if_splits)
  show "failed (st_record_delivery memory_ops s q sub dst err nr now) s \<or>
      (\<exists>s'. st_record_delivery memory_ops s q sub dst err nr now = (Inr (), s') \<and> mem_inv s'
         \<and> mem_view s q \<noteq> None \<and> mem_view s' = upd_event (mem_view s) q
              (\<lambda>e. e\<lparr>ev_deliveries := apply_delivery sub dst err nr now (ev_deliveries e)\<rparr>))"
    using mem_record_correct [OF i, of q sub dst err nr now]
    by (auto simp: memory_ops_def failed_def split: if_splits)
  show "mem_view s q \<noteq> None \<Longrightarrow> \<not> failed (st_update_status memory_ops s q st) s"
    using mem_update_correct [OF i, of q st] by (auto simp: memory_ops_def failed_def split: if_splits)
  show "mem_view s q \<noteq> None \<Longrightarrow> \<not> failed (st_record_delivery memory_ops s q sub dst err nr now) s"
    using mem_record_correct [OF i, of q sub dst err nr now]
    by (auto simp: memory_ops_def failed_def split: if_splits)
next
  fix s and e :: stored_event and now
  assume "mem_inv s" "seq_room (mem_view s)" "ev_deliveries e = []"
  then show "failed (st_append memory_ops s e now) s \<or>
      (\<exists>s'. st_append memory_ops s e now = (Inr (next_seq (mem_view s)), s') \<and> mem_inv s'
         \<and> mem_view s' = (mem_view s)(next_seq (mem_view s) \<mapsto>
              e\<lparr>ev_seq := next_seq (mem_view s), ev_stored_at := now\<rparr>))"
    using mem_append_correct [of s e now] by (simp add: memory_ops_def)
next
  fix s q e
  assume "mem_inv s" and "mem_view s q = Some e" and "ev_status e = EvDeadLettered"
  then show "\<not> failed (st_requeue_dead_lettered memory_ops s q) s"
    and "\<not> failed (st_purge_dead_lettered memory_ops s q) s"
    using mem_requeue_correct [of s q] mem_purge_correct [of s q]
    by (auto simp: memory_ops_def failed_def)
next
  fix s q
  assume i: "mem_inv s"
  show "failed (st_requeue_dead_lettered memory_ops s q) s \<or>
      (\<exists>s' e. mem_view s q = Some e \<and> ev_status e = EvDeadLettered
         \<and> st_requeue_dead_lettered memory_ops s q = (Inr (e\<lparr>ev_status := EvPending, ev_deliveries := []\<rparr>), s')
         \<and> mem_inv s' \<and> mem_view s' = (mem_view s)(q \<mapsto> e\<lparr>ev_status := EvPending, ev_deliveries := []\<rparr>))"
    using mem_requeue_correct [OF i, of q] by (auto simp: memory_ops_def)
  show "failed (st_purge_dead_lettered memory_ops s q) s \<or>
      (\<exists>s' e. mem_view s q = Some e \<and> ev_status e = EvDeadLettered
         \<and> st_purge_dead_lettered memory_ops s q = (Inr (), s') \<and> mem_inv s' \<and> mem_view s' = (mem_view s)(q := None))"
    using mem_purge_correct [OF i, of q] by (auto simp: memory_ops_def)
next
  fix s older now
  assume "mem_inv s"
  then show "failed (st_compact memory_ops s older now) s \<or>
      (\<exists>s'. st_compact memory_ops s older now =
           (Inr (of_nat (length (filter (compactable (compact_threshold older now)) (listing (mem_view s))))), s')
         \<and> mem_inv s' \<and> mem_view s' = log_compact (compact_threshold older now) (mem_view s))"
    using mem_compact_correct by (simp add: memory_ops_def)
qed (auto simp: memory_ops_def mem_get_eq mem_append_def mem_compact_def mem_query_by_status_def
    mem_query_by_subject_def mem_query_retryable_def mem_count_retryable_def mem_view_wf failed_def
    listing_mem retryable_rows_def fold_count_retryable Let_def)

section \<open>Properties\<close>

definition fresh_event :: "string \<Rightarrow> bytes \<Rightarrow> stored_event" where
  "fresh_event subj payload =
     \<lparr>ev_seq = 0, ev_subject = subj, ev_payload = payload, ev_stored_at = 0, ev_status = EvPending,
      ev_deliveries = [], ev_reply_subject = None\<rparr>"

lemma mem_view_new: "mem_view mem_new = Map.empty"
  by (simp add: mem_view_def mem_new_def)

lemma mem_run:
  assumes "length ops < 2 ^ 64 - 1"
    and "\<And>e now. SAppend e now \<in> set ops \<Longrightarrow> ev_deliveries e = []"
  shows "ops_ok ops Map.empty" and "store_run memory_ops ops mem_new = log_run ops Map.empty"
proof -
  show "ops_ok ops Map.empty"
    using assms by (intro ops_ok_bounded [of 0]) (auto simp: log_bound_def)
  then show "store_run memory_ops ops mem_new = log_run ops Map.empty"
    using mem.run_total [OF mem_inv_new] by (simp add: mem_view_new)
qed

text \<open>C9. The in-memory store implements the log: every sequence of calls of the trait on a new
  store returns, call by call, what the reference model returns on the empty log. The appended
  events carry no deliveries yet and the calls are too few to exhaust the sequence numbers.\<close>

theorem memory_store_refines:
  assumes "length ops < 2 ^ 64 - 1"
    and "\<And>e now. SAppend e now \<in> set ops \<Longrightarrow> ev_deliveries e = []"
  shows "store_run memory_ops ops mem_new = log_run ops Map.empty"
  using assms by (rule mem_run(2))

theorem memory_store_refines_witness:
  "store_run memory_ops [SAppend (fresh_event ''a'' [1]) 5, SUpdate 1 EvDeadLettered, SRequeue 1, SUpdate 2 EvDelivered] mem_new
     = log_run [SAppend (fresh_event ''a'' [1]) 5, SUpdate 1 EvDeadLettered, SRequeue 1, SUpdate 2 EvDelivered] Map.empty
   \<and> store_run memory_ops [SAppend (fresh_event ''a'' [1]) 5, SUpdate 1 EvDeadLettered, SRequeue 1, SUpdate 2 EvDelivered] mem_new
     = [RSeq 1, RUnit, REvent ((fresh_event ''a'' [1])\<lparr>ev_seq := 1, ev_stored_at := 5\<rparr>), RError]"
proof
  show "store_run memory_ops [SAppend (fresh_event ''a'' [1]) 5, SUpdate 1 EvDeadLettered, SRequeue 1, SUpdate 2 EvDelivered] mem_new
     = log_run [SAppend (fresh_event ''a'' [1]) 5, SUpdate 1 EvDeadLettered, SRequeue 1, SUpdate 2 EvDelivered] Map.empty"
    by (rule memory_store_refines) (auto simp: fresh_event_def)
qed (simp add: memory_ops_def mem_append_def mem_new_def mem_update_status_def mem_requeue_dead_lettered_def
    fresh_event_def Let_def)

end
