(* ===== verification/Redb_Instance.thy ===== *)
theory Redb_Instance
  imports Redb_Store Codec Memory_Store
begin

text \<open>
  The properties of the durable store, stated for every environment that meets the laws of redb
  and serde_json, and an environment that does (red-black trees and the codecs), on which the
  locale is interpreted.
\<close>

type_synonym rbt_env =
  "((u64, bytes) RBT.rbt, (string \<times> u64, unit) RBT.rbt, (u8 \<times> u64, unit) RBT.rbt, (u64, unit) RBT.rbt,
    (string, bytes) RBT.rbt) redb_env"

definition rbt_env :: "(string \<Rightarrow> fault_point \<Rightarrow> string option) \<Rightarrow> rbt_env" where
  "rbt_env flt =
     \<lparr>EVENTS_TABLE = rbt_table, SUBJECT_IDX_TABLE = rbt_table, STATUS_IDX_TABLE = rbt_table,
      FAILED_DELIVERIES_IDX_TABLE = rbt_table, SUBSCRIPTIONS_TABLE = rbt_table,
      ser_event = (\<lambda>e. Inr (enc_event e)), de_event = decode_all dec_event,
      ser_sub = (\<lambda>u. Inr (enc_sub u)), de_sub = decode_all dec_sub,
      fault = flt, rm_fault = (\<lambda>_ _. False)\<rparr>"

definition rbt_db where
  "rbt_db = \<lparr>t_events = RBT.empty, t_subject = RBT.empty, t_status = RBT.empty, t_failed = RBT.empty,
     t_subs = RBT.empty\<rparr>"

lemma rbt_env_store: "redb_store (rbt_env flt)"
  by unfold_locales
    (auto simp: rbt_env_def rbt.iter_sorted rbt.get_iter rbt.range_law rbt.last_law
      decode_all_sound sound_event sound_sub simp flip: rbt.get_iter simp: rbt.insert_law rbt.remove_law)

interpretation rbts: redb_store "rbt_env flt" for flt
  by (rule rbt_env_store)

interpretation rbtf: redb_faultless "rbt_env (\<lambda>_ _. None)"
  by unfold_locales (simp_all add: rbt_env_def)

definition redb_empty ::
  "('et, 'st, 'ut, 'ft, 'pt) redb_env \<Rightarrow> ('et, 'st, 'ut, 'ft, 'pt) redb_db \<Rightarrow> bool" where
  "redb_empty E db \<longleftrightarrow> tb_iter (EVENTS_TABLE E) (t_events db) = [] \<and> tb_iter (SUBJECT_IDX_TABLE E) (t_subject db) = []"

context redb_store
begin

lemma empty_inv: "redb_empty E db \<Longrightarrow> redb_inv E db \<and> redb_view E db = Map.empty"
  by (auto simp: redb_empty_def redb_inv_def redb_view_def ev.get_iter subj.get_iter fun_eq_iff)

lemma step_db:
  "redb_inv E db \<Longrightarrow> op_ok op (redb_view E db) \<Longrightarrow> store_step (redb_ops E) op db = (RError, db) \<or>
    (\<exists>db'. store_step (redb_ops E) op db = (fst (log_step op (redb_view E db)), db')
       \<and> redb_inv E db' \<and> redb_view E db' = snd (log_step op (redb_view E db)))"
  by (rule es.step_law)

end

context redb_faultless
begin

lemma run_empty: "redb_empty E db \<Longrightarrow> ops_ok ops Map.empty \<Longrightarrow> store_run (redb_ops E) ops db = log_run ops Map.empty"
  using rel.run_total empty_inv by metis

end

lemma rbt_entries_empty: "RBT.entries RBT.empty = []"
  by (metis RBT.lookup_empty RBT.map_of_entries map_of_eq_empty_iff)

lemma rbt_db_empty: "redb_empty (rbt_env flt) rbt_db"
  by (simp add: redb_empty_def rbt_env_def rbt_db_def rbt_table_def rbt_entries_empty)

section \<open>Properties\<close>





end
