(* ===== verification/Event_Filter.thy ===== *)
theory Event_Filter
  imports Prelude
begin

text \<open>
  Event filters (\<open>dispatch/filter.rs\<close>). A filter narrows a subscription beyond its subject by
  looking into the JSON payload. JSON values belong to the crate serde_json: they are a type
  variable \<open>'j\<close>, and the four functions the filter calls on them are the fields of
  \<open>json_ops\<close>, a parameter of every definition that evaluates a filter.
\<close>

section \<open>Filters and their evaluation\<close>

record 'j json_ops =
  js_from_slice :: "bytes \<Rightarrow> 'j option"
  js_get :: "'j \<Rightarrow> string \<Rightarrow> 'j option"
  js_as_string :: "'j \<Rightarrow> string option"
  js_to_string :: "'j \<Rightarrow> string"

datatype 'j event_filter =
    FieldEquals string 'j
  | FieldContains string string
  | FAll "'j event_filter list"
  | FAny "'j event_filter list"

definition MAX_FILTER_DEPTH :: nat where
  "MAX_FILTER_DEPTH = 16"

text \<open>\<open>resolve_path\<close>: the \<open>for\<close> loop over \<open>path.split('.')\<close> with its early \<open>None\<close>.\<close>

fun resolve_segments :: "'j json_ops \<Rightarrow> 'j \<Rightarrow> string list \<Rightarrow> 'j option" where
  "resolve_segments J current [] = Some current"
| "resolve_segments J current (segment # rest) =
     (case js_get J current segment of
        None \<Rightarrow> None
      | Some v \<Rightarrow> resolve_segments J v rest)"

definition resolve_path :: "'j json_ops \<Rightarrow> 'j \<Rightarrow> string \<Rightarrow> 'j option" where
  "resolve_path J root path = resolve_segments J root (split_on CHR ''.'' path)"

definition value_contains :: "'j json_ops \<Rightarrow> string \<Rightarrow> 'j \<Rightarrow> bool" where
  "value_contains J substring v =
     (case js_as_string J v of
        Some s \<Rightarrow> contains_str s substring
      | None \<Rightarrow> contains_str (js_to_string J v) substring)"

fun matches_inner :: "'j json_ops \<Rightarrow> 'j event_filter \<Rightarrow> 'j \<Rightarrow> nat \<Rightarrow> bool" where
  "matches_inner J (FieldEquals path val) root depth =
     (if depth > MAX_FILTER_DEPTH then False
      else case resolve_path J root path of None \<Rightarrow> False | Some v \<Rightarrow> v = val)"
| "matches_inner J (FieldContains path substring) root depth =
     (if depth > MAX_FILTER_DEPTH then False
      else case resolve_path J root path of None \<Rightarrow> False
           | Some v \<Rightarrow> value_contains J substring v)"
| "matches_inner J (FAll filters) root depth =
     (if depth > MAX_FILTER_DEPTH then False
      else list_all (\<lambda>f. matches_inner J f root (Suc depth)) filters)"
| "matches_inner J (FAny filters) root depth =
     (if depth > MAX_FILTER_DEPTH then False
      else list_ex (\<lambda>f. matches_inner J f root (Suc depth)) filters)"

definition filter_matches :: "'j json_ops \<Rightarrow> 'j event_filter \<Rightarrow> bytes \<Rightarrow> bool" where
  "filter_matches J f payload =
     (case js_from_slice J payload of
        None \<Rightarrow> True
      | Some v \<Rightarrow> matches_inner J f v 0)"

section \<open>The meaning of a filter without the depth limit\<close>

text \<open>\<open>holds\<close> reads a filter as the formula its constructors name; \<open>filter_depth\<close> counts how
  many combinators enclose the deepest sub-filter.\<close>

fun holds :: "'j json_ops \<Rightarrow> 'j event_filter \<Rightarrow> 'j \<Rightarrow> bool" where
  "holds J (FieldEquals path val) root = (resolve_path J root path = Some val)"
| "holds J (FieldContains path substring) root =
     (\<exists>v. resolve_path J root path = Some v \<and> value_contains J substring v)"
| "holds J (FAll filters) root = (\<forall>f \<in> set filters. holds J f root)"
| "holds J (FAny filters) root = (\<exists>f \<in> set filters. holds J f root)"

fun filter_depth :: "'j event_filter \<Rightarrow> nat" where
  "filter_depth (FieldEquals path val) = 0"
| "filter_depth (FieldContains path substring) = 0"
| "filter_depth (FAll filters) = fold max (map (\<lambda>f. Suc (filter_depth f)) filters) 0"
| "filter_depth (FAny filters) = fold max (map (\<lambda>f. Suc (filter_depth f)) filters) 0"

lemma fold_max_ge: "(m::nat) \<le> fold max xs m"
  by (induction xs arbitrary: m) (auto intro: order_trans [OF max.cobounded2])

lemma fold_max_mem: "x \<in> set xs \<Longrightarrow> x \<le> fold max xs (m::nat)"
proof (induction xs arbitrary: m)
  case (Cons y ys)
  then show ?case
    using fold_max_ge [of "max y m" ys] by (auto simp: max.coboundedI1)
qed simp

lemma filter_depth_child:
  "f \<in> set filters \<Longrightarrow> Suc (filter_depth f) \<le> fold max (map (\<lambda>f. Suc (filter_depth f)) filters) 0"
  by (rule fold_max_mem) simp

lemma matches_inner_sound: "matches_inner J f root depth \<Longrightarrow> holds J f root"
  by (induction J f root depth rule: matches_inner.induct)
    (auto simp: list_all_iff list_ex_iff split: if_splits option.splits)

lemma matches_inner_exact:
  "filter_depth f + depth \<le> MAX_FILTER_DEPTH \<Longrightarrow> matches_inner J f root depth = holds J f root"
proof (induction J f root depth rule: matches_inner.induct)
  case (3 J filters root depth)
  have "matches_inner J f root (Suc depth) = holds J f root" if "f \<in> set filters" for f
    using 3 that filter_depth_child [OF that] by auto
  with 3 show ?case by (auto simp: list_all_iff)
next
  case (4 J filters root depth)
  have "matches_inner J f root (Suc depth) = holds J f root" if "f \<in> set filters" for f
    using 4 that filter_depth_child [OF that] by auto
  with 4 show ?case by (auto simp: list_ex_iff)
qed (auto split: option.splits)

lemma resolve_segments_append:
  "resolve_segments J v (xs @ ys) =
     (case resolve_segments J v xs of None \<Rightarrow> None | Some w \<Rightarrow> resolve_segments J w ys)"
  by (induction J v xs rule: resolve_segments.induct) (auto split: option.splits)

section \<open>Properties\<close>

text \<open>
  C10. A filter never lets through more than its formula says: on a payload that parses as
  JSON, a match implies that the formula holds of the value, whatever the nesting; and up to
  sixteen enclosing combinators the match is exactly the formula, so the depth limit only
  rejects. A payload that is not JSON always passes.
\<close>

theorem filter_matches_spec:
  "(js_from_slice J payload = None \<longrightarrow> filter_matches J f payload)
   \<and> (\<forall>v. js_from_slice J payload = Some v \<longrightarrow>
        (filter_matches J f payload \<longrightarrow> holds J f v)
        \<and> (filter_depth f \<le> MAX_FILTER_DEPTH \<longrightarrow> filter_matches J f payload = holds J f v))"
  using matches_inner_sound [of J f _ 0] matches_inner_exact [of f 0 J]
  by (auto simp: filter_matches_def)

text \<open>An instance of the JSON operations for the concrete inputs of this development: the
  values are strings, the byte \<open>1\<close> parses to \<open>hello\<close>, and every value has itself as its
  member \<open>k\<close>.\<close>

definition demo_json :: "string json_ops" where
  "demo_json =
     \<lparr>js_from_slice = (\<lambda>b. if b = [1] then Some ''hello'' else None),
      js_get = (\<lambda>v s. if s = ''k'' then Some v else None),
      js_as_string = Some, js_to_string = (\<lambda>v. v)\<rparr>"

theorem filter_matches_spec_witness:
  "holds demo_json (FAll [FieldContains ''k.k'' ''ell'']) ''hello''
   \<and> filter_matches demo_json (FAll [FieldContains ''k.k'' ''ell'']) [1]
   \<and> \<not> filter_matches demo_json (FAny []) [1] \<and> filter_matches demo_json (FAny []) [2]"
  using filter_matches_spec [of demo_json "[1]" "FAll [FieldContains ''k.k'' ''ell'']"]
    filter_matches_spec [of demo_json "[1]" "FAny []"] filter_matches_spec [of demo_json "[2]" "FAny []"]
  by (simp add: demo_json_def MAX_FILTER_DEPTH_def resolve_path_def value_contains_def)

end
