(* ===== verification/Delivery_Channel.thy ===== *)
theory Delivery_Channel
  imports Prelude
begin

text \<open>
  Delivery channels (\<open>delivery/mod.rs\<close>) and the registry of custom channel types
  (\<open>delivery/registry.rs\<close>). A channel is a trait object: its \<open>deliver\<close> method is a function
  that is a parameter of the model, and the registry maps a type name to it.
\<close>

section \<open>Channel configuration and the delivery interface\<close>

datatype delivery_error =
    DeliveryFailed string
  | DeliveryPermanent string
  | NotReady

text \<open>The \<open>Display\<close> texts that \<open>thiserror\<close> derives from the attributes on the variants.\<close>

fun delivery_error_text :: "delivery_error \<Rightarrow> string" where
  "delivery_error_text (DeliveryFailed m) = ''delivery failed: '' @ m"
| "delivery_error_text (DeliveryPermanent m) = ''delivery permanently failed: '' @ m"
| "delivery_error_text NotReady = ''channel not ready''"

record delivery_receipt =
  delivered_at :: u64
  latency_us :: u64

datatype 'j channel_config =
    InProcess
  | WebSocket
  | Webhook string "string \<rightharpoonup> string"
  | Custom string 'j

text \<open>\<open>deliver(event, subject, config)\<close> of the trait: what it does outside the bus is a change of
  the world.\<close>

type_synonym ('j, 'w) delivery_channel =
  "bytes \<Rightarrow> string \<Rightarrow> 'j channel_config \<Rightarrow> 'w \<Rightarrow> (delivery_error + delivery_receipt) \<times> 'w"

section \<open>The channel registry\<close>

text \<open>The \<open>HashMap\<close> behind the registry: an association list without repeated keys, because
  \<open>list_types\<close> lists the keys.\<close>

type_synonym 'c channel_registry = "(string \<times> 'c) list"

definition registry_register :: "'c channel_registry \<Rightarrow> string \<Rightarrow> 'c \<Rightarrow> 'c channel_registry" where
  "registry_register channels type_name channel = reg_insert type_name channel channels"

definition registry_get :: "'c channel_registry \<Rightarrow> string \<Rightarrow> 'c option" where
  "registry_get channels type_name = map_of channels type_name"

definition registry_unregister :: "'c channel_registry \<Rightarrow> string \<Rightarrow> 'c channel_registry" where
  "registry_unregister channels type_name = filter (\<lambda>p. fst p \<noteq> type_name) channels"

definition registry_list_types :: "'c channel_registry \<Rightarrow> string list" where
  "registry_list_types channels = map fst channels"

section \<open>The registry as a finite map\<close>

locale name_registry =
  fixes register :: "'r \<Rightarrow> string \<Rightarrow> 'c \<Rightarrow> 'r"
    and get :: "'r \<Rightarrow> string \<Rightarrow> 'c option"
    and unregister :: "'r \<Rightarrow> string \<Rightarrow> 'r"
    and list_types :: "'r \<Rightarrow> string list"
    and wf :: "'r \<Rightarrow> bool"
  assumes get_register: "get (register r n c) m = (if m = n then Some c else get r m)"
    and get_unregister: "get (unregister r n) m = (if m = n then None else get r m)"
    and wf_register: "wf r \<Longrightarrow> wf (register r n c)"
    and wf_unregister: "wf r \<Longrightarrow> wf (unregister r n)"
    and list_types: "wf r \<Longrightarrow> distinct (list_types r) \<and> set (list_types r) = {n. get r n \<noteq> None}"
begin

lemma register_lists: "wf r \<Longrightarrow> set (list_types (register r n c)) = insert n (set (list_types r))"
  using list_types [OF wf_register] list_types by (auto simp: get_register)

lemma unregister_lists: "wf r \<Longrightarrow> set (list_types (unregister r n)) = set (list_types r) - {n}"
  using list_types [OF wf_unregister] list_types by (auto simp: get_unregister)

end

interpretation chreg: name_registry registry_register registry_get registry_unregister
  registry_list_types "\<lambda>r. distinct (map fst r)"
proof unfold_locales
  fix r :: "'c channel_registry"
  assume "distinct (map fst r)"
  then show "distinct (registry_list_types r)
      \<and> set (registry_list_types r) = {n. registry_get r n \<noteq> None}"
    by (auto simp: registry_list_types_def registry_get_def map_of_eq_None_iff)
qed (auto simp: registry_register_def registry_get_def registry_unregister_def map_of_reg_insert
    map_of_filter_key distinct_reg_insert distinct_map_filter)

end
