(* ===== verification/Bus_Error.thy ===== *)
theory Bus_Error
  imports Storage_Types Delivery_Channel
begin

text \<open>The error type of the event bus (\<open>lib.rs\<close>) and the texts \<open>thiserror\<close> derives for it.\<close>

datatype event_bus_error =
    Storage storage_error
  | Delivery delivery_error
  | InvalidSubject string
  | PayloadTooLarge string
  | Config string
  | RequestTimeout
  | ReplyChannelClosed
  | Internal string

fun storage_error_text :: "storage_error \<Rightarrow> string" where
  "storage_error_text (OperationFailed m) = ''storage operation failed: '' @ m"
| "storage_error_text NotFound = ''event not found''"
| "storage_error_text (DatabaseError m) = ''database error: '' @ m"

fun event_bus_error_text :: "event_bus_error \<Rightarrow> string" where
  "event_bus_error_text (Storage e) = ''storage error: '' @ storage_error_text e"
| "event_bus_error_text (Delivery e) = ''delivery error: '' @ delivery_error_text e"
| "event_bus_error_text (InvalidSubject m) = ''invalid subject: '' @ m"
| "event_bus_error_text (PayloadTooLarge m) = ''payload too large: '' @ m"
| "event_bus_error_text (Config m) = ''configuration error: '' @ m"
| "event_bus_error_text RequestTimeout = ''request timed out''"
| "event_bus_error_text ReplyChannelClosed = ''reply channel closed''"
| "event_bus_error_text (Internal m) = ''internal error: '' @ m"

end
