(* ===== verification/Subject_Index.thy ===== *)
theory Subject_Index
  imports Event_Filter Bus_Error
begin

text \<open>
  The subject index (\<open>dispatch/subject_index.rs\<close>): subscriptions in a trie over the tokens of
  their subject pattern, with \<open>*\<close> for one token and a final \<open>>\<close> for one or more. The
  children of a node are a \<open>HashMap\<close>: an association list without repeated keys, whose order
  stands for the unspecified iteration order. The index is shown to be a router: \<open>lookup\<close>
  returns exactly the subscriptions whose pattern matches, in priority order.
\<close>

section \<open>Entries and nodes\<close>

datatype subscription_mode = Sync | Async

record 'j subscription_entry =
  entry_id :: string
  subject_pattern :: string
  priority :: u32
  mode :: subscription_mode
  channel :: "'j channel_config"
  timeout :: duration
  entry_filter :: "'j event_filter option"

datatype 'e trie_node =
  TrieNode (subscriptions: "'e list") (children: "(string \<times> 'e trie_node) list")
    (wildcard: "'e trie_node option") (terminal_wildcard: "'e list")

definition MAX_SUBJECT_DEPTH :: nat where
  "MAX_SUBJECT_DEPTH = 256"

definition new_node :: "'e trie_node" where
  "new_node = TrieNode [] [] None []"

definition is_empty_node :: "'e trie_node \<Rightarrow> bool" where
  "is_empty_node n \<longleftrightarrow>
     subscriptions n = [] \<and> children n = [] \<and> wildcard n = None \<and> terminal_wildcard n = []"

abbreviation tokens_of :: "string \<Rightarrow> string list" where
  "tokens_of s \<equiv> split_on CHR ''.'' s"

section \<open>Operations\<close>

text \<open>\<open>insert(node, tokens, depth, entry)\<close>: the list argument is the rest of the tokens from
  \<open>depth\<close> on.\<close>

fun trie_insert :: "'e trie_node \<Rightarrow> string list \<Rightarrow> 'e \<Rightarrow> 'e trie_node" where
  "trie_insert (TrieNode subs ch wild term) [] entry = TrieNode (subs @ [entry]) ch wild term"
| "trie_insert (TrieNode subs ch wild term) (token # rest) entry =
     (if token = ''>'' then TrieNode subs ch wild (term @ [entry])
      else if token = ''*'' then
        TrieNode subs ch
          (Some (trie_insert (case wild of None \<Rightarrow> new_node | Some w \<Rightarrow> w) rest entry)) term
      else
        TrieNode subs
          (reg_insert token
             (trie_insert (case map_of ch token of None \<Rightarrow> new_node | Some c \<Rightarrow> c) rest entry) ch)
          wild term)"

definition index_subscribe ::
  "'j subscription_entry trie_node \<Rightarrow> 'j subscription_entry
   \<Rightarrow> event_bus_error + 'j subscription_entry trie_node" where
  "index_subscribe root entry =
     (let tokens = tokens_of (subject_pattern entry) in
      if length tokens > MAX_SUBJECT_DEPTH then
        Inl (InvalidSubject ''subject pattern exceeds maximum depth of 256 tokens'')
      else if list_ex (\<lambda>t. t = []) tokens then
        Inl (InvalidSubject ''subject pattern contains empty tokens (check for consecutive dots or leading/trailing dots)'')
      else if list_ex (\<lambda>i. tokens ! i = ''>'' \<and> i \<noteq> length tokens - 1) [0..<length tokens] then
        Inl (InvalidSubject ''`>` wildcard must be the final token in the pattern'')
      else Inr (trie_insert root tokens entry))"

lemma trie_child_size [termination_simp]:
  "p \<in> set ch \<Longrightarrow> size (snd p) < Suc (size_list (size_prod (\<lambda>_. 0) size) ch + b)"
  by (induction ch) auto

text \<open>\<open>remove(node, id)\<close>: every list is filtered, emptied subtrees are pruned.\<close>

fun trie_remove :: "string \<Rightarrow> 'j subscription_entry trie_node \<Rightarrow> 'j subscription_entry trie_node" where
  "trie_remove i (TrieNode subs ch wild term) =
     TrieNode (filter (\<lambda>e. entry_id e \<noteq> i) subs)
       (filter (\<lambda>p. \<not> is_empty_node (snd p)) (map (\<lambda>p. (fst p, trie_remove i (snd p))) ch))
       (case wild of None \<Rightarrow> None
        | Some w \<Rightarrow> (if is_empty_node (trie_remove i w) then None else Some (trie_remove i w)))
       (filter (\<lambda>e. entry_id e \<noteq> i) term)"

definition index_unsubscribe ::
  "'j subscription_entry trie_node \<Rightarrow> string \<Rightarrow> 'j subscription_entry trie_node" where
  "index_unsubscribe root i = trie_remove i root"

text \<open>\<open>collect(node, tokens, depth, results)\<close>, the results in the order they are pushed.\<close>

fun trie_collect :: "'e trie_node \<Rightarrow> string list \<Rightarrow> 'e list" where
  "trie_collect (TrieNode subs ch wild term) [] = subs"
| "trie_collect (TrieNode subs ch wild term) (token # rest) =
     term
     @ (case map_of ch token of None \<Rightarrow> [] | Some c \<Rightarrow> trie_collect c rest)
     @ (case wild of None \<Rightarrow> [] | Some w \<Rightarrow> trie_collect w rest)"

definition index_lookup ::
  "'j subscription_entry trie_node \<Rightarrow> string \<Rightarrow> 'j subscription_entry list" where
  "index_lookup root subj = sort_key priority (trie_collect root (tokens_of subj))"

fun trie_collect_all ::
  "'j subscription_entry trie_node \<Rightarrow> string option \<Rightarrow> 'j subscription_entry list" where
  "trie_collect_all (TrieNode subs ch wild term) flt =
     (let ok = (\<lambda>e. case flt of None \<Rightarrow> True | Some f \<Rightarrow> subject_pattern e = f) in
      filter ok subs @ filter ok term
      @ concat (map (\<lambda>p. trie_collect_all (snd p) flt) ch)
      @ (case wild of None \<Rightarrow> [] | Some w \<Rightarrow> trie_collect_all w flt))"

definition index_list ::
  "'j subscription_entry trie_node \<Rightarrow> string option \<Rightarrow> 'j subscription_entry list" where
  "index_list root flt = trie_collect_all root flt"

text \<open>\<open>find_by_id_inner\<close>: the out-parameter is the result so far, kept once it is set.\<close>

fun find_by_id_inner ::
  "string \<Rightarrow> 'j subscription_entry trie_node \<Rightarrow> 'j subscription_entry option
   \<Rightarrow> 'j subscription_entry option" where
  "find_by_id_inner i (TrieNode subs ch wild term) out =
     (if out \<noteq> None then out
      else case find (\<lambda>e. entry_id e = i) subs of
        Some e \<Rightarrow> Some e
      | None \<Rightarrow>
        (case find (\<lambda>e. entry_id e = i) term of
           Some e \<Rightarrow> Some e
         | None \<Rightarrow>
           (let found = fold (\<lambda>p acc. find_by_id_inner i (snd p) acc) ch None in
            if found \<noteq> None then found
            else case wild of None \<Rightarrow> None | Some w \<Rightarrow> find_by_id_inner i w None)))"

definition index_find_by_id ::
  "'j subscription_entry trie_node \<Rightarrow> string \<Rightarrow> 'j subscription_entry option" where
  "index_find_by_id root i = find_by_id_inner i root None"

section \<open>Matching, as the patterns read\<close>

text \<open>The meaning of a pattern: \<open>*\<close> stands for exactly one token, \<open>>\<close> for one or more.\<close>

fun pattern_matches :: "string list \<Rightarrow> string list \<Rightarrow> bool" where
  "pattern_matches [] subj = (subj = [])"
| "pattern_matches (p # ps) [] = False"
| "pattern_matches (p # ps) (t # ts) =
     (p = ''>'' \<or> ((p = ''*'' \<or> p = t) \<and> pattern_matches ps ts))"

definition entry_matches :: "string \<Rightarrow> 'j subscription_entry \<Rightarrow> bool" where
  "entry_matches subj e = pattern_matches (tokens_of (subject_pattern e)) (tokens_of subj)"

definition valid_pattern :: "string \<Rightarrow> bool" where
  "valid_pattern pat \<longleftrightarrow> length (tokens_of pat) \<le> MAX_SUBJECT_DEPTH \<and> [] \<notin> set (tokens_of pat)
     \<and> ''>'' \<notin> set (butlast (tokens_of pat))"

section \<open>The trie as a router\<close>

fun trie_wf :: "'e trie_node \<Rightarrow> bool" where
  "trie_wf (TrieNode subs ch wild term) \<longleftrightarrow>
     distinct (map fst ch) \<and> (\<forall>p \<in> set ch. trie_wf (snd p))
     \<and> (case wild of None \<Rightarrow> True | Some w \<Rightarrow> trie_wf w)"

text \<open>Every stored entry is found on exactly the subjects its own pattern matches.\<close>

definition routed :: "'j subscription_entry trie_node \<Rightarrow> bool" where
  "routed n \<longleftrightarrow> (\<forall>ts. mset (trie_collect n ts)
     = filter_mset (\<lambda>e. pattern_matches (tokens_of (subject_pattern e)) ts)
         (mset (trie_collect_all n None)))"

definition index_wf :: "'j subscription_entry trie_node \<Rightarrow> bool" where
  "index_wf n \<longleftrightarrow> trie_wf n \<and> routed n"

definition index_entries :: "'j subscription_entry trie_node \<Rightarrow> 'j subscription_entry multiset" where
  "index_entries n = mset (trie_collect_all n None)"

lemma collect_new_node [simp]: "trie_collect new_node ts = []"
  by (cases ts) (simp_all add: new_node_def)

lemma collect_all_new_node [simp]: "trie_collect_all new_node f = []"
  by (simp add: new_node_def)

lemma wf_new_node [simp]: "trie_wf new_node"
  by (simp add: new_node_def)

lemma collect_insert:
  "mset (trie_collect (trie_insert n toks e) ts) =
     mset (trie_collect n ts) + (if pattern_matches toks ts then {#e#} else {#})"
proof (induction n toks e arbitrary: ts rule: trie_insert.induct)
  case (1 subs ch wild tm entry)
  then show ?case by (cases ts) auto
next
  case (2 subs ch wild tm token rest entry)
  show ?case
  proof (cases ts)
    case (Cons t us)
    then show ?thesis
      using 2 by (auto simp: map_of_reg_insert split: option.splits)
  qed (use 2 in auto)
qed

lemma mset_concat_reg_insert:
  "distinct (map fst ch) \<Longrightarrow>
   mset (concat (map (\<lambda>p. f (snd p)) (reg_insert k v ch))) + mset (case map_of ch k of None \<Rightarrow> [] | Some c \<Rightarrow> f c) =
     mset (concat (map (\<lambda>p. f (snd p)) ch)) + mset (f v)"
  by (induction k v ch rule: reg_insert.induct) (auto simp: map_of_eq_None_iff split: option.splits)

lemma collect_all_insert:
  "trie_wf n \<Longrightarrow> mset (trie_collect_all (trie_insert n toks e) None) = mset (trie_collect_all n None) + {#e#}"
proof (induction n toks e rule: trie_insert.induct)
  case (2 subs ch wild tm token rest entry)
  show ?case
  proof (cases "token = ''>'' \<or> token = ''*''")
    case True
    then show ?thesis using 2 by (auto split: option.splits)
  next
    case False
    let ?c = "case map_of ch token of None \<Rightarrow> new_node | Some c \<Rightarrow> c"
    have "trie_wf ?c"
      using 2 by (auto split: option.splits dest!: map_of_SomeD)
    then have "mset (trie_collect_all (trie_insert ?c rest entry) None) =
        mset (trie_collect_all ?c None) + {#entry#}"
      using 2 False by auto
    moreover have "(case map_of ch token of None \<Rightarrow> [] | Some c \<Rightarrow> trie_collect_all c None) = trie_collect_all ?c None"
      by (auto split: option.splits)
    ultimately show ?thesis
      using False 2 mset_concat_reg_insert [of ch "\<lambda>n. trie_collect_all n None" token "trie_insert ?c rest entry"]
      by (auto simp: add.assoc add.left_commute)
  qed
qed simp

lemma reg_insert_all:
  "\<forall>p \<in> set ch. P (snd p) \<Longrightarrow> P v \<Longrightarrow> \<forall>p \<in> set (reg_insert k v ch). P (snd p)"
  by (induction k v ch rule: reg_insert.induct) auto

lemma wf_insert: "trie_wf n \<Longrightarrow> trie_wf (trie_insert n toks e)"
proof (induction n toks e rule: trie_insert.induct)
  case (2 subs ch wild tm token rest entry)
  let ?c = "case map_of ch token of None \<Rightarrow> new_node | Some c \<Rightarrow> c"
  have "trie_wf ?c"
    using 2 by (auto split: option.splits dest!: map_of_SomeD)
  then have "\<forall>p \<in> set (reg_insert token (trie_insert ?c rest entry) ch). trie_wf (snd p)"
    if "token \<noteq> ''>''" and "token \<noteq> ''*''"
    using 2 that by (intro reg_insert_all) auto
  with 2 show ?case
    by (simp add: distinct_reg_insert split: option.splits)
qed simp

lemma collect_empty_node: "is_empty_node n \<Longrightarrow> trie_collect n ts = []"
  by (cases n; cases ts) (auto simp: is_empty_node_def)

lemma collect_all_empty_node: "is_empty_node n \<Longrightarrow> trie_collect_all n f = []"
  by (cases n) (auto simp: is_empty_node_def)

lemma map_of_prune:
  "distinct (map fst ch) \<Longrightarrow>
   map_of (filter (\<lambda>p. \<not> is_empty_node (snd p)) (map (\<lambda>p. (fst p, g (snd p))) ch)) k =
     (case map_of ch k of None \<Rightarrow> None | Some c \<Rightarrow> if is_empty_node (g c) then None else Some (g c))"
proof (induction ch)
  case (Cons p ch)
  have "map_of ch (fst p) = None"
    using Cons.prems by (auto simp: map_of_eq_None_iff)
  with Cons show ?case by (cases p) (auto split: option.splits)
qed simp

lemma collect_remove:
  "trie_wf n \<Longrightarrow> trie_collect (trie_remove i n) ts = filter (\<lambda>e. entry_id e \<noteq> i) (trie_collect n ts)"
proof (induction n ts rule: trie_collect.induct)
  case (2 subs ch wild tm token rest)
  have child: "trie_collect (trie_remove i c) rest = filter (\<lambda>e. entry_id e \<noteq> i) (trie_collect c rest)"
    if "map_of ch token = Some c" for c
    using 2 that by (force dest: map_of_SomeD)
  have wild: "trie_collect (trie_remove i w) rest = filter (\<lambda>e. entry_id e \<noteq> i) (trie_collect w rest)"
    if "wild = Some w" for w
    using 2 that by auto
  show ?case
    using 2(3) child wild
    by (auto simp: map_of_prune split: option.splits
        dest!: collect_empty_node [where ts = rest])
qed auto

lemma concat_prune:
  assumes "\<And>p. p \<in> set ch \<Longrightarrow> trie_collect_all (trie_remove i (snd p)) None = filter P (trie_collect_all (snd p) None)"
  shows "concat (map (\<lambda>p. trie_collect_all (snd p) None)
          (filter (\<lambda>p. \<not> is_empty_node (snd p)) (map (\<lambda>p. (fst p, trie_remove i (snd p))) ch)))
      = filter P (concat (map (\<lambda>p. trie_collect_all (snd p) None) ch))"
  using assms
proof (induction ch)
  case (Cons p ch)
  have "is_empty_node (trie_remove i (snd p)) \<Longrightarrow> filter P (trie_collect_all (snd p) None) = []"
    using Cons.prems [of p] collect_all_empty_node by fastforce
  with Cons show ?case by simp
qed simp

lemma collect_all_remove:
  "trie_collect_all (trie_remove i n) None = filter (\<lambda>e. entry_id e \<noteq> i) (trie_collect_all n None)"
proof (induction i n rule: trie_remove.induct)
  case (1 i subs ch wild tm)
  have w: "(case (case wild of None \<Rightarrow> None | Some w \<Rightarrow> if is_empty_node (trie_remove i w) then None
          else Some (trie_remove i w)) of None \<Rightarrow> [] | Some w \<Rightarrow> trie_collect_all w None)
      = filter (\<lambda>e. entry_id e \<noteq> i) (case wild of None \<Rightarrow> [] | Some w \<Rightarrow> trie_collect_all w None)"
  proof (cases wild)
    case (Some v)
    then show ?thesis
      using 1(2) [of v] 1(3) [of v] collect_all_empty_node [of "trie_remove i v" None] by auto
  qed simp
  show ?case
    using concat_prune [OF 1(1)] w by simp
qed

lemma wf_remove: "trie_wf n \<Longrightarrow> trie_wf (trie_remove i n)"
proof (induction i n rule: trie_remove.induct)
  case (1 i subs ch wild tm)
  have "map fst (filter (\<lambda>p. \<not> is_empty_node (snd p)) (map (\<lambda>p. (fst p, trie_remove i (snd p))) ch))
      = map fst (filter (\<lambda>p. \<not> is_empty_node (trie_remove i (snd p))) ch)"
    by (induction ch) auto
  then have "distinct (map fst (filter (\<lambda>p. \<not> is_empty_node (snd p)) (map (\<lambda>p. (fst p, trie_remove i (snd p))) ch)))"
    using 1(4) by (simp add: distinct_map_filter)
  with 1 show ?case by (auto split: option.splits)
qed

lemma collect_all_filter:
  "trie_collect_all n (Some f) = filter (\<lambda>e. subject_pattern e = f) (trie_collect_all n None)"
proof (induction n "Some f" rule: trie_collect_all.induct)
  case (1 subs ch wild tm)
  then have "concat (map (\<lambda>p. trie_collect_all (snd p) (Some f)) ch) =
      filter (\<lambda>e. subject_pattern e = f) (concat (map (\<lambda>p. trie_collect_all (snd p) None) ch))"
    by (induction ch) auto
  with 1 show ?case by (auto simp: Let_def split: option.splits)
qed

lemma find_by_id_inner_eq:
  "find_by_id_inner i n out =
     (case out of Some e \<Rightarrow> Some e | None \<Rightarrow> find (\<lambda>e. entry_id e = i) (trie_collect_all n None))"
proof (induction i n out rule: find_by_id_inner.induct)
  case (1 i subs ch wild tm out)
  have "fold (\<lambda>p acc. find_by_id_inner i (snd p) acc) ch acc =
      (case acc of Some e \<Rightarrow> Some e
       | None \<Rightarrow> find (\<lambda>e. entry_id e = i) (concat (map (\<lambda>p. trie_collect_all (snd p) None) ch)))"
    if "out = None" "find (\<lambda>e. entry_id e = i) subs = None" "find (\<lambda>e. entry_id e = i) tm = None" for acc
    using 1(1) that by (induction ch arbitrary: acc) (auto simp: find_append split: option.splits)
  then show ?case
    using 1(2) by (auto simp: find_append Let_def split: option.splits)
qed

section \<open>The contract of a subject router\<close>

text \<open>A history of calls on an index; a rejected subscription leaves it unchanged.\<close>

datatype 'j index_op = SubscribeOp "'j subscription_entry" | UnsubscribeOp string

fun router_run ::
  "('ix \<Rightarrow> 'j subscription_entry \<Rightarrow> event_bus_error + 'ix) \<Rightarrow> ('ix \<Rightarrow> string \<Rightarrow> 'ix)
   \<Rightarrow> 'j index_op list \<Rightarrow> 'ix \<Rightarrow> 'ix" where
  "router_run sub unsub [] ix = ix"
| "router_run sub unsub (SubscribeOp e # ops) ix =
     router_run sub unsub ops (case sub ix e of Inl _ \<Rightarrow> ix | Inr ix' \<Rightarrow> ix')"
| "router_run sub unsub (UnsubscribeOp i # ops) ix = router_run sub unsub ops (unsub ix i)"

text \<open>The specification: the live subscriptions as a multiset.\<close>

fun live_entries ::
  "'j index_op list \<Rightarrow> 'j subscription_entry multiset \<Rightarrow> 'j subscription_entry multiset" where
  "live_entries [] M = M"
| "live_entries (SubscribeOp e # ops) M =
     live_entries ops (if valid_pattern (subject_pattern e) then add_mset e M else M)"
| "live_entries (UnsubscribeOp i # ops) M = live_entries ops (filter_mset (\<lambda>e. entry_id e \<noteq> i) M)"

locale subject_router =
  fixes empty :: 'ix
    and sub :: "'ix \<Rightarrow> 'j subscription_entry \<Rightarrow> event_bus_error + 'ix"
    and unsub :: "'ix \<Rightarrow> string \<Rightarrow> 'ix"
    and look :: "'ix \<Rightarrow> string \<Rightarrow> 'j subscription_entry list"
    and lst :: "'ix \<Rightarrow> string option \<Rightarrow> 'j subscription_entry list"
    and find_id :: "'ix \<Rightarrow> string \<Rightarrow> 'j subscription_entry option"
    and wf :: "'ix \<Rightarrow> bool"
    and entries :: "'ix \<Rightarrow> 'j subscription_entry multiset"
  assumes empty_law: "wf empty" "entries empty = {#}"
    and sub_law: "wf ix \<Longrightarrow> valid_pattern (subject_pattern e) \<Longrightarrow>
      \<exists>ix'. sub ix e = Inr ix' \<and> wf ix' \<and> entries ix' = add_mset e (entries ix)"
    and sub_reject: "\<not> valid_pattern (subject_pattern e) \<Longrightarrow> \<exists>m. sub ix e = Inl (InvalidSubject m)"
    and unsub_law: "wf ix \<Longrightarrow> wf (unsub ix i)"
      "wf ix \<Longrightarrow> entries (unsub ix i) = filter_mset (\<lambda>e. entry_id e \<noteq> i) (entries ix)"
    and look_law: "wf ix \<Longrightarrow> mset (look ix s) = filter_mset (entry_matches s) (entries ix)"
    and look_sorted: "sorted (map priority (look ix s))"
    and lst_law: "mset (lst ix flt) =
      filter_mset (\<lambda>e. case flt of None \<Rightarrow> True | Some p \<Rightarrow> subject_pattern e = p) (entries ix)"
    and find_law: "find_id ix i = Some e \<Longrightarrow> e \<in># entries ix \<and> entry_id e = i"
    and find_none: "find_id ix i = None \<longleftrightarrow> (\<forall>e. e \<in># entries ix \<longrightarrow> entry_id e \<noteq> i)"
begin

lemma run_spec:
  "wf ix \<Longrightarrow> wf (router_run sub unsub ops ix)
     \<and> entries (router_run sub unsub ops ix) = live_entries ops (entries ix)"
proof (induction ops arbitrary: ix)
  case (Cons op ops)
  show ?case
  proof (cases op)
    case (SubscribeOp e)
    show ?thesis
    proof (cases "valid_pattern (subject_pattern e)")
      case True
      obtain ix' where "sub ix e = Inr ix'" "wf ix'" "entries ix' = add_mset e (entries ix)"
        using sub_law [OF Cons.prems True] by blast
      with Cons.IH SubscribeOp True show ?thesis by simp
    next
      case False
      then obtain m where "sub ix e = Inl (InvalidSubject m)"
        using sub_reject by blast
      with Cons SubscribeOp False show ?thesis by simp
    qed
  next
    case (UnsubscribeOp i)
    with Cons unsub_law [OF Cons.prems] show ?thesis by simp
  qed
qed simp

lemma run_from_empty:
  "wf (router_run sub unsub ops empty)"
  "entries (router_run sub unsub ops empty) = live_entries ops {#}"
  using run_spec [OF empty_law(1)] by (simp_all add: empty_law(2))

lemma lookup_run:
  "mset (look (router_run sub unsub ops empty) s) = filter_mset (entry_matches s) (live_entries ops {#})"
  by (simp add: look_law run_from_empty)

lemma list_run:
  "mset (lst (router_run sub unsub ops empty) flt) =
     filter_mset (\<lambda>e. case flt of None \<Rightarrow> True | Some p \<Rightarrow> subject_pattern e = p) (live_entries ops {#})"
  by (simp add: lst_law run_from_empty)

lemma find_run:
  "(case find_id (router_run sub unsub ops empty) i of
      Some e \<Rightarrow> e \<in># live_entries ops {#} \<and> entry_id e = i
    | None \<Rightarrow> i \<notin> entry_id ` set_mset (live_entries ops {#}))"
  using find_law find_none by (fastforce simp: run_from_empty split: option.splits)

end

lemma butlast_index:
  "x \<in> set (butlast xs) \<longleftrightarrow> (\<exists>i < length xs. xs ! i = x \<and> i \<noteq> length xs - 1)"
proof -
  have "x \<in> set (butlast xs) \<longleftrightarrow> (\<exists>i < length xs - 1. xs ! i = x)"
    by (auto simp: in_set_conv_nth nth_butlast)
  also have "\<dots> \<longleftrightarrow> (\<exists>i < length xs. xs ! i = x \<and> i \<noteq> length xs - 1)"
  proof -
    have "i < length xs - 1 \<longleftrightarrow> i < length xs \<and> i \<noteq> length xs - 1" for i
      by linarith
    then show ?thesis by blast
  qed
  finally show ?thesis .
qed

lemma subscribe_valid:
  "valid_pattern (subject_pattern e) \<Longrightarrow>
     index_subscribe root e = Inr (trie_insert root (tokens_of (subject_pattern e)) e)"
  by (auto simp: valid_pattern_def index_subscribe_def Let_def list_ex_iff butlast_index)

lemma subscribe_invalid:
  "\<not> valid_pattern (subject_pattern e) \<Longrightarrow> \<exists>m. index_subscribe root e = Inl (InvalidSubject m)"
  by (auto simp: valid_pattern_def index_subscribe_def Let_def list_ex_iff butlast_index)

interpretation ix: subject_router new_node index_subscribe index_unsubscribe index_lookup index_list
  index_find_by_id index_wf index_entries
proof
  show "index_wf (new_node :: 'a subscription_entry trie_node)"
    by (simp add: index_wf_def routed_def)
  show "index_entries (new_node :: 'a subscription_entry trie_node) = {#}"
    by (simp add: index_entries_def)
next
  fix n :: "'a subscription_entry trie_node" and e :: "'a subscription_entry"
  assume wf: "index_wf n" and v: "valid_pattern (subject_pattern e)"
  let ?n' = "trie_insert n (tokens_of (subject_pattern e)) e"
  have ent: "index_entries ?n' = add_mset e (index_entries n)"
    using wf by (simp add: index_entries_def index_wf_def collect_all_insert)
  have "routed ?n'"
    unfolding routed_def
  proof
    fix ts
    show "mset (trie_collect ?n' ts) = filter_mset
        (\<lambda>e. pattern_matches (tokens_of (subject_pattern e)) ts) (mset (trie_collect_all ?n' None))"
      using wf ent by (simp add: collect_insert index_entries_def index_wf_def routed_def)
  qed
  with wf ent subscribe_valid [OF v, of n]
  show "\<exists>ix'. index_subscribe n e = Inr ix' \<and> index_wf ix' \<and> index_entries ix' = add_mset e (index_entries n)"
    by (simp add: index_wf_def wf_insert)
next
  fix n :: "'a subscription_entry trie_node" and i
  assume wf: "index_wf n"
  show "index_entries (index_unsubscribe n i) = filter_mset (\<lambda>e. entry_id e \<noteq> i) (index_entries n)"
    by (simp add: index_entries_def index_unsubscribe_def collect_all_remove mset_filter)
  show "index_wf (index_unsubscribe n i)"
    using wf by (auto simp: index_wf_def routed_def index_unsubscribe_def wf_remove collect_remove
        collect_all_remove mset_filter filter_filter_mset conj_commute)
next
  fix n :: "'a subscription_entry trie_node" and s
  assume "index_wf n"
  then show "mset (index_lookup n s) = filter_mset (entry_matches s) (index_entries n)"
    by (simp add: index_wf_def routed_def index_lookup_def index_entries_def entry_matches_def [abs_def])
next
  fix n :: "'a subscription_entry trie_node" and flt
  show "mset (index_list n flt) =
      filter_mset (\<lambda>e. case flt of None \<Rightarrow> True | Some p \<Rightarrow> subject_pattern e = p) (index_entries n)"
    by (cases flt) (simp_all add: index_list_def index_entries_def collect_all_filter mset_filter)
qed (auto simp: subscribe_invalid index_lookup_def index_find_by_id_def find_by_id_inner_eq
    index_entries_def find_None_iff dest: find_Some_mem)

section \<open>Properties\<close>

text \<open>C8. After any history of \<open>subscribe\<close> and \<open>unsubscribe\<close> calls on a new index, \<open>lookup\<close>
  returns exactly the live subscriptions whose pattern matches the subject (each as often as it
  was registered, nothing else), in ascending priority; a subscription is live when its pattern is
  valid and its id was not removed since.\<close>

theorem index_lookup_exact:
  "mset (index_lookup (router_run index_subscribe index_unsubscribe ops new_node) subj)
     = filter_mset (entry_matches subj) (live_entries ops {#})
   \<and> sorted (map priority (index_lookup (router_run index_subscribe index_unsubscribe ops new_node) subj))"
  by (simp add: ix.lookup_run ix.look_sorted)

text \<open>\<open>subscribe\<close> accepts an entry exactly when its pattern has at most 256 tokens, none of
  them empty, and \<open>>\<close> nowhere but in the last place, and then the entry is added to the result of
  \<open>lookup\<close> on exactly the subjects its pattern matches, and nothing else changes; every rejection
  is an \<open>InvalidSubject\<close>.\<close>

theorem index_subscribe_effect:
  "(case index_subscribe root e of
      Inr root' \<Rightarrow> valid_pattern (subject_pattern e)
        \<and> (\<forall>s. mset (index_lookup root' s)
             = mset (index_lookup root s) + (if entry_matches s e then {#e#} else {#}))
    | Inl err \<Rightarrow> \<not> valid_pattern (subject_pattern e) \<and> (\<exists>m. err = InvalidSubject m))"
proof (cases "valid_pattern (subject_pattern e)")
  case True
  then show ?thesis
    by (simp add: subscribe_valid index_lookup_def collect_insert entry_matches_def)
next
  case False
  then show ?thesis
    using subscribe_invalid [OF False, of root] by auto
qed

text \<open>After any history, \<open>list\<close> returns the live subscriptions (those with the given pattern
  when a filter is passed), and \<open>find_by_id\<close> returns a live subscription with that id, or
  nothing exactly when there is none.\<close>

theorem index_list_and_find:
  "mset (index_list (router_run index_subscribe index_unsubscribe ops new_node) flt)
     = filter_mset (\<lambda>e. case flt of None \<Rightarrow> True | Some p \<Rightarrow> subject_pattern e = p) (live_entries ops {#})
   \<and> (case index_find_by_id (router_run index_subscribe index_unsubscribe ops new_node) i of
        Some e \<Rightarrow> e \<in># live_entries ops {#} \<and> entry_id e = i
      | None \<Rightarrow> i \<notin> entry_id ` set_mset (live_entries ops {#}))"
  using ix.list_run ix.find_run by blast

definition demo_entry :: "string \<Rightarrow> string \<Rightarrow> u32 \<Rightarrow> subscription_mode \<Rightarrow> 'j subscription_entry" where
  "demo_entry i pat prio md =
     \<lparr>entry_id = i, subject_pattern = pat, priority = prio, mode = md, channel = InProcess,
      timeout = from_secs 5, entry_filter = None\<rparr>"

text \<open>Equal priorities are not served in insertion order when the patterns differ: an exact
  pattern registered first comes after a \<open>>\<close> pattern registered second.\<close>

theorem equal_priority_not_insertion_order:
  "map entry_id (index_lookup
     (router_run index_subscribe index_unsubscribe
        [SubscribeOp (demo_entry ''first'' ''a.b'' 10 Sync), SubscribeOp (demo_entry ''second'' ''a.>'' 10 Sync)]
        new_node) ''a.b'') = [''second'', ''first'']"
  by (simp add: demo_entry_def index_subscribe_def index_lookup_def new_node_def MAX_SUBJECT_DEPTH_def upt_rec)

end
