(* ===== verification/Retry_Policy.thy ===== *)
theory Retry_Policy
  imports Prelude
begin

text \<open>
  The backoff of a failed delivery (\<open>delivery/retry.rs\<close>): \<open>RetryConfig\<close>, \<open>calculate_backoff\<close> and
  \<open>next_retry_after\<close>. The random number generator is the crate rand: \<open>rnd n\<close> is the value of
  \<open>random_range(0..n)\<close>, which lies below \<open>n\<close>.
\<close>

record retry_config =
  max_attempts :: u32
  initial_backoff_ms :: u64
  max_backoff_ms :: u64

definition default_retry_config :: retry_config where
  "default_retry_config = \<lparr>max_attempts = 5, initial_backoff_ms = 100, max_backoff_ms = 30000\<rparr>"

definition from_millis :: "u64 \<Rightarrow> duration" where
  "from_millis ms = unat ms * 1000000"

definition calculate_backoff :: "(u64 \<Rightarrow> u64) \<Rightarrow> u32 \<Rightarrow> u64 \<Rightarrow> u64 \<Rightarrow> duration" where
  "calculate_backoff rnd attempt initial_ms max_ms =
     (let e = saturating_sub attempt 1;
          base_ms = saturating_mul initial_ms (saturating_pow 2 e);
          capped_ms = min base_ms max_ms;
          jitter_range = max (capped_ms div 4) 1;
          jitter_ms = rnd jitter_range
      in from_millis (capped_ms - jitter_ms))"

definition next_retry_after :: "(u64 \<Rightarrow> u64) \<Rightarrow> u64 \<Rightarrow> u32 \<Rightarrow> retry_config \<Rightarrow> u64" where
  "next_retry_after rnd now attempts config =
     now + of_nat (as_millis
       (calculate_backoff rnd attempts (initial_backoff_ms config) (max_backoff_ms config)))"

lemma as_millis_from_millis [simp]: "as_millis (from_millis ms) = unat ms"
  by (simp add: as_millis_def from_millis_def)

definition backoff_cap :: "u32 \<Rightarrow> u64 \<Rightarrow> u64 \<Rightarrow> nat" where
  "backoff_cap a i m = min (unat i * 2 ^ (unat a - 1)) (unat m)"

text \<open>The saturating arithmetic computes the exact cap.\<close>

lemma saturated_cap:
  fixes i p m B :: nat
  assumes "m \<le> B"
  shows "min (min (i * min p B) B) m = min (i * p) m"
proof (cases "i = 0 \<or> p \<le> B")
  case False
  then have "B \<le> i * B" and "B \<le> i * p" and "min p B = B"
    by (auto intro: order_trans [of B "1 * B"] order_trans [of B "1 * p"] mult_le_mono1)
  with assms show ?thesis by simp
qed (use assms in \<open>auto simp: min_def\<close>)

lemma capped_exact:
  "unat (min (saturating_mul i (saturating_pow 2 (saturating_sub a 1))) m)
   = min (unat i * 2 ^ (unat a - 1)) (unat m)"
proof -
  have m: "unat m \<le> 2 ^ 64 - 1"
    using unsigned_less [of m, where ?'a = nat] by simp
  have "unat (saturating_mul i (saturating_pow 2 (saturating_sub a 1)))
      = min (unat i * min (2 ^ (unat a - 1)) (2 ^ 64 - 1)) (2 ^ 64 - 1)"
    by (simp add: unat_saturating_mul unat_saturating_pow unat_saturating_sub)
  moreover have "unat (min x m) = min (unat x) (unat m)" for x
    by (simp add: min_def word_le_nat_alt)
  ultimately show ?thesis
    using saturated_cap [OF m, of "unat i" "2 ^ (unat a - 1)"] by (simp only:)
qed

section \<open>Properties\<close>

text \<open>C11. The backoff before attempt \<open>n\<close> never underflows and stays within a quarter below
  \<open>min(initial * 2^(n-1), max)\<close>, computed without overflow, whatever the random generator returns
  within its range.\<close>

theorem backoff_bounds:
  assumes "\<And>n. 0 < n \<Longrightarrow> rnd n < n"
  shows "backoff_cap attempt initial_ms max_ms - backoff_cap attempt initial_ms max_ms div 4
           \<le> as_millis (calculate_backoff rnd attempt initial_ms max_ms)
       \<and> as_millis (calculate_backoff rnd attempt initial_ms max_ms) \<le> backoff_cap attempt initial_ms max_ms"
proof -
  let ?c = "min (saturating_mul initial_ms (saturating_pow 2 (saturating_sub attempt 1))) max_ms"
  let ?j = "rnd (max (?c div 4) 1)"
  have c: "unat ?c = backoff_cap attempt initial_ms max_ms"
    unfolding backoff_cap_def by (rule capped_exact)
  have range: "unat (max (?c div 4) 1) = max (unat ?c div 4) 1"
    by (simp add: max_def word_le_nat_alt unat_div)
  have "?j < max (?c div 4) 1"
    by (rule assms(1)) (simp add: less_max_iff_disj)
  then have j: "unat ?j < max (unat ?c div 4) 1"
    by (simp only: word_less_nat_alt range)
  then have jq: "unat ?j \<le> unat ?c div 4"
    by (simp add: max_def split: if_splits)
  then have "unat ?j \<le> unat ?c"
    using div_le_dividend order_trans by blast
  then have "unat (?c - ?j) = unat ?c - unat ?j"
    by (simp add: unat_sub word_le_nat_alt)
  moreover have "as_millis (calculate_backoff rnd attempt initial_ms max_ms) = unat (?c - ?j)"
    by (simp add: calculate_backoff_def Let_def)
  ultimately show ?thesis
    using c jq by (simp add: diff_le_mono2)
qed

theorem backoff_bounds_witness:
  "as_millis (calculate_backoff (\<lambda>n. n - 1) 3 100 30000) \<le> 400
   \<and> 300 \<le> as_millis (calculate_backoff (\<lambda>n. n - 1) 3 100 30000)"
proof -
  have "n - 1 < n" if "0 < n" for n :: u64
    using that by (simp add: word_less_nat_alt unat_sub word_le_nat_alt)
  then show ?thesis
    using backoff_bounds [of "\<lambda>n. n - 1" 3 100 30000] by (simp add: backoff_cap_def)
qed

end
