(* ===== verification/Dispatch_Engine.thy ===== *)
theory Dispatch_Engine
  imports Subject_Index Retry_Policy
begin

text \<open>
  The dispatch engine (\<open>dispatch/engine.rs\<close>): a published event is persisted, resolved against
  the index, filtered, run through the chain of sync interceptors, fanned out to the async
  subscribers and finalised. The engine is generic in its store (the trait \<open>EventStore\<close>). The
  tokio runtime and the world outside the bus are a type variable \<open>'w\<close> with operations in the
  environment: channels, the task that runs an interceptor under a timeout, the clock, the
  random generator, fresh ULIDs and the webhook client. A dispatch is one sequence of steps;
  interleavings of several dispatches are not modelled.
\<close>

section \<open>Data\<close>

record dispatched_event =
  de_payload :: bytes
  de_reply_subject :: "string option"
  de_subject :: string
  de_seq :: u64

datatype intercept_result = Modified | Pass | Drop

text \<open>What \<open>timeout(d, spawn(...)).await\<close> yields: the task finished with a result and the payload
  it left, panicked, was cancelled, or the timeout fired.\<close>

datatype join_outcome = Finished intercept_result bytes | Panicked | Cancelled | TimedOut

datatype try_send_error = ChFull | ChClosed

definition DEFAULT_CHANNEL_CAPACITY :: nat where "DEFAULT_CHANNEL_CAPACITY = 8192"
definition MAX_SUBJECT_LENGTH :: nat where "MAX_SUBJECT_LENGTH = 512"
definition MAX_PAYLOAD_SIZE :: nat where "MAX_PAYLOAD_SIZE = 512 * 1024 * 1024"
definition DEFAULT_INTERCEPTOR_TIMEOUT :: duration where "DEFAULT_INTERCEPTOR_TIMEOUT = from_secs 5"
definition MAX_INTERCEPTORS_PER_SUBJECT :: nat where "MAX_INTERCEPTORS_PER_SUBJECT = 100"

record ('j, 'tx, 'i) dispatch_state =
  ds_index :: "'j subscription_entry trie_node"
  ds_senders :: "string \<rightharpoonup> 'tx"
  ds_interceptors :: "string \<rightharpoonup> 'i"

record ('s, 'j, 'tx, 'i, 'w) engine =
  en_store :: 's
  en_state :: "('j, 'tx, 'i) dispatch_state"
  en_events_published :: u64
  en_events_delivered :: u64
  en_registry :: "('j, 'w) delivery_channel channel_registry"
  en_world :: 'w

record ('s, 'j, 'tx, 'i, 'w) engine_env =
  ee_store :: "'s store_ops"
  ee_json :: "'j json_ops"
  ee_retry_config :: retry_config
  ee_retry_enabled :: bool
  ee_now :: "'w \<Rightarrow> u64"
  ee_rand :: "'w \<Rightarrow> u64 \<Rightarrow> u64"
  ee_ulid :: "'w \<Rightarrow> string \<times> 'w"
  ee_channel :: "nat \<Rightarrow> 'w \<Rightarrow> 'tx \<times> 'w"
  ee_try_send :: "'tx \<Rightarrow> dispatched_event \<Rightarrow> 'w \<Rightarrow> (try_send_error + unit) \<times> 'w"
  ee_send_error_text :: "try_send_error \<Rightarrow> string"
  ee_intercept :: "'i \<Rightarrow> duration \<Rightarrow> string \<Rightarrow> u64 \<Rightarrow> u64 \<Rightarrow> bytes \<Rightarrow> 'w \<Rightarrow> join_outcome \<times> 'w"
  ee_webhook :: "('j, 'w) delivery_channel"

definition new_dispatch_state :: "('j, 'tx, 'i) dispatch_state" where
  "new_dispatch_state = \<lparr>ds_index = new_node, ds_senders = Map.empty, ds_interceptors = Map.empty\<rparr>"

definition with_components ::
  "'s \<Rightarrow> ('j, 'w) delivery_channel channel_registry \<Rightarrow> 'w \<Rightarrow> ('s, 'j, 'tx, 'i, 'w) engine" where
  "with_components store registry w =
     \<lparr>en_store = store, en_state = new_dispatch_state, en_events_published = 0,
      en_events_delivered = 0, en_registry = registry, en_world = w\<rparr>"

section \<open>Validation\<close>

definition validate_subject :: "string \<Rightarrow> event_bus_error + unit" where
  "validate_subject subj =
     (if subj = [] then Inl (InvalidSubject ''subject must not be empty'')
      else if length subj > MAX_SUBJECT_LENGTH then
        Inl (InvalidSubject ''subject exceeds maximum length of 512 bytes'')
      else if list_ex (\<lambda>c. c = CHR 0x00) subj then
        Inl (InvalidSubject ''subject must not contain null bytes'')
      else Inr ())"

definition validate_payload :: "bytes \<Rightarrow> event_bus_error + unit" where
  "validate_payload payload =
     (if length payload > MAX_PAYLOAD_SIZE then
        Inl (PayloadTooLarge ''payload exceeds maximum size of 536870912 bytes'')
      else Inr ())"

section \<open>Dispatch\<close>

text \<open>The closure \<open>try_record\<close>: the counter, the retry time of a first failure, and the record,
  whose storage error is only logged.\<close>

definition try_record ::
  "('s, 'j, 'tx, 'i, 'w) engine_env \<Rightarrow> bool \<Rightarrow> u64 \<Rightarrow> string \<Rightarrow> delivery_status \<Rightarrow> string option
   \<Rightarrow> ('s, 'j, 'tx, 'i, 'w) engine \<Rightarrow> ('s, 'j, 'tx, 'i, 'w) engine" where
  "try_record E is_reply seq sub_id status err en =
     (let en = (if status = DlDelivered
                then en\<lparr>en_events_delivered := en_events_delivered en + 1\<rparr> else en);
          now = ee_now E (en_world en);
          next_retry = (if status = DlFailed
                        then Some (next_retry_after (ee_rand E (en_world en)) now 1 (ee_retry_config E))
                        else None)
      in if is_reply then en
         else en\<lparr>en_store := snd (st_record_delivery (ee_store E) (en_store en) seq sub_id status err
                                  next_retry now)\<rparr>)"

text \<open>\<open>update_status\<close> on a persisted event, its error only logged.\<close>

definition set_status ::
  "('s, 'j, 'tx, 'i, 'w) engine_env \<Rightarrow> bool \<Rightarrow> u64 \<Rightarrow> event_status
   \<Rightarrow> ('s, 'j, 'tx, 'i, 'w) engine \<Rightarrow> ('s, 'j, 'tx, 'i, 'w) engine" where
  "set_status E is_reply seq status en =
     (if is_reply then en
      else en\<lparr>en_store := snd (st_update_status (ee_store E) (en_store en) seq status)\<rparr>)"

definition send_to ::
  "('s, 'j, 'tx, 'i, 'w) engine_env \<Rightarrow> 'tx \<Rightarrow> dispatched_event \<Rightarrow> ('s, 'j, 'tx, 'i, 'w) engine
   \<Rightarrow> (try_send_error + unit) \<times> ('s, 'j, 'tx, 'i, 'w) engine" where
  "send_to E tx event en =
     (case ee_try_send E tx event (en_world en) of (r, w) \<Rightarrow> (r, en\<lparr>en_world := w\<rparr>))"

text \<open>The chain over the snapshot of sync entries: the payload, the flags \<open>any_failed\<close> and
  \<open>dropped\<close>, and the engine.\<close>

fun sync_chain ::
  "('s, 'j, 'tx, 'i, 'w) engine_env \<Rightarrow> bool \<Rightarrow> u64 \<Rightarrow> string \<Rightarrow> string option
   \<Rightarrow> (string \<times> duration \<times> 'i option \<times> 'tx option) list \<Rightarrow> bytes \<Rightarrow> bool
   \<Rightarrow> ('s, 'j, 'tx, 'i, 'w) engine \<Rightarrow> bytes \<times> bool \<times> bool \<times> ('s, 'j, 'tx, 'i, 'w) engine" where
  "sync_chain E is_reply seq subj reply [] payload any_failed en = (payload, any_failed, False, en)"
| "sync_chain E is_reply seq subj reply ((sub_id, tmo, interceptor, sender) # rest) payload any_failed en =
     (case interceptor of
        Some i \<Rightarrow>
          (case ee_intercept E i tmo subj seq (ee_now E (en_world en)) payload (en_world en) of
             (outcome, w) \<Rightarrow>
               (let en = en\<lparr>en_world := w\<rparr> in
                case outcome of
                  Finished result new_payload \<Rightarrow>
                    (let en = try_record E is_reply seq sub_id DlDelivered None en in
                     if result = Drop then (new_payload, any_failed, True, en)
                     else sync_chain E is_reply seq subj reply rest new_payload any_failed en)
                | Panicked \<Rightarrow>
                    sync_chain E is_reply seq subj reply rest payload True
                      (try_record E is_reply seq sub_id DlDeadLettered
                         (Some ''dead-lettered: interceptor panicked'') en)
                | Cancelled \<Rightarrow>
                    sync_chain E is_reply seq subj reply rest payload True
                      (try_record E is_reply seq sub_id DlDeadLettered
                         (Some ''dead-lettered: interceptor cancelled'') en)
                | TimedOut \<Rightarrow>
                    sync_chain E is_reply seq subj reply rest payload True
                      (try_record E is_reply seq sub_id DlDeadLettered
                         (Some (''dead-lettered: interceptor timed out after ''
                                @ show_nat (as_millis tmo) @ ''ms'')) en)))
      | None \<Rightarrow>
        (case sender of
           Some tx \<Rightarrow>
             (case send_to E tx \<lparr>de_payload = payload, de_reply_subject = reply, de_subject = subj,
                                  de_seq = seq\<rparr> en of
                (Inr _, en) \<Rightarrow>
                  sync_chain E is_reply seq subj reply rest payload any_failed
                    (try_record E is_reply seq sub_id DlDelivered None en)
              | (Inl e, en) \<Rightarrow>
                  sync_chain E is_reply seq subj reply rest payload True
                    (try_record E is_reply seq sub_id DlFailed
                       (Some (''sync channel delivery failed: '' @ ee_send_error_text E e)) en))
         | None \<Rightarrow>
             sync_chain E is_reply seq subj reply rest payload True
               (try_record E is_reply seq sub_id DlFailed
                  (Some ''subscription removed during dispatch'') en)))"

text \<open>The fan-out over the async entries with the senders collected for them.\<close>

fun async_fanout ::
  "('s, 'j, 'tx, 'i, 'w) engine_env \<Rightarrow> bool \<Rightarrow> u64 \<Rightarrow> string \<Rightarrow> string option \<Rightarrow> bytes
   \<Rightarrow> (string \<times> 'tx option) list \<Rightarrow> bool
   \<Rightarrow> ('s, 'j, 'tx, 'i, 'w) engine \<Rightarrow> bool \<times> ('s, 'j, 'tx, 'i, 'w) engine" where
  "async_fanout E is_reply seq subj reply payload [] any_failed en = (any_failed, en)"
| "async_fanout E is_reply seq subj reply payload ((sub_id, tx_opt) # rest) any_failed en =
     (case tx_opt of
        Some tx \<Rightarrow>
          (case send_to E tx \<lparr>de_payload = payload, de_reply_subject = reply, de_subject = subj,
                               de_seq = seq\<rparr> en of
             (Inr _, en) \<Rightarrow>
               async_fanout E is_reply seq subj reply payload rest any_failed
                 (try_record E is_reply seq sub_id DlDelivered None en)
           | (Inl ChFull, en) \<Rightarrow>
               async_fanout E is_reply seq subj reply payload rest True
                 (try_record E is_reply seq sub_id DlFailed (Some ''subscriber channel full'') en)
           | (Inl ChClosed, en) \<Rightarrow>
               async_fanout E is_reply seq subj reply payload rest True
                 (try_record E is_reply seq sub_id DlFailed (Some ''subscriber channel closed'') en))
      | None \<Rightarrow>
          async_fanout E is_reply seq subj reply payload rest True
            (try_record E is_reply seq sub_id DlFailed
               (Some ''no sender registered for subscriber'') en))"

definition passes_filter :: "'j json_ops \<Rightarrow> bytes \<Rightarrow> 'j subscription_entry \<Rightarrow> bool" where
  "passes_filter J payload e =
     (case entry_filter e of None \<Rightarrow> True | Some f \<Rightarrow> filter_matches J f payload)"

definition sync_snapshot ::
  "('j, 'tx, 'i) dispatch_state \<Rightarrow> 'j subscription_entry list
   \<Rightarrow> (string \<times> duration \<times> 'i option \<times> 'tx option) list" where
  "sync_snapshot state entries =
     map (\<lambda>e. (entry_id e, timeout e, ds_interceptors state (entry_id e), ds_senders state (entry_id e)))
       entries"

definition async_senders ::
  "('j, 'tx, 'i) dispatch_state \<Rightarrow> 'j subscription_entry list \<Rightarrow> (string \<times> 'tx option) list" where
  "async_senders state entries = map (\<lambda>e. (entry_id e, ds_senders state (entry_id e))) entries"

definition dispatch_persisted_event ::
  "('s, 'j, 'tx, 'i, 'w) engine_env \<Rightarrow> u64 \<Rightarrow> string \<Rightarrow> bytes \<Rightarrow> string option \<Rightarrow> bool
   \<Rightarrow> ('s, 'j, 'tx, 'i, 'w) engine \<Rightarrow> (event_bus_error + u64) \<times> ('s, 'j, 'tx, 'i, 'w) engine" where
  "dispatch_persisted_event E seq subj payload reply is_reply en =
     (let matches = index_lookup (ds_index (en_state en)) subj in
      if matches = [] then (Inr seq, set_status E is_reply seq EvDelivered en)
      else
        let en = set_status E is_reply seq EvDispatching en;
            matches = filter (passes_filter (ee_json E) payload) matches in
        if matches = [] then (Inr seq, set_status E is_reply seq EvDelivered en)
        else
          let sync_entries = filter (\<lambda>e. mode e = Sync) matches;
              async_entries = filter (\<lambda>e. mode e = Async) matches in
          case sync_chain E is_reply seq subj reply (sync_snapshot (en_state en) sync_entries)
                 payload False en of
            (current_payload, any_failed, dropped, en) \<Rightarrow>
              if dropped then (Inr seq, set_status E is_reply seq EvDelivered en)
              else
                case async_fanout E is_reply seq subj reply current_payload
                       (async_senders (en_state en) async_entries) any_failed en of
                  (any_failed, en) \<Rightarrow>
                    (Inr seq, set_status E is_reply seq
                       (if any_failed then EvPartiallyDelivered else EvDelivered) en))"

definition reentrant_message :: "string \<Rightarrow> string" where
  "reentrant_message subj =
     ''re-entrant publish from sync interceptor on subject '' @ [CHR 0x27] @ subj @ [CHR 0x27]
     @ '' would loop; sync interceptors must not publish to subjects they intercept''"

definition publish_event ::
  "('s, 'j, 'tx, 'i, 'w) engine_env \<Rightarrow> string option \<Rightarrow> string \<Rightarrow> bytes \<Rightarrow> string option
   \<Rightarrow> ('s, 'j, 'tx, 'i, 'w) engine \<Rightarrow> (event_bus_error + u64) \<times> ('s, 'j, 'tx, 'i, 'w) engine" where
  "publish_event E intercepting subj payload reply en =
     (case andthen (validate_subject subj) (\<lambda>_. validate_payload payload) of
        Inl e \<Rightarrow> (Inl e, en)
      | Inr _ \<Rightarrow>
        if intercepting = Some subj then (Inl (Internal (reentrant_message subj)), en)
        else
          let is_reply = starts_with subj ''_reply.'' in
          if is_reply then dispatch_persisted_event E 0 subj payload reply True en
          else
            (case st_append (ee_store E) (en_store en)
                    \<lparr>ev_seq = 0, ev_subject = subj, ev_payload = payload, ev_stored_at = 0,
                     ev_status = EvPending, ev_deliveries = [], ev_reply_subject = reply\<rparr>
                    (ee_now E (en_world en)) of
               (Inl e, s) \<Rightarrow> (Inl (Storage e), en\<lparr>en_store := s\<rparr>)
             | (Inr seq, s) \<Rightarrow>
                 dispatch_persisted_event E seq subj payload reply False
                   (en\<lparr>en_store := s, en_events_published := en_events_published en + 1\<rparr>)))"

definition publish ::
  "('s, 'j, 'tx, 'i, 'w) engine_env \<Rightarrow> string option \<Rightarrow> string \<Rightarrow> bytes
   \<Rightarrow> ('s, 'j, 'tx, 'i, 'w) engine \<Rightarrow> (event_bus_error + u64) \<times> ('s, 'j, 'tx, 'i, 'w) engine" where
  "publish E intercepting subj payload en = publish_event E intercepting subj payload None en"

definition replay_dead_lettered ::
  "('s, 'j, 'tx, 'i, 'w) engine_env \<Rightarrow> u64
   \<Rightarrow> ('s, 'j, 'tx, 'i, 'w) engine \<Rightarrow> (event_bus_error + u64) \<times> ('s, 'j, 'tx, 'i, 'w) engine" where
  "replay_dead_lettered E seq en =
     (case andthen (map_err Storage (st_get (ee_store E) (en_store en) seq)) (\<lambda>found.
             ok_or (Internal (''event '' @ show_word seq @ '' not found'')) found) of
        Inl e \<Rightarrow> (Inl e, en)
      | Inr event \<Rightarrow>
          if ev_status event \<noteq> EvDeadLettered then
            (Inl (Internal (''event '' @ show_word seq @ '' is not dead-lettered'')), en)
          else
            (case st_requeue_dead_lettered (ee_store E) (en_store en) seq of
               (Inl e, s) \<Rightarrow> (Inl (Storage e), en\<lparr>en_store := s\<rparr>)
             | (Inr _, s) \<Rightarrow>
                 dispatch_persisted_event E seq (ev_subject event) (ev_payload event)
                   (ev_reply_subject event) False
                   (en\<lparr>en_store := s, en_events_published := en_events_published en + 1\<rparr>)))"

section \<open>Subscriptions\<close>

definition engine_subscribe ::
  "('s, 'j, 'tx, 'i, 'w) engine_env \<Rightarrow> string \<Rightarrow> u32 \<Rightarrow> subscription_mode \<Rightarrow> 'j channel_config \<Rightarrow> duration
   \<Rightarrow> 'j event_filter option \<Rightarrow> ('s, 'j, 'tx, 'i, 'w) engine
   \<Rightarrow> (event_bus_error + string \<times> 'tx) \<times> ('s, 'j, 'tx, 'i, 'w) engine" where
  "engine_subscribe E pat prio md chan tmo flt en =
     (case validate_subject pat of
        Inl e \<Rightarrow> (Inl e, en)
      | Inr _ \<Rightarrow>
          (case ee_ulid E (en_world en) of (sub_id, w) \<Rightarrow>
           case ee_channel E DEFAULT_CHANNEL_CAPACITY w of (tx, w) \<Rightarrow>
             let en = en\<lparr>en_world := w\<rparr>; state = en_state en;
                 entry = \<lparr>entry_id = sub_id, subject_pattern = pat, priority = prio, mode = md,
                          channel = chan, timeout = tmo, entry_filter = flt\<rparr> in
             case index_subscribe (ds_index state) entry of
               Inl e \<Rightarrow> (Inl e, en)
             | Inr index \<Rightarrow>
                 (Inr (sub_id, tx),
                  en\<lparr>en_state := state\<lparr>ds_index := index, ds_senders := (ds_senders state)(sub_id \<mapsto> tx)\<rparr>\<rparr>)))"

definition intercept ::
  "('s, 'j, 'tx, 'i, 'w) engine_env \<Rightarrow> string \<Rightarrow> u32 \<Rightarrow> 'i \<Rightarrow> duration option
   \<Rightarrow> ('s, 'j, 'tx, 'i, 'w) engine \<Rightarrow> (event_bus_error + string) \<times> ('s, 'j, 'tx, 'i, 'w) engine" where
  "intercept E pat prio interceptor tmo en =
     (case validate_subject pat of
        Inl e \<Rightarrow> (Inl e, en)
      | Inr _ \<Rightarrow>
          (case ee_ulid E (en_world en) of (sub_id, w) \<Rightarrow>
             let en = en\<lparr>en_world := w\<rparr>; state = en_state en;
                 entry = \<lparr>entry_id = sub_id, subject_pattern = pat, priority = prio, mode = Sync,
                          channel = InProcess,
                          timeout = (case tmo of None \<Rightarrow> DEFAULT_INTERCEPTOR_TIMEOUT | Some d \<Rightarrow> d),
                          entry_filter = None\<rparr>;
                 existing_for_pattern = length (filter (\<lambda>e. ds_interceptors state (entry_id e) \<noteq> None)
                   (index_list (ds_index state) (Some pat))) in
             if existing_for_pattern \<ge> MAX_INTERCEPTORS_PER_SUBJECT then
               (Inl (Internal (''too many interceptors registered for pattern '' @ [CHR 0x27] @ pat
                               @ [CHR 0x27] @ '' (max: 100)'')), en)
             else
               case index_subscribe (ds_index state) entry of
                 Inl e \<Rightarrow> (Inl e, en)
               | Inr index \<Rightarrow>
                   (Inr sub_id,
                    en\<lparr>en_state := state\<lparr>ds_index := index,
                        ds_interceptors := (ds_interceptors state)(sub_id \<mapsto> interceptor)\<rparr>\<rparr>)))"

definition engine_unsubscribe ::
  "string \<Rightarrow> ('s, 'j, 'tx, 'i, 'w) engine \<Rightarrow> (event_bus_error + unit) \<times> ('s, 'j, 'tx, 'i, 'w) engine" where
  "engine_unsubscribe sub_id en =
     (let state = en_state en in
      (Inr (), en\<lparr>en_state := state\<lparr>ds_senders := (ds_senders state)(sub_id := None),
                  ds_interceptors := (ds_interceptors state)(sub_id := None),
                  ds_index := index_unsubscribe (ds_index state) sub_id\<rparr>\<rparr>))"

record subscription_info =
  si_id :: string
  si_pattern :: string
  si_priority :: u32
  si_mode :: string

definition list_subscriptions ::
  "string option \<Rightarrow> ('s, 'j, 'tx, 'i, 'w) engine \<Rightarrow> event_bus_error + subscription_info list" where
  "list_subscriptions flt en =
     Inr (map (\<lambda>e. \<lparr>si_id = entry_id e, si_pattern = subject_pattern e, si_priority = priority e,
                    si_mode = (case mode e of Sync \<Rightarrow> ''Sync'' | Async \<Rightarrow> ''Async'')\<rparr>)
            (index_list (ds_index (en_state en)) flt))"

section \<open>Retrying one delivery\<close>

datatype retry_outcome = Transient string | Permanent string

definition outcome_of_delivery :: "delivery_error + delivery_receipt \<Rightarrow> retry_outcome + unit" where
  "outcome_of_delivery r =
     (case r of
        Inr _ \<Rightarrow> Inr ()
      | Inl (DeliveryPermanent msg) \<Rightarrow> Inl (Permanent msg)
      | Inl e \<Rightarrow> Inl (Transient (delivery_error_text e)))"

definition retry_to_subscriber ::
  "('s, 'j, 'tx, 'i, 'w) engine_env \<Rightarrow> string \<Rightarrow> string \<Rightarrow> bytes \<Rightarrow> string option \<Rightarrow> u64
   \<Rightarrow> ('s, 'j, 'tx, 'i, 'w) engine \<Rightarrow> (retry_outcome + unit) \<times> ('s, 'j, 'tx, 'i, 'w) engine" where
  "retry_to_subscriber E subscriber_id subj payload reply seq en =
     (case index_find_by_id (ds_index (en_state en)) subscriber_id of
        None \<Rightarrow> (Inl (Permanent (''subscriber '' @ subscriber_id @ '' no longer exists'')), en)
      | Some entry \<Rightarrow>
        (case channel entry of
           Webhook url headers \<Rightarrow>
             (case ee_webhook E payload subj (channel entry) (en_world en) of
                (r, w) \<Rightarrow> (outcome_of_delivery r, en\<lparr>en_world := w\<rparr>))
         | Custom channel_type config \<Rightarrow>
             (case registry_get (en_registry en) channel_type of
                None \<Rightarrow> (Inl (Permanent (''no channel registered for type '' @ [CHR 0x27]
                                        @ channel_type @ [CHR 0x27])), en)
              | Some deliver \<Rightarrow>
                  (case deliver payload subj (channel entry) (en_world en) of
                     (r, w) \<Rightarrow> (outcome_of_delivery r, en\<lparr>en_world := w\<rparr>)))
         | InProcess \<Rightarrow>
             (case ds_senders (en_state en) subscriber_id of
                None \<Rightarrow> (Inl (Permanent ''in-process sender no longer registered''), en)
              | Some tx \<Rightarrow>
                  (case send_to E tx \<lparr>de_payload = payload, de_reply_subject = reply,
                                       de_subject = subj, de_seq = seq\<rparr> en of
                     (Inr _, en) \<Rightarrow> (Inr (), en)
                   | (Inl e, en) \<Rightarrow> (Inl (Transient (ee_send_error_text E e)), en)))
         | WebSocket \<Rightarrow> (Inl (Permanent ''WebSocket subscriptions are not retryable''), en)))"

section \<open>Frame conditions\<close>

text \<open>A step of a dispatch touches the store, the counter of deliveries and the world, never the
  subscriptions.\<close>

named_theorems frame

lemma try_record_frame [frame, simp]:
  "en_state (try_record E r q i st err en) = en_state en"
  "en_world (try_record E r q i st err en) = en_world en"
  "en_registry (try_record E r q i st err en) = en_registry en"
  "en_events_published (try_record E r q i st err en) = en_events_published en"
  by (simp_all add: try_record_def Let_def)

lemma set_status_frame [frame, simp]:
  "en_state (set_status E r q st en) = en_state en"
  "en_world (set_status E r q st en) = en_world en"
  "en_registry (set_status E r q st en) = en_registry en"
  "en_events_published (set_status E r q st en) = en_events_published en"
  "en_events_delivered (set_status E r q st en) = en_events_delivered en"
  by (simp_all add: set_status_def)

lemma send_to_frame [frame, simp]:
  "en_store (snd (send_to E tx ev en)) = en_store en"
  "en_state (snd (send_to E tx ev en)) = en_state en"
  "en_registry (snd (send_to E tx ev en)) = en_registry en"
  "en_events_published (snd (send_to E tx ev en)) = en_events_published en"
  by (simp_all add: send_to_def split: prod.splits)

lemma send_toD:
  "send_to E tx ev en = (r, en') \<Longrightarrow> en_store en' = en_store en \<and> en_state en' = en_state en
     \<and> en_registry en' = en_registry en \<and> en_events_published en' = en_events_published en"
  by (auto simp: send_to_def split: prod.splits)

text \<open>One round of each loop: the status and error it records, the payload it leaves, whether
  the chain stops, and the engine.\<close>

definition sync_step ::
  "('s, 'j, 'tx, 'i, 'w) engine_env \<Rightarrow> u64 \<Rightarrow> string \<Rightarrow> string option
   \<Rightarrow> string \<times> duration \<times> 'i option \<times> 'tx option \<Rightarrow> bytes \<Rightarrow> ('s, 'j, 'tx, 'i, 'w) engine
   \<Rightarrow> delivery_status \<times> string option \<times> bytes \<times> bool \<times> ('s, 'j, 'tx, 'i, 'w) engine" where
  "sync_step E q subj rep x p en =
     (case x of (sub_id, tmo, iopt, sopt) \<Rightarrow>
        (case iopt of
           Some i \<Rightarrow>
             (case ee_intercept E i tmo subj q (ee_now E (en_world en)) p (en_world en) of
                (out, w) \<Rightarrow>
                  (case out of
                     Finished res p' \<Rightarrow> (DlDelivered, None, p', res = Drop, en\<lparr>en_world := w\<rparr>)
                   | Panicked \<Rightarrow> (DlDeadLettered, Some ''dead-lettered: interceptor panicked'', p, False, en\<lparr>en_world := w\<rparr>)
                   | Cancelled \<Rightarrow> (DlDeadLettered, Some ''dead-lettered: interceptor cancelled'', p, False, en\<lparr>en_world := w\<rparr>)
                   | TimedOut \<Rightarrow> (DlDeadLettered, Some (''dead-lettered: interceptor timed out after ''
                        @ show_nat (as_millis tmo) @ ''ms''), p, False, en\<lparr>en_world := w\<rparr>)))
         | None \<Rightarrow>
             (case sopt of
                Some tx \<Rightarrow>
                  (case send_to E tx \<lparr>de_payload = p, de_reply_subject = rep, de_subject = subj, de_seq = q\<rparr> en of
                     (res, en') \<Rightarrow>
                       (case res of
                          Inr _ \<Rightarrow> (DlDelivered, None, p, False, en')
                        | Inl e \<Rightarrow> (DlFailed, Some (''sync channel delivery failed: '' @ ee_send_error_text E e), p, False, en')))
              | None \<Rightarrow> (DlFailed, Some ''subscription removed during dispatch'', p, False, en))))"

definition async_step ::
  "('s, 'j, 'tx, 'i, 'w) engine_env \<Rightarrow> u64 \<Rightarrow> string \<Rightarrow> string option \<Rightarrow> bytes
   \<Rightarrow> 'tx option \<Rightarrow> ('s, 'j, 'tx, 'i, 'w) engine
   \<Rightarrow> delivery_status \<times> string option \<times> ('s, 'j, 'tx, 'i, 'w) engine" where
  "async_step E q subj rep p txo en =
     (case txo of
        Some tx \<Rightarrow>
          (case send_to E tx \<lparr>de_payload = p, de_reply_subject = rep, de_subject = subj, de_seq = q\<rparr> en of
             (res, en') \<Rightarrow>
               (case res of
                  Inr _ \<Rightarrow> (DlDelivered, None, en')
                | Inl ChFull \<Rightarrow> (DlFailed, Some ''subscriber channel full'', en')
                | Inl ChClosed \<Rightarrow> (DlFailed, Some ''subscriber channel closed'', en')))
      | None \<Rightarrow> (DlFailed, Some ''no sender registered for subscriber'', en))"

lemma sync_chain_Cons:
  "sync_chain E r q subj rep (x # rest) p af en =
     (case sync_step E q subj rep x p en of (st, err, p', stop, en1) \<Rightarrow>
        if stop then (p', af, True, try_record E r q (fst x) st err en1)
        else sync_chain E r q subj rep rest p' (af \<or> st \<noteq> DlDelivered)
               (try_record E r q (fst x) st err en1))"
  by (cases x)
    (simp add: sync_step_def Let_def split: option.split prod.split join_outcome.split sum.split)

lemma async_fanout_Cons:
  "async_fanout E r q subj rep p (x # rest) af en =
     (case async_step E q subj rep p (snd x) en of (st, err, en1) \<Rightarrow>
        async_fanout E r q subj rep p rest (af \<or> st \<noteq> DlDelivered) (try_record E r q (fst x) st err en1))"
  by (cases x) (simp add: async_step_def split: option.split prod.split sum.split try_send_error.split)

declare sync_chain.simps(2) [simp del] async_fanout.simps(2) [simp del]

lemma sync_step_frame:
  "sync_step E q subj rep x p en = (st, err, p', stop, en1) \<Longrightarrow>
     en_store en1 = en_store en \<and> en_state en1 = en_state en \<and> en_registry en1 = en_registry en
     \<and> en_events_published en1 = en_events_published en \<and> (stop \<longrightarrow> st = DlDelivered)"
  by (auto simp: sync_step_def split: prod.splits option.splits join_outcome.splits sum.splits dest!: send_toD)

lemma async_step_frame:
  "async_step E q subj rep p txo en = (st, err, en1) \<Longrightarrow>
     en_store en1 = en_store en \<and> en_state en1 = en_state en \<and> en_registry en1 = en_registry en
     \<and> en_events_published en1 = en_events_published en"
  by (auto simp: async_step_def split: prod.splits option.splits sum.splits try_send_error.splits dest!: send_toD)

lemma sync_chain_frame:
  "sync_chain E r q subj rep snap p af en = (p', af', dr, en') \<Longrightarrow>
     en_state en' = en_state en \<and> en_registry en' = en_registry en
     \<and> en_events_published en' = en_events_published en"
proof (induction snap arbitrary: p af en)
  case (Cons x snap)
  obtain st err p1 stop en1 where s: "sync_step E q subj rep x p en = (st, err, p1, stop, en1)"
    by (rule prod_cases5)
  show ?case
  proof (cases stop)
    case True
    with Cons.prems s sync_step_frame [OF s] show ?thesis
      by (auto simp: sync_chain_Cons)
  next
    case False
    with Cons.prems s have "sync_chain E r q subj rep snap p1 (af \<or> st \<noteq> DlDelivered)
        (try_record E r q (fst x) st err en1) = (p', af', dr, en')"
      by (simp add: sync_chain_Cons)
    from Cons.IH [OF this] sync_step_frame [OF s] show ?thesis by simp
  qed
qed simp

lemma async_fanout_frame:
  "async_fanout E r q subj rep p snds af en = (af', en') \<Longrightarrow>
     en_state en' = en_state en \<and> en_registry en' = en_registry en
     \<and> en_events_published en' = en_events_published en"
proof (induction snds arbitrary: af en)
  case (Cons x snds)
  obtain st err en1 where s: "async_step E q subj rep p (snd x) en = (st, err, en1)"
    by (rule prod_cases3)
  with Cons.prems have "async_fanout E r q subj rep p snds (af \<or> st \<noteq> DlDelivered)
      (try_record E r q (fst x) st err en1) = (af', en')"
    by (simp add: async_fanout_Cons)
  from Cons.IH [OF this] async_step_frame [OF s] show ?case by simp
qed simp

section \<open>The log during a dispatch\<close>

definition same_event :: "stored_event \<Rightarrow> stored_event \<Rightarrow> bool" where
  "same_event e e' \<longleftrightarrow> ev_seq e' = ev_seq e \<and> ev_subject e' = ev_subject e \<and> ev_payload e' = ev_payload e
     \<and> ev_stored_at e' = ev_stored_at e \<and> ev_reply_subject e' = ev_reply_subject e"

definition only_at :: "u64 \<Rightarrow> (u64 \<rightharpoonup> stored_event) \<Rightarrow> (u64 \<rightharpoonup> stored_event) \<Rightarrow> bool" where
  "only_at q m m' \<longleftrightarrow> (\<forall>k. k \<noteq> q \<longrightarrow> m' k = m k)
     \<and> (case m q of None \<Rightarrow> m' q = None | Some e \<Rightarrow> \<exists>e'. m' q = Some e' \<and> same_event e e')"

lemma same_event_refl [simp]: "same_event e e"
  by (simp add: same_event_def)

lemma same_event_trans: "same_event a b \<Longrightarrow> same_event b c \<Longrightarrow> same_event a c"
  by (simp add: same_event_def)

lemma only_at_refl [simp]: "only_at q m m"
  by (simp add: only_at_def split: option.splits)

lemma only_at_trans: "only_at q a b \<Longrightarrow> only_at q b c \<Longrightarrow> only_at q a c"
  by (auto simp: only_at_def split: option.splits intro: same_event_trans)

lemma only_at_upd:
  "(\<And>e. same_event e (f e)) \<Longrightarrow> only_at q m (upd_event m q f)"
  by (auto simp: only_at_def upd_event_def split: option.splits)

text \<open>The contract the engine relies on: any event store.\<close>

locale engine_store = event_store "ee_store E" view inv
  for E :: "('s, 'j, 'tx, 'i, 'w) engine_env" and view and inv
begin

definition keeps :: "u64 \<Rightarrow> ('s, 'j, 'tx, 'i, 'w) engine \<Rightarrow> ('s, 'j, 'tx, 'i, 'w) engine \<Rightarrow> bool" where
  "keeps q en en' \<longleftrightarrow> inv (en_store en') \<and> only_at q (view (en_store en)) (view (en_store en'))"

lemma keeps_trans: "keeps q a b \<Longrightarrow> keeps q b c \<Longrightarrow> keeps q a c"
  by (auto simp: keeps_def intro: only_at_trans)

lemma record_keeps:
  assumes "inv s"
  shows "inv (snd (st_record_delivery (ee_store E) s q i st err nr now))
    \<and> only_at q (view s) (view (snd (st_record_delivery (ee_store E) s q i st err nr now)))"
  using record_law [OF assms, of q i st err nr now] assms
  by (auto simp: failed_def same_event_def intro!: only_at_upd)

lemma keeps_try_record: "inv (en_store en) \<Longrightarrow> keeps q en (try_record E r q i st err en)"
  by (simp add: keeps_def try_record_def Let_def record_keeps)

lemma keeps_set_status: "inv (en_store en) \<Longrightarrow> keeps q en (set_status E r q st en)"
  using update_law [of "en_store en" q st]
  by (fastforce simp: keeps_def set_status_def failed_def same_event_def intro!: only_at_upd)

lemma keeps_sync_chain:
  "sync_chain E r q subj rep snap p af en = (p', af', dr, en') \<Longrightarrow> inv (en_store en) \<Longrightarrow> keeps q en en'"
proof (induction snap arbitrary: p af en)
  case (Cons x snap)
  obtain st err p1 stop en1 where s: "sync_step E q subj rep x p en = (st, err, p1, stop, en1)"
    by (rule prod_cases5)
  let ?en2 = "try_record E r q (fst x) st err en1"
  have k: "keeps q en ?en2"
    using keeps_try_record [of en1 q r "fst x" st err] sync_step_frame [OF s] Cons.prems(2)
    by (simp add: keeps_def)
  show ?case
  proof (cases stop)
    case True
    with Cons.prems s k show ?thesis by (auto simp: sync_chain_Cons)
  next
    case False
    with Cons.prems s have "sync_chain E r q subj rep snap p1 (af \<or> st \<noteq> DlDelivered) ?en2 = (p', af', dr, en')"
      by (simp add: sync_chain_Cons)
    then have "keeps q ?en2 en'"
      using Cons.IH k by (simp add: keeps_def)
    with k show ?thesis by (rule keeps_trans)
  qed
qed (simp add: keeps_def)

lemma keeps_async_fanout:
  "async_fanout E r q subj rep p snds af en = (af', en') \<Longrightarrow> inv (en_store en) \<Longrightarrow> keeps q en en'"
proof (induction snds arbitrary: af en)
  case (Cons x snds)
  obtain st err en1 where s: "async_step E q subj rep p (snd x) en = (st, err, en1)"
    by (rule prod_cases3)
  let ?en2 = "try_record E r q (fst x) st err en1"
  have k: "keeps q en ?en2"
    using keeps_try_record [of en1 q r "fst x" st err] async_step_frame [OF s] Cons.prems(2)
    by (simp add: keeps_def)
  have "async_fanout E r q subj rep p snds (af \<or> st \<noteq> DlDelivered) ?en2 = (af', en')"
    using Cons.prems s by (simp add: async_fanout_Cons)
  then have "keeps q ?en2 en'"
    using Cons.IH k by (simp add: keeps_def)
  with k show ?case by (rule keeps_trans)
qed (simp add: keeps_def)

lemma keeps_inv: "keeps q en en' \<Longrightarrow> inv (en_store en')"
  by (simp add: keeps_def)

lemma dispatch_keeps:
  assumes "dispatch_persisted_event E q subj p rep r en = (res, en')" and "inv (en_store en)"
  shows "res = Inr q \<and> keeps q en en' \<and> en_state en' = en_state en
    \<and> en_events_published en' = en_events_published en"
proof -
  let ?ms = "index_lookup (ds_index (en_state en)) subj"
  let ?en1 = "set_status E r q EvDispatching en"
  obtain p2 af2 dr en2 where sc: "sync_chain E r q subj rep (sync_snapshot (en_state en)
      (filter (\<lambda>e. passes_filter (ee_json E) p e \<and> mode e = Sync) ?ms)) p False ?en1 = (p2, af2, dr, en2)"
    by (rule prod_cases4)
  have fr: "en_state en2 = en_state en" "en_events_published en2 = en_events_published en"
    using sync_chain_frame [OF sc] by simp_all
  obtain af3 en3 where fo: "async_fanout E r q subj rep p2 (async_senders (en_state en)
      (filter (\<lambda>e. passes_filter (ee_json E) p e \<and> mode e = Async) ?ms)) af2 en2 = (af3, en3)"
    by (rule prod.exhaust)
  have k1: "keeps q en ?en1"
    using assms(2) by (rule keeps_set_status)
  have k2: "keeps q en en2"
    using keeps_sync_chain [OF sc keeps_inv [OF k1]] k1 keeps_trans by blast
  have k3: "keeps q en en3"
    using keeps_async_fanout [OF fo keeps_inv [OF k2]] k2 keeps_trans by blast
  note st = keeps_trans [OF k1 keeps_set_status [OF keeps_inv [OF k1]]]
    keeps_trans [OF k2 keeps_set_status [OF keeps_inv [OF k2]]]
    keeps_trans [OF k3 keeps_set_status [OF keeps_inv [OF k3]]]
  show ?thesis
    using assms keeps_set_status [OF assms(2)] st async_fanout_frame [OF fo]
    by (auto simp: dispatch_persisted_event_def Let_def sc fo fr split: if_splits)
qed

end

end
