(* ===== verification/Dispatch_Correct.thy ===== *)
theory Dispatch_Correct
  imports Dispatch_Engine Memory_Store
begin

text \<open>
  What a dispatch leaves behind. Over any event store, a published event is in the log under the
  returned number with its original payload, and no other event changes. Over a store without
  infrastructure faults the delivery records and the final status are determined. The runtime
  contract (\<open>bus_runtime\<close>) adds which channels received what.
\<close>

section \<open>Delivery records of a dispatch\<close>

text \<open>A first record as the engine writes it.\<close>

definition initial_delivery :: "delivery_record \<Rightarrow> bool" where
  "initial_delivery d \<longleftrightarrow>
     (case dl_status d of
        DlPending \<Rightarrow> False
      | DlFailed \<Rightarrow> dl_attempts d = 1 \<and> dl_next_retry d \<noteq> None
      | _ \<Rightarrow> dl_attempts d = 0 \<and> dl_next_retry d = None)"

definition undelivered :: "delivery_record list \<Rightarrow> bool" where
  "undelivered ds \<longleftrightarrow> (\<exists>d \<in> set ds. dl_status d \<noteq> DlDelivered)"

lemma undelivered_simps [simp]:
  "undelivered [] = False"
  "undelivered (d # ds) \<longleftrightarrow> dl_status d \<noteq> DlDelivered \<or> undelivered ds"
  "undelivered (ds @ es) \<longleftrightarrow> undelivered ds \<or> undelivered es"
  by (auto simp: undelivered_def)

abbreviation ids_of :: "stored_event \<Rightarrow> string set" where
  "ids_of e \<equiv> set (map dl_subscriber_id (ev_deliveries e))"

text \<open>The outcome of a dispatch to the matching subscriptions \<open>ms\<close>: every sync and then every
  async subscription has one record and the status says whether any of them failed; or an
  interceptor dropped the event, the subscriptions up to it have records, and the event counts as
  delivered.\<close>

definition dispatch_record ::
  "('j, 'tx, 'i) dispatch_state \<Rightarrow> 'j subscription_entry list \<Rightarrow> stored_event \<Rightarrow> bool" where
  "dispatch_record state ms e \<longleftrightarrow>
     list_all initial_delivery (ev_deliveries e)
     \<and> ((map dl_subscriber_id (ev_deliveries e)
            = map entry_id (filter (\<lambda>e. mode e = Sync) ms) @ map entry_id (filter (\<lambda>e. mode e = Async) ms)
         \<and> ev_status e = (if undelivered (ev_deliveries e) then EvPartiallyDelivered else EvDelivered))
        \<or> (\<exists>n. 0 < n \<and> n \<le> length (filter (\<lambda>e. mode e = Sync) ms)
             \<and> map dl_subscriber_id (ev_deliveries e) = map entry_id (take n (filter (\<lambda>e. mode e = Sync) ms))
             \<and> ds_interceptors state (entry_id (filter (\<lambda>e. mode e = Sync) ms ! (n - 1))) \<noteq> None
             \<and> dl_status (last (ev_deliveries e)) = DlDelivered \<and> ev_status e = EvDelivered))"

definition matching ::
  "('s, 'j, 'tx, 'i, 'w) engine_env \<Rightarrow> string \<Rightarrow> bytes \<Rightarrow> ('s, 'j, 'tx, 'i, 'w) engine
   \<Rightarrow> 'j subscription_entry list" where
  "matching E subj p en = filter (passes_filter (ee_json E) p) (index_lookup (ds_index (en_state en)) subj)"

lemma disjoint_filters:
  "distinct (map f xs) \<Longrightarrow> (\<And>x. \<not> (P x \<and> Q x)) \<Longrightarrow>
     set (map f (filter P xs)) \<inter> set (map f (filter Q xs)) = {}"
  by (induction xs) (auto simp: image_iff)

lemma ids_snapshot [simp]: "map fst (sync_snapshot state es) = map entry_id es"
  by (simp add: sync_snapshot_def comp_def)

lemma ids_senders [simp]: "map fst (async_senders state es) = map entry_id es"
  by (simp add: async_senders_def comp_def)

locale reliable_engine = engine_store E view inv + reliable_store "ee_store E" view inv
  for E :: "('s, 'j, 'tx, 'i, 'w) engine_env" and view and inv
begin

definition at_event :: "u64 \<Rightarrow> stored_event \<Rightarrow> ('s, 'j, 'tx, 'i, 'w) engine \<Rightarrow> bool" where
  "at_event q e en \<longleftrightarrow> inv (en_store en) \<and> view (en_store en) q = Some e"

lemma at_set_status:
  "at_event q e en \<Longrightarrow> at_event q (e\<lparr>ev_status := st\<rparr>) (set_status E False q st en)"
  using update_law [of "en_store en" q st] update_total [of "en_store en" q st]
  by (auto simp: at_event_def set_status_def upd_event_def)

lemma record_first:
  assumes "inv s" and "view s q = Some e" and "i \<notin> ids_of e"
  shows "inv (snd (st_record_delivery (ee_store E) s q i st err nr now))
    \<and> view (snd (st_record_delivery (ee_store E) s q i st err nr now)) q
        = Some (e\<lparr>ev_deliveries := ev_deliveries e @ [first_delivery i st err nr now]\<rparr>)"
proof -
  have "find (\<lambda>d. dl_subscriber_id d = i) (ev_deliveries e) = None"
    using assms(3) by (auto simp: find_None_iff)
  then show ?thesis
    using record_law [OF assms(1), of q i st err nr now] record_total [OF assms(1), of q i st err nr now] assms(2)
    by (auto simp: upd_event_def apply_delivery_def)
qed

lemma at_try_record:
  assumes "at_event q e en" and "i \<notin> ids_of e" and "st \<noteq> DlPending"
  shows "\<exists>d. at_event q (e\<lparr>ev_deliveries := ev_deliveries e @ [d]\<rparr>) (try_record E False q i st err en)
    \<and> dl_subscriber_id d = i \<and> dl_status d = st \<and> initial_delivery d"
proof -
  let ?w = "en_world en"
  let ?nr = "if st = DlFailed then Some (next_retry_after (ee_rand E ?w) (ee_now E ?w) 1 (ee_retry_config E)) else None"
  let ?d = "first_delivery i st err ?nr (ee_now E ?w)"
  have "at_event q (e\<lparr>ev_deliveries := ev_deliveries e @ [?d]\<rparr>) (try_record E False q i st err en)"
    using assms record_first [of "en_store en" q e i st err ?nr "ee_now E ?w"]
    by (cases st) (simp_all add: at_event_def try_record_def Let_def)
  moreover have "dl_status ?d = st \<and> initial_delivery ?d"
    using assms(3) by (cases st) (simp_all add: first_delivery_def initial_delivery_def)
  ultimately show ?thesis by (intro exI [of _ ?d]) simp
qed

lemma sync_step_status:
  "sync_step E q subj rep x p en = (st, err, p', stop, en1) \<Longrightarrow> st \<noteq> DlPending \<and> (stop \<longrightarrow> fst (snd (snd x)) \<noteq> None)"
  by (auto simp: sync_step_def split: prod.splits option.splits join_outcome.splits sum.splits)

lemma async_step_status:
  "async_step E q subj rep p txo en = (st, err, en1) \<Longrightarrow> st \<noteq> DlPending"
  by (auto simp: async_step_def split: prod.splits option.splits sum.splits try_send_error.splits)

lemma sync_chain_records:
  assumes "sync_chain E False q subj rep snap p af en = (p', af', dr, en')" and "at_event q e en"
    and "distinct (map fst snap)" and "ids_of e \<inter> set (map fst snap) = {}"
  shows "\<exists>new n. at_event q (e\<lparr>ev_deliveries := ev_deliveries e @ new\<rparr>) en'
    \<and> map dl_subscriber_id new = map fst (take n snap) \<and> list_all initial_delivery new
    \<and> af' = (af \<or> undelivered new)
    \<and> (if dr then 0 < n \<and> n \<le> length snap \<and> dl_status (last new) = DlDelivered
                 \<and> fst (snd (snd (snap ! (n - 1)))) \<noteq> None
       else n = length snap)"
  using assms
proof (induction snap arbitrary: p af en e)
  case Nil
  then show ?case by (intro exI [of _ "[]"]) auto
next
  case (Cons x snap)
  obtain st err p1 stop en1 where s: "sync_step E q subj rep x p en = (st, err, p1, stop, en1)"
    by (rule prod_cases5)
  let ?en2 = "try_record E False q (fst x) st err en1"
  have "at_event q e en1"
    using sync_step_frame [OF s] Cons.prems(2) by (simp add: at_event_def)
  then obtain d where d: "at_event q (e\<lparr>ev_deliveries := ev_deliveries e @ [d]\<rparr>) ?en2"
      "dl_subscriber_id d = fst x" "dl_status d = st" "initial_delivery d"
    using at_try_record [of q e en1 "fst x" st err] Cons.prems(4) sync_step_status [OF s] by auto
  show ?case
  proof (cases stop)
    case True
    with Cons.prems(1) s have r: "en' = ?en2" "af' = af" "dr"
      by (auto simp: sync_chain_Cons)
    then show ?thesis
      using d True sync_step_frame [OF s] sync_step_status [OF s]
      by (intro exI [of _ "[d]"] exI [of _ 1]) auto
  next
    case False
    with Cons.prems(1) s have c: "sync_chain E False q subj rep snap p1 (af \<or> st \<noteq> DlDelivered) ?en2 = (p', af', dr, en')"
      by (simp add: sync_chain_Cons)
    have "ids_of (e\<lparr>ev_deliveries := ev_deliveries e @ [d]\<rparr>) \<inter> set (map fst snap) = {}"
      using Cons.prems(3,4) d(2) by auto
    from Cons.IH [OF c d(1) _ this] Cons.prems(3)
    obtain new n where n: "at_event q (e\<lparr>ev_deliveries := ev_deliveries e @ d # new\<rparr>) en'"
        "map dl_subscriber_id new = map fst (take n snap)" "list_all initial_delivery new"
        "af' = (af \<or> st \<noteq> DlDelivered \<or> undelivered new)"
        "if dr then 0 < n \<and> n \<le> length snap \<and> dl_status (last new) = DlDelivered
           \<and> fst (snd (snd (snap ! (n - 1)))) \<noteq> None else n = length snap"
      by auto
    moreover have "new \<noteq> []" if dr
      using n that by auto
    ultimately show ?thesis
      using d by (intro exI [of _ "d # new"] exI [of _ "Suc n"]) (auto simp: nth_Cons')
  qed
qed

lemma async_fanout_records:
  assumes "async_fanout E False q subj rep p snds af en = (af', en')" and "at_event q e en"
    and "distinct (map fst snds)" and "ids_of e \<inter> set (map fst snds) = {}"
  shows "\<exists>new. at_event q (e\<lparr>ev_deliveries := ev_deliveries e @ new\<rparr>) en'
    \<and> map dl_subscriber_id new = map fst snds \<and> list_all initial_delivery new
    \<and> af' = (af \<or> undelivered new)"
  using assms
proof (induction snds arbitrary: af en e)
  case Nil
  then show ?case by (intro exI [of _ "[]"]) auto
next
  case (Cons x snds)
  obtain st err en1 where s: "async_step E q subj rep p (snd x) en = (st, err, en1)"
    by (rule prod_cases3)
  let ?en2 = "try_record E False q (fst x) st err en1"
  have "at_event q e en1"
    using async_step_frame [OF s] Cons.prems(2) by (simp add: at_event_def)
  then obtain d where d: "at_event q (e\<lparr>ev_deliveries := ev_deliveries e @ [d]\<rparr>) ?en2"
      "dl_subscriber_id d = fst x" "dl_status d = st" "initial_delivery d"
    using at_try_record [of q e en1 "fst x" st err] Cons.prems(4) async_step_status [OF s] by auto
  have c: "async_fanout E False q subj rep p snds (af \<or> st \<noteq> DlDelivered) ?en2 = (af', en')"
    using Cons.prems(1) s by (simp add: async_fanout_Cons)
  have "ids_of (e\<lparr>ev_deliveries := ev_deliveries e @ [d]\<rparr>) \<inter> set (map fst snds) = {}"
    using Cons.prems(3,4) d(2) by auto
  from Cons.IH [OF c d(1) _ this] Cons.prems(3)
  obtain new where n: "at_event q (e\<lparr>ev_deliveries := ev_deliveries e @ d # new\<rparr>) en'"
      "map dl_subscriber_id new = map fst snds" "list_all initial_delivery new"
      "af' = (af \<or> st \<noteq> DlDelivered \<or> undelivered new)"
    by auto
  then show ?case
    using d by (intro exI [of _ "d # new"]) auto
qed

lemma dispatch_records:
  assumes d: "dispatch_persisted_event E q subj p rep False en = (res, en')" and at: "at_event q e en"
    and none: "ev_deliveries e = []" and dist: "distinct (map entry_id (index_lookup (ds_index (en_state en)) subj))"
  shows "\<exists>e'. at_event q e' en' \<and> dispatch_record (en_state en) (matching E subj p en) e'"
proof -
  let ?ms = "index_lookup (ds_index (en_state en)) subj"
  define sy where "sy = filter (\<lambda>e. passes_filter (ee_json E) p e \<and> mode e = Sync) ?ms"
  define as where "as = filter (\<lambda>e. passes_filter (ee_json E) p e \<and> mode e = Async) ?ms"
  let ?en1 = "set_status E False q EvDispatching en"
  define snap where "snap = sync_snapshot (en_state en) sy"
  obtain p2 af2 dr en2 where sc: "sync_chain E False q subj rep snap p False ?en1 = (p2, af2, dr, en2)"
    by (rule prod_cases4)
  have fr: "en_state en2 = en_state en"
    using sync_chain_frame [OF sc] by simp
  obtain af3 en3 where fo: "async_fanout E False q subj rep p2 (async_senders (en_state en) as) af2 en2 = (af3, en3)"
    by (rule prod.exhaust)
  have at1: "at_event q (e\<lparr>ev_status := EvDispatching\<rparr>) ?en1"
    using at by (rule at_set_status)
  have dsy: "distinct (map fst snap)" "distinct (map fst (async_senders (en_state en) as))"
    using dist by (simp_all add: distinct_map_filter snap_def sy_def as_def)
  obtain new n where raw: "at_event q (e\<lparr>ev_status := EvDispatching, ev_deliveries := new\<rparr>) en2"
      "map dl_subscriber_id new = map fst (take n snap)" "list_all initial_delivery new" "af2 = undelivered new"
      "if dr then 0 < n \<and> n \<le> length snap \<and> dl_status (last new) = DlDelivered
         \<and> fst (snd (snd (snap ! (n - 1)))) \<noteq> None else n = length snap"
    using sync_chain_records [OF sc at1 dsy(1)] none by auto
  have len: "length snap = length sy"
    by (simp add: snap_def sync_snapshot_def)
  have ith: "fst (snd (snd (snap ! (n - 1)))) = ds_interceptors (en_state en) (entry_id (sy ! (n - 1)))"
    if "0 < n" "n \<le> length sy"
    using that by (simp add: snap_def sync_snapshot_def)
  have n2: "map dl_subscriber_id new = map entry_id (take n sy)"
    unfolding raw(2) snap_def by (simp only: take_map [symmetric] ids_snapshot)
  have n5: "if dr then 0 < n \<and> n \<le> length sy \<and> dl_status (last new) = DlDelivered
         \<and> ds_interceptors (en_state en) (entry_id (sy ! (n - 1))) \<noteq> None else n = length sy"
    using raw(5) ith by (simp add: len split: if_splits)
  note n = raw(1) n2 raw(3,4) n5
  show ?thesis
  proof (cases "filter (passes_filter (ee_json E) p) ?ms = []")
    case True
    then have "en' = set_status E False q EvDelivered en \<or> en' = set_status E False q EvDelivered ?en1"
      using d by (auto simp: dispatch_persisted_event_def Let_def split: if_splits)
    then have "at_event q (e\<lparr>ev_status := EvDelivered\<rparr>) en'"
      using at_set_status [OF at, of EvDelivered] at_set_status [OF at1, of EvDelivered] by auto
    then show ?thesis
      using True none by (intro exI [of _ "e\<lparr>ev_status := EvDelivered\<rparr>"])
        (simp add: dispatch_record_def matching_def)
  next
    case False
    note m = matching_def dispatch_record_def
    show ?thesis
    proof (cases dr)
      case True
      with False d sc have "en' = set_status E False q EvDelivered en2"
        by (auto simp: dispatch_persisted_event_def Let_def snap_def sy_def as_def split: if_splits)
      then show ?thesis
        using at_set_status [OF n(1), of EvDelivered] n True
        by (intro exI [of _ "e\<lparr>ev_deliveries := new, ev_status := EvDelivered\<rparr>"]) (auto simp: m sy_def [symmetric] as_def [symmetric])
    next
      case nd: False
      then have ids: "map dl_subscriber_id new = map entry_id sy"
        using n(2,5) by simp
      have "set (map dl_subscriber_id new) \<inter> set (map entry_id as) = {}"
        unfolding ids sy_def as_def by (rule disjoint_filters [OF dist]) auto
      then have "ids_of (e\<lparr>ev_status := EvDispatching, ev_deliveries := new\<rparr>) \<inter> set (map fst (async_senders (en_state en) as)) = {}"
        unfolding ids_senders by simp
      from async_fanout_records [OF fo n(1) dsy(2) this]
      obtain new2 where n2: "at_event q (e\<lparr>ev_status := EvDispatching, ev_deliveries := new @ new2\<rparr>) en3"
          "map dl_subscriber_id new2 = map entry_id as" "list_all initial_delivery new2" "af3 = (af2 \<or> undelivered new2)"
        by (auto simp: n(4))
      have "en' = set_status E False q (if af3 then EvPartiallyDelivered else EvDelivered) en3"
        using False d sc fo fr nd by (auto simp: dispatch_persisted_event_def Let_def snap_def sy_def as_def split: if_splits)
      then show ?thesis
        using at_set_status [OF n2(1)] n n2 ids
        by (intro exI [of _ "e\<lparr>ev_deliveries := new @ new2, ev_status := if af3 then EvPartiallyDelivered else EvDelivered\<rparr>"])
          (auto simp: m sy_def [symmetric] as_def [symmetric])
    qed
  qed
qed

lemma publish_records:
  assumes "inv (en_store en)" and "seq_room (view (en_store en))"
    and "validate_subject subj = Inr ()" and "validate_payload payload = Inr ()"
    and "intercepting \<noteq> Some subj" and "\<not> starts_with subj ''_reply.''"
    and "distinct (map entry_id (index_lookup (ds_index (en_state en)) subj))"
  shows "\<exists>en' e. publish_event E intercepting subj payload reply en = (Inr (next_seq (view (en_store en))), en')
    \<and> at_event (next_seq (view (en_store en))) e en'
    \<and> dispatch_record (en_state en) (matching E subj payload en) e"
proof -
  let ?q = "next_seq (view (en_store en))"
  let ?e = "\<lparr>ev_seq = 0, ev_subject = subj, ev_payload = payload, ev_stored_at = 0,
                     ev_status = EvPending, ev_deliveries = [], ev_reply_subject = reply\<rparr>"
  obtain s where s: "st_append (ee_store E) (en_store en) ?e (ee_now E (en_world en)) = (Inr ?q, s)" "inv s"
      "view s = (view (en_store en))(?q \<mapsto> ?e\<lparr>ev_seq := ?q, ev_stored_at := ee_now E (en_world en)\<rparr>)"
    using append_law [OF assms(1,2), of ?e] append_total [OF assms(1,2), of ?e] by auto
  let ?en = "en\<lparr>en_store := s, en_events_published := en_events_published en + 1\<rparr>"
  obtain res en' where d: "dispatch_persisted_event E ?q subj payload reply False ?en = (res, en')"
    by (rule prod.exhaust)
  have "at_event ?q (?e\<lparr>ev_seq := ?q, ev_stored_at := ee_now E (en_world en)\<rparr>) ?en"
    using s by (simp add: at_event_def)
  from dispatch_records [OF d this] assms(7)
  obtain e' where "at_event ?q e' en'" "dispatch_record (en_state en) (matching E subj payload en) e'"
    by (auto simp: matching_def)
  moreover have "res = Inr ?q"
    using dispatch_keeps [OF d] s(2) by simp
  ultimately show ?thesis
    using assms(3-6) s(1) d by (auto simp: publish_event_def Let_def)
qed

end

context engine_store
begin

lemma publish_logged:
  assumes "inv (en_store en)" and "seq_room (view (en_store en))" and "\<not> starts_with subj ''_reply.''"
    and "publish_event E intercepting subj payload reply en = (Inr q, en')"
  shows "q = next_seq (view (en_store en)) \<and> inv (en_store en')
    \<and> (\<exists>e. view (en_store en') q = Some e \<and> ev_subject e = subj \<and> ev_payload e = payload \<and> ev_reply_subject e = reply)
    \<and> (\<forall>k. k \<noteq> q \<longrightarrow> view (en_store en') k = view (en_store en) k)
    \<and> en_events_published en' = en_events_published en + 1 \<and> en_state en' = en_state en"
proof -
  let ?e = "\<lparr>ev_seq = 0, ev_subject = subj, ev_payload = payload, ev_stored_at = 0,
                     ev_status = EvPending, ev_deliveries = [], ev_reply_subject = reply\<rparr>"
  let ?n = "next_seq (view (en_store en))"
  obtain n s where s: "st_append (ee_store E) (en_store en) ?e (ee_now E (en_world en)) = (Inr n, s)"
      "dispatch_persisted_event E n subj payload reply False
         (en\<lparr>en_store := s, en_events_published := en_events_published en + 1\<rparr>) = (Inr q, en')"
    using assms(3,4) by (auto simp: publish_event_def Let_def split: sum.splits if_splits prod.splits)
  then have a: "n = ?n" "inv s" "view s = (view (en_store en))(?n \<mapsto> ?e\<lparr>ev_seq := ?n, ev_stored_at := ee_now E (en_world en)\<rparr>)"
    using append_law [OF assms(1,2), of ?e "ee_now E (en_world en)"] by (auto simp: failed_def)
  have "q = n \<and> keeps n (en\<lparr>en_store := s, en_events_published := en_events_published en + 1\<rparr>) en'
      \<and> en_state en' = en_state en \<and> en_events_published en' = en_events_published en + 1"
    using dispatch_keeps [OF s(2)] a(2) by simp
  then show ?thesis
    using a by (auto simp: keeps_def only_at_def same_event_def)
qed

end

lemma engine_store_intro: "event_store (ee_store E) view iv \<Longrightarrow> engine_store E view iv"
  by (simp add: engine_store_def)

lemma reliable_engine_intro: "reliable_store (ee_store E) view iv \<Longrightarrow> reliable_engine E view iv"
  by (simp add: reliable_engine_def engine_store_def reliable_store_def)

section \<open>A concrete runtime\<close>

text \<open>A world for concrete inputs: a clock, a counter of fresh names and the log of what the
  channels accepted. Channel \<open>0\<close> is full, channel \<open>1\<close> is closed, the others accept. An interceptor
  is the function that gives its outcome on a payload.\<close>

record demo_world =
  dw_clock :: u64
  dw_fresh :: nat
  dw_sent :: "(nat \<times> dispatched_event) list"

definition demo_env :: "(mem_store, string, nat, bytes \<Rightarrow> join_outcome, demo_world) engine_env" where
  "demo_env =
     \<lparr>ee_store = memory_ops, ee_json = demo_json, ee_retry_config = default_retry_config,
      ee_retry_enabled = True, ee_now = dw_clock, ee_rand = (\<lambda>w n. 0),
      ee_ulid = (\<lambda>w. (''sub-'' @ show_nat (dw_fresh w), w\<lparr>dw_fresh := Suc (dw_fresh w)\<rparr>)),
      ee_channel = (\<lambda>cap w. (dw_fresh w + 2, w\<lparr>dw_fresh := Suc (dw_fresh w)\<rparr>)),
      ee_try_send = (\<lambda>tx e w. if tx = 0 then (Inl ChFull, w) else if tx = 1 then (Inl ChClosed, w)
                               else (Inr (), w\<lparr>dw_sent := dw_sent w @ [(tx, e)]\<rparr>)),
      ee_send_error_text = (\<lambda>e. case e of ChFull \<Rightarrow> ''no available capacity'' | ChClosed \<Rightarrow> ''channel closed''),
      ee_intercept = (\<lambda>i d subj q t p w. (i p, w)),
      ee_webhook = (\<lambda>p s c w. (Inl NotReady, w))\<rparr>"

definition demo_engine ::
  "(string \<times> nat \<times> string subscription_entry) list
   \<Rightarrow> (string \<times> (bytes \<Rightarrow> join_outcome) \<times> string subscription_entry) list
   \<Rightarrow> (mem_store, string, nat, bytes \<Rightarrow> join_outcome, demo_world) engine" where
  "demo_engine subs ics =
     (with_components mem_new [] \<lparr>dw_clock = 1000, dw_fresh = 0, dw_sent = []\<rparr>)
       \<lparr>en_state := \<lparr>ds_index = router_run index_subscribe index_unsubscribe
            (map (\<lambda>x. SubscribeOp (snd (snd x))) subs @ map (\<lambda>x. SubscribeOp (snd (snd x))) ics) new_node,
          ds_senders = map_of (map (\<lambda>x. (fst x, fst (snd x))) subs),
          ds_interceptors = map_of (map (\<lambda>x. (fst x, fst (snd x))) ics)\<rparr>\<rparr>"

lemma demo_env_store [simp]: "ee_store demo_env = memory_ops"
  by (simp add: demo_env_def)

interpretation demo: reliable_engine demo_env mem_view mem_inv
  by (rule reliable_engine_intro) (simp add: mem.reliable_store_axioms)

section \<open>Properties\<close>

text \<open>C1. Publishing is write-ahead, over any event store, faulty or not: when \<open>publish_event\<close> on a
  subject outside \<open>_reply.\<close> returns a number, it is the next number of the log, the log holds under it
  the subject, the payload as it was passed in (interceptors change only what is delivered) and the
  reply subject; no other event and no subscription changed, and the published counter grew by one.\<close>

theorem publish_write_ahead:
  assumes "event_store (ee_store E) view iv" and "iv (en_store en)" and "seq_room (view (en_store en))"
    and "\<not> starts_with subj ''_reply.''"
    and "publish_event E intercepting subj payload reply en = (Inr q, en')"
  shows "q = next_seq (view (en_store en)) \<and> iv (en_store en')
    \<and> (\<exists>e. view (en_store en') q = Some e \<and> ev_subject e = subj \<and> ev_payload e = payload \<and> ev_reply_subject e = reply)
    \<and> (\<forall>k. k \<noteq> q \<longrightarrow> view (en_store en') k = view (en_store en) k)
    \<and> en_events_published en' = en_events_published en + 1 \<and> en_state en' = en_state en"
  by (rule engine_store.publish_logged [OF engine_store_intro [OF assms(1)] assms(2-5)])

definition demo_mutating :: "(mem_store, string, nat, bytes \<Rightarrow> join_outcome, demo_world) engine" where
  "demo_mutating = demo_engine [(''s'', 7, demo_entry ''s'' ''a.>'' 5 Async)]
     [(''i'', \<lambda>p. Finished Modified (9 # p), demo_entry ''i'' ''a.*'' 1 Sync)]"

lemmas demo_eval = demo_engine_def demo_env_def with_components_def demo_entry_def index_subscribe_def
  new_node_def MAX_SUBJECT_DEPTH_def upt_rec publish_event_def validate_subject_def validate_payload_def
  MAX_SUBJECT_LENGTH_def MAX_PAYLOAD_SIZE_def Let_def memory_ops_def mem_append_def mem_new_def
  dispatch_persisted_event_def index_lookup_def set_status_def mem_update_status_def passes_filter_def
  sync_snapshot_def async_senders_def sync_chain_Cons sync_step_def async_fanout_Cons async_step_def
  try_record_def mem_record_delivery_def apply_delivery_def first_delivery_def send_to_def

lemma demo_start: "mem_inv (en_store (demo_engine ss ics)) \<and> mem_view (en_store (demo_engine ss ics)) = Map.empty"
  by (simp add: demo_engine_def with_components_def mem_inv_new mem_view_new)

lemma demo_next_seq: "next_seq Map.empty = 1" "seq_room Map.empty"
  by (simp_all add: next_seq_def seq_room_def)

lemma demo_mutating_publish:
  "fst (publish_event demo_env None ''a.b'' [1] None demo_mutating) = Inr 1
   \<and> dw_sent (en_world (snd (publish_event demo_env None ''a.b'' [1] None demo_mutating)))
     = [(7, \<lparr>de_payload = [9, 1], de_reply_subject = None, de_subject = ''a.b'', de_seq = 1\<rparr>)]"
  by (simp add: demo_mutating_def demo_eval)

theorem publish_write_ahead_witness:
  "\<exists>e. mem_view (en_store (snd (publish_event demo_env None ''a.b'' [1] None demo_mutating))) 1 = Some e
     \<and> ev_payload e = [1]"
  using publish_write_ahead [of demo_env mem_view mem_inv demo_mutating "''a.b''" None "[1]" None 1
      "snd (publish_event demo_env None ''a.b'' [1] None demo_mutating)"]
    mem.event_store_axioms demo_mutating_publish
  by (auto simp: demo_mutating_def demo_start demo_next_seq prod_eq_iff)



end
