(* ===== verification/Retry_Task.thy ===== *)
theory Retry_Task
  imports Dispatch_Correct
begin

text \<open>
  The background tasks: the retry task (\<open>delivery/retry.rs\<close>), which polls the store for retryable
  deliveries and tries them again through the engine, and the compaction task
  (\<open>storage/compaction.rs\<close>). The store of the retry task is the store of the engine. The
  \<open>select!\<close> loops are functions of the sequence of branches that become ready.
\<close>

section \<open>Operations\<close>

definition record_outcome ::
  "('s, 'j, 'tx, 'i, 'w) engine_env \<Rightarrow> u64 \<Rightarrow> string \<Rightarrow> delivery_status \<Rightarrow> string option \<Rightarrow> u64 option
   \<Rightarrow> ('s, 'j, 'tx, 'i, 'w) engine \<Rightarrow> ('s, 'j, 'tx, 'i, 'w) engine" where
  "record_outcome E q sub_id status err next_retry en =
     en\<lparr>en_store := snd (st_record_delivery (ee_store E) (en_store en) q sub_id status err next_retry
                         (ee_now E (en_world en)))\<rparr>"

definition terminal_delivery :: "delivery_record \<Rightarrow> bool" where
  "terminal_delivery d \<longleftrightarrow> dl_status d = DlDelivered \<or> dl_status d = DlDeadLettered"

definition maybe_finalize_event ::
  "('s, 'j, 'tx, 'i, 'w) engine_env \<Rightarrow> u64 \<Rightarrow> ('s, 'j, 'tx, 'i, 'w) engine \<Rightarrow> ('s, 'j, 'tx, 'i, 'w) engine" where
  "maybe_finalize_event E q en =
     (case st_get (ee_store E) (en_store en) q of
        Inl _ \<Rightarrow> en
      | Inr None \<Rightarrow> en
      | Inr (Some event) \<Rightarrow>
          (let all_terminal = list_all terminal_delivery (ev_deliveries event) in
           if \<not> all_terminal then en
           else
             let any_dead = list_ex (\<lambda>d. dl_status d = DlDeadLettered) (ev_deliveries event);
                 final_status = (if any_dead then EvDeadLettered else EvDelivered) in
             en\<lparr>en_store := snd (st_update_status (ee_store E) (en_store en) q final_status)\<rparr>))"

definition dead_letter ::
  "('s, 'j, 'tx, 'i, 'w) engine_env \<Rightarrow> retryable_delivery \<Rightarrow> string
   \<Rightarrow> ('s, 'j, 'tx, 'i, 'w) engine \<Rightarrow> ('s, 'j, 'tx, 'i, 'w) engine" where
  "dead_letter E delivery reason en =
     maybe_finalize_event E (rd_seq delivery)
       (record_outcome E (rd_seq delivery) (rd_subscriber_id delivery) DlDeadLettered
          (Some (''dead-lettered: '' @ reason)) None en)"

definition retry_delivery ::
  "('s, 'j, 'tx, 'i, 'w) engine_env \<Rightarrow> retryable_delivery
   \<Rightarrow> ('s, 'j, 'tx, 'i, 'w) engine \<Rightarrow> ('s, 'j, 'tx, 'i, 'w) engine" where
  "retry_delivery E delivery en =
     (if rd_attempts delivery \<ge> max_attempts (ee_retry_config E) then
        dead_letter E delivery ''max attempts exceeded'' en
      else
        case retry_to_subscriber E (rd_subscriber_id delivery) (rd_subject delivery) (rd_payload delivery)
               (rd_reply_subject delivery) (rd_seq delivery) en of
          (Inr _, en) \<Rightarrow>
            maybe_finalize_event E (rd_seq delivery)
              (record_outcome E (rd_seq delivery) (rd_subscriber_id delivery) DlDelivered None None en)
        | (Inl (Transient msg), en) \<Rightarrow>
            (let new_attempts = rd_attempts delivery + 1 in
             if new_attempts \<ge> max_attempts (ee_retry_config E) then
               dead_letter E delivery
                 (''max attempts ('' @ show_word (max_attempts (ee_retry_config E)) @ '') exhausted: '' @ msg) en
             else
               let next_retry = next_retry_after (ee_rand E (en_world en)) (ee_now E (en_world en))
                                  new_attempts (ee_retry_config E) in
               record_outcome E (rd_seq delivery) (rd_subscriber_id delivery) DlFailed (Some msg)
                 (Some next_retry) en)
        | (Inl (Permanent msg), en) \<Rightarrow> dead_letter E delivery msg en)"

definition poll_and_retry ::
  "('s, 'j, 'tx, 'i, 'w) engine_env \<Rightarrow> nat
   \<Rightarrow> ('s, 'j, 'tx, 'i, 'w) engine \<Rightarrow> (event_bus_error + unit) \<times> ('s, 'j, 'tx, 'i, 'w) engine" where
  "poll_and_retry E query_limit en =
     (case st_query_retryable (ee_store E) (en_store en) (max_attempts (ee_retry_config E)) query_limit
             (ee_now E (en_world en)) of
        Inl e \<Rightarrow> (Inl (Storage e), en)
      | Inr retryables \<Rightarrow> (Inr (), fold (retry_delivery E) retryables en))"

text \<open>The branches of a \<open>select!\<close>: the timer fired, or the shutdown channel changed, with its new
  value, or with an error when its sender is gone.\<close>

datatype task_event = Elapsed | ShutdownChanged bool | ShutdownClosed

fun retry_loop ::
  "('s, 'j, 'tx, 'i, 'w) engine_env \<Rightarrow> nat \<Rightarrow> task_event list
   \<Rightarrow> ('s, 'j, 'tx, 'i, 'w) engine \<Rightarrow> bool \<times> ('s, 'j, 'tx, 'i, 'w) engine" where
  "retry_loop E query_limit [] en = (False, en)"
| "retry_loop E query_limit (Elapsed # evs) en = retry_loop E query_limit evs (snd (poll_and_retry E query_limit en))"
| "retry_loop E query_limit (ShutdownChanged v # evs) en =
     (if v then (True, en) else retry_loop E query_limit evs en)"
| "retry_loop E query_limit (ShutdownClosed # evs) en = (True, en)"

definition retry_run ::
  "('s, 'j, 'tx, 'i, 'w) engine_env \<Rightarrow> nat \<Rightarrow> bool \<Rightarrow> task_event list
   \<Rightarrow> ('s, 'j, 'tx, 'i, 'w) engine \<Rightarrow> bool \<times> ('s, 'j, 'tx, 'i, 'w) engine" where
  "retry_run E query_limit shut_down evs en =
     (if shut_down then (True, en) else retry_loop E query_limit evs en)"

fun compaction_run :: "'s store_ops \<Rightarrow> duration \<Rightarrow> (task_event \<times> u64) list \<Rightarrow> 's \<Rightarrow> bool \<times> 's" where
  "compaction_run S retention [] s = (False, s)"
| "compaction_run S retention ((Elapsed, now) # evs) s =
     compaction_run S retention evs (snd (st_compact S s retention now))"
| "compaction_run S retention ((ShutdownChanged v, _) # evs) s =
     (if v then (True, s) else compaction_run S retention evs s)"
| "compaction_run S retention ((ShutdownClosed, _) # evs) s = (True, s)"

section \<open>Frame conditions\<close>

lemma retry_to_subscriber_frame:
  "retry_to_subscriber E i subj p rep q en = (r, en') \<Longrightarrow>
     en_store en' = en_store en \<and> en_state en' = en_state en"
  by (auto simp: retry_to_subscriber_def split: option.splits channel_config.splits prod.splits sum.splits
      dest!: send_toD)

lemma record_outcome_frame [simp]:
  "en_state (record_outcome E q i st err nr en) = en_state en"
  "en_world (record_outcome E q i st err nr en) = en_world en"
  by (simp_all add: record_outcome_def)

lemma maybe_finalize_frame [simp]:
  "en_state (maybe_finalize_event E q en) = en_state en"
  "en_world (maybe_finalize_event E q en) = en_world en"
  by (simp_all add: maybe_finalize_event_def Let_def split: sum.splits option.splits)

section \<open>The effect of a retry on the log\<close>

definition finalized :: "stored_event \<Rightarrow> stored_event" where
  "finalized e =
     (if list_all terminal_delivery (ev_deliveries e)
      then e\<lparr>ev_status := (if list_ex (\<lambda>d. dl_status d = DlDeadLettered) (ev_deliveries e)
                           then EvDeadLettered else EvDelivered)\<rparr>
      else e)"

definition with_delivery :: "string \<Rightarrow> (delivery_record \<Rightarrow> delivery_record) \<Rightarrow> stored_event \<Rightarrow> stored_event" where
  "with_delivery i f e = e\<lparr>ev_deliveries := update_first (\<lambda>d. dl_subscriber_id d = i) f (ev_deliveries e)\<rparr>"

lemma finalized_deliveries [simp]: "ev_deliveries (finalized e) = ev_deliveries e"
  by (simp add: finalized_def)

text \<open>What one retry does to the record of its delivery, by the outcome of the attempt.\<close>

definition retried ::
  "retry_config \<Rightarrow> retry_outcome + unit \<Rightarrow> delivery_record \<Rightarrow> delivery_record \<Rightarrow> bool" where
  "retried cfg outcome d d' \<longleftrightarrow>
     (case outcome of
        Inr _ \<Rightarrow> dl_status d' = DlDelivered \<and> dl_attempts d' = dl_attempts d \<and> dl_error d' = dl_error d
      | Inl (Transient msg) \<Rightarrow>
          dl_attempts d' = dl_attempts d + 1
          \<and> (if dl_attempts d + 1 < max_attempts cfg
             then dl_status d' = DlFailed \<and> dl_next_retry d' \<noteq> None \<and> dl_error d' = Some msg
             else dl_status d' = DlDeadLettered \<and> dl_next_retry d' = None)
      | Inl (Permanent msg) \<Rightarrow>
          dl_status d' = DlDeadLettered \<and> dl_attempts d' = dl_attempts d + 1
          \<and> dl_error d' = Some (''dead-lettered: '' @ msg) \<and> dl_next_retry d' = None)"

text \<open>Retrying one delivery again and again, as the polls do once its retry time has come.\<close>

definition retry_row :: "stored_event \<Rightarrow> delivery_record \<Rightarrow> retryable_delivery" where
  "retry_row e d =
     \<lparr>rd_seq = ev_seq e, rd_subject = ev_subject e, rd_subscriber_id = dl_subscriber_id d,
      rd_attempts = dl_attempts d, rd_payload = ev_payload e, rd_reply_subject = ev_reply_subject e,
      rd_next_retry = dl_next_retry d\<rparr>"

fun retry_rounds ::
  "('s, 'j, 'tx, 'i, 'w) engine_env \<Rightarrow> u64 \<Rightarrow> string \<Rightarrow> nat
   \<Rightarrow> ('s, 'j, 'tx, 'i, 'w) engine \<Rightarrow> ('s, 'j, 'tx, 'i, 'w) engine" where
  "retry_rounds E q i 0 en = en"
| "retry_rounds E q i (Suc n) en =
     (case st_get (ee_store E) (en_store en) q of
        Inr (Some e) \<Rightarrow>
          (case find (\<lambda>d. dl_subscriber_id d = i) (ev_deliveries e) of
             Some d \<Rightarrow> if dl_status d = DlFailed then retry_rounds E q i n (retry_delivery E (retry_row e d) en) else en
           | None \<Rightarrow> en)
      | _ \<Rightarrow> en)"

lemma retried_progress:
  assumes "retried cfg outcome d d'" and "dl_attempts d < max_attempts cfg"
  shows "terminal_delivery d' \<or> (dl_status d' = DlFailed \<and> dl_attempts d' < max_attempts cfg
    \<and> unat (dl_attempts d') = Suc (unat (dl_attempts d)))"
proof -
  have "unat (dl_attempts d + 1) = Suc (unat (dl_attempts d))"
    using assms(2) unsigned_less [of "max_attempts cfg", where ?'a = nat]
    by (simp add: unat_word_ariths word_less_nat_alt)
  then show ?thesis
    using assms by (auto simp: retried_def terminal_delivery_def split: sum.splits retry_outcome.splits if_splits)
qed

context reliable_engine
begin

lemma at_record_outcome:
  assumes "at_event q e en" and "find (\<lambda>d. dl_subscriber_id d = i) (ev_deliveries e) = Some d"
  shows "at_event q (with_delivery i (update_delivery st err nr (ee_now E (en_world en))) e)
           (record_outcome E q i st err nr en)
    \<and> (\<forall>k. k \<noteq> q \<longrightarrow> view (en_store (record_outcome E q i st err nr en)) k = view (en_store en) k)"
  using assms record_law [of "en_store en" q i st err nr "ee_now E (en_world en)"]
    record_total [of "en_store en" q i st err nr "ee_now E (en_world en)"]
  by (auto simp: at_event_def record_outcome_def upd_event_def apply_delivery_def with_delivery_def)

lemma at_maybe_finalize:
  assumes "at_event q e en"
  shows "at_event q (finalized e) (maybe_finalize_event E q en)
    \<and> (\<forall>k. k \<noteq> q \<longrightarrow> view (en_store (maybe_finalize_event E q en)) k = view (en_store en) k)"
proof -
  let ?st = "if list_ex (\<lambda>d. dl_status d = DlDeadLettered) (ev_deliveries e) then EvDeadLettered else EvDelivered"
  have get: "st_get (ee_store E) (en_store en) q = Inr (Some e)"
    using assms get_total by (simp add: at_event_def)
  show ?thesis
  proof (cases "list_all terminal_delivery (ev_deliveries e)")
    case True
    have "maybe_finalize_event E q en = set_status E False q ?st en"
      using get True by (simp add: maybe_finalize_event_def Let_def set_status_def)
    moreover have "keeps q en (set_status E False q ?st en)"
      using assms keeps_set_status by (simp add: at_event_def)
    ultimately show ?thesis
      using True at_set_status [OF assms, of ?st] by (simp add: finalized_def keeps_def only_at_def)
  next
    case False
    then show ?thesis
      using assms get by (simp add: maybe_finalize_event_def Let_def finalized_def)
  qed
qed

lemma at_dead_letter:
  assumes "at_event q e en" and "find (\<lambda>d. dl_subscriber_id d = i) (ev_deliveries e) = Some d"
    and "rd_seq rd = q" and "rd_subscriber_id rd = i"
  shows "at_event q (finalized (with_delivery i (update_delivery DlDeadLettered
           (Some (''dead-lettered: '' @ reason)) None (ee_now E (en_world en))) e)) (dead_letter E rd reason en)
    \<and> (\<forall>k. k \<noteq> q \<longrightarrow> view (en_store (dead_letter E rd reason en)) k = view (en_store en) k)"
  unfolding dead_letter_def assms(3,4)
  using at_record_outcome [OF assms(1,2), of DlDeadLettered "Some (''dead-lettered: '' @ reason)" None]
  by (auto dest: at_maybe_finalize)

lemma find_with_delivery:
  assumes "find (\<lambda>d. dl_subscriber_id d = i) (ev_deliveries e) = Some d" and "\<And>x. dl_subscriber_id (f x) = dl_subscriber_id x"
  shows "find (\<lambda>d. dl_subscriber_id d = i) (ev_deliveries (with_delivery i f e)) = Some (f d)"
  using assms by (simp add: with_delivery_def find_update_first)

lemma find_with_delivery_other:
  assumes "j \<noteq> i" and "\<And>x. dl_subscriber_id (f x) = dl_subscriber_id x"
  shows "find (\<lambda>d. dl_subscriber_id d = j) (ev_deliveries (with_delivery i f e)) =
    find (\<lambda>d. dl_subscriber_id d = j) (ev_deliveries e)"
  using assms by (auto simp: with_delivery_def find_update_first_other)

lemma retry_records:
  assumes at: "at_event q e en" and d: "find (\<lambda>d. dl_subscriber_id d = i) (ev_deliveries e) = Some d"
    and rd: "rd_seq rd = q" "rd_subscriber_id rd = i" "rd_attempts rd = dl_attempts d"
    and max: "dl_attempts d < max_attempts (ee_retry_config E)"
    and out: "retry_to_subscriber E i (rd_subject rd) (rd_payload rd) (rd_reply_subject rd) q en = (outcome, en1)"
  shows "\<exists>e' d'. at_event q e' (retry_delivery E rd en)
    \<and> find (\<lambda>d. dl_subscriber_id d = i) (ev_deliveries e') = Some d'
    \<and> retried (ee_retry_config E) outcome d d'
    \<and> (\<forall>j. j \<noteq> i \<longrightarrow> find (\<lambda>d. dl_subscriber_id d = j) (ev_deliveries e') = find (\<lambda>d. dl_subscriber_id d = j) (ev_deliveries e))
    \<and> (terminal_delivery d' \<longrightarrow> e' = finalized e')
    \<and> (\<forall>k. k \<noteq> q \<longrightarrow> view (en_store (retry_delivery E rd en)) k = view (en_store en) k)"
proof -
  have at1: "at_event q e en1" and st1: "en_store en1 = en_store en"
    using at retry_to_subscriber_frame [OF out] by (simp_all add: at_event_def)
  have idem: "finalized (finalized x) = finalized x" for x
    by (simp add: finalized_def)
  note upd = find_with_delivery [OF d] find_with_delivery_other [of _ i]
  have deliver: ?thesis
    if e': "at_event q e' (retry_delivery E rd en)" "ev_deliveries e' = ev_deliveries (with_delivery i f e)"
      and f: "\<And>x. dl_subscriber_id (f x) = dl_subscriber_id x" "retried (ee_retry_config E) outcome d (f d)"
      and fin: "terminal_delivery (f d) \<Longrightarrow> e' = finalized e'"
      and oth: "\<forall>k. k \<noteq> q \<longrightarrow> view (en_store (retry_delivery E rd en)) k = view (en_store en) k" for e' f
    using e' f fin oth upd by (intro exI [of _ e'] exI [of _ "f d"]) simp
  have nmax: "\<not> max_attempts (ee_retry_config E) \<le> dl_attempts d"
    using max by simp
  note rec = at_record_outcome [OF at1 d]
  note dead = at_dead_letter [OF at1 d rd(1,2)]
  let ?now = "ee_now E (en_world en1)"
  show ?thesis
  proof (cases outcome)
    case (Inr u)
    have r: "retry_delivery E rd en = maybe_finalize_event E q (record_outcome E q i DlDelivered None None en1)"
      using out rd nmax Inr by (simp add: retry_delivery_def)
    show ?thesis
      using rec [of DlDelivered None None] at_maybe_finalize [of q _ "record_outcome E q i DlDelivered None None en1"]
      by (intro deliver [where f = "update_delivery DlDelivered None None ?now"
            and e' = "finalized (with_delivery i (update_delivery DlDelivered None None ?now) e)"])
        (auto simp: r st1 idem Inr retried_def update_delivery_def counts_attempt_def)
  next
    case (Inl o1)
    show ?thesis
    proof (cases o1)
      case (Permanent msg)
      have r: "retry_delivery E rd en = dead_letter E rd msg en1"
        using out rd nmax Inl Permanent by (simp add: retry_delivery_def)
      show ?thesis
        using dead [of msg]
        by (intro deliver [where f = "update_delivery DlDeadLettered (Some (''dead-lettered: '' @ msg)) None ?now"
              and e' = "finalized (with_delivery i (update_delivery DlDeadLettered (Some (''dead-lettered: '' @ msg)) None ?now) e)"])
          (auto simp: r st1 idem Inl Permanent retried_def update_delivery_def counts_attempt_def)
    next
      case (Transient msg)
      show ?thesis
      proof (cases "dl_attempts d + 1 < max_attempts (ee_retry_config E)")
        case True
        let ?nr = "next_retry_after (ee_rand E (en_world en1)) ?now (dl_attempts d + 1) (ee_retry_config E)"
        have r: "retry_delivery E rd en = record_outcome E q i DlFailed (Some msg) (Some ?nr) en1"
          using out rd nmax Inl Transient True by (simp add: retry_delivery_def Let_def)
        show ?thesis
          using rec [of DlFailed "Some msg" "Some ?nr"]
          by (intro deliver [where f = "update_delivery DlFailed (Some msg) (Some ?nr) ?now"
                and e' = "with_delivery i (update_delivery DlFailed (Some msg) (Some ?nr) ?now) e"])
            (auto simp: r st1 Inl Transient True retried_def update_delivery_def counts_attempt_def terminal_delivery_def)
      next
        case False
        let ?m = "''max attempts ('' @ show_word (max_attempts (ee_retry_config E)) @ '') exhausted: '' @ msg"
        have r: "retry_delivery E rd en = dead_letter E rd ?m en1"
          using out rd nmax Inl Transient False by (simp add: retry_delivery_def Let_def)
        show ?thesis
          using dead [of ?m]
          by (intro deliver [where f = "update_delivery DlDeadLettered (Some (''dead-lettered: '' @ ?m)) None ?now"
                and e' = "finalized (with_delivery i (update_delivery DlDeadLettered (Some (''dead-lettered: '' @ ?m)) None ?now) e)"])
            (auto simp: r st1 idem Inl Transient False retried_def update_delivery_def counts_attempt_def)
      qed
    qed
  qed
qed

lemma rounds_terminate:
  assumes "at_event q e en" and "find (\<lambda>d. dl_subscriber_id d = i) (ev_deliveries e) = Some d"
    and "dl_status d = DlFailed" and "dl_attempts d < max_attempts (ee_retry_config E)"
    and "unat (max_attempts (ee_retry_config E)) - unat (dl_attempts d) \<le> n"
  shows "\<exists>e' d'. at_event q e' (retry_rounds E q i n en)
    \<and> find (\<lambda>d. dl_subscriber_id d = i) (ev_deliveries e') = Some d' \<and> terminal_delivery d' \<and> e' = finalized e'"
  using assms
proof (induction n arbitrary: e en d)
  case 0
  then show ?case by (simp add: word_less_nat_alt)
next
  case (Suc n)
  have get: "st_get (ee_store E) (en_store en) q = Inr (Some e)"
    using Suc.prems(1) get_total by (simp add: at_event_def)
  have seq: "ev_seq e = q"
    using Suc.prems(1) view_wf by (auto simp: at_event_def log_wf_def)
  have i: "dl_subscriber_id d = i"
    using find_Some_mem [OF Suc.prems(2)] by simp
  let ?rd = "retry_row e d"
  obtain outcome en1 where out: "retry_to_subscriber E i (rd_subject ?rd) (rd_payload ?rd) (rd_reply_subject ?rd) q en = (outcome, en1)"
    by (rule prod.exhaust)
  obtain e' d' where r: "at_event q e' (retry_delivery E ?rd en)"
      "find (\<lambda>d. dl_subscriber_id d = i) (ev_deliveries e') = Some d'"
      "retried (ee_retry_config E) outcome d d'" "terminal_delivery d' \<longrightarrow> e' = finalized e'"
    using retry_records [OF Suc.prems(1,2) _ _ _ Suc.prems(4) out] seq i by (auto simp: retry_row_def)
  have step: "retry_rounds E q i (Suc n) en = retry_rounds E q i n (retry_delivery E ?rd en)"
    using get Suc.prems(2,3) by simp
  show ?case
  proof (cases "terminal_delivery d'")
    case True
    have "st_get (ee_store E) (en_store (retry_delivery E ?rd en)) q = Inr (Some e')"
      using r(1) get_total by (simp add: at_event_def)
    then have "retry_rounds E q i n (retry_delivery E ?rd en) = retry_delivery E ?rd en"
      using r(2) True by (cases n) (auto simp: terminal_delivery_def)
    then show ?thesis
      using r True step by auto
  next
    case False
    then have p: "dl_status d' = DlFailed" "dl_attempts d' < max_attempts (ee_retry_config E)"
        "unat (dl_attempts d') = Suc (unat (dl_attempts d))"
      using retried_progress [OF r(3) Suc.prems(4)] by auto
    show ?thesis
      unfolding step using Suc.IH [OF r(1,2) p(1,2)] p(3) Suc.prems(5) by simp
  qed
qed

end

lemma poll_idle:
  assumes "reliable_store (ee_store E) view iv" and "iv (en_store en)"
    and "retryable_rows (max_attempts (ee_retry_config E)) (ee_now E (en_world en)) (view (en_store en)) = []"
  shows "poll_and_retry E n en = (Inr (), en)"
proof -
  have "\<exists>rs. st_query_retryable (ee_store E) (en_store en) (max_attempts (ee_retry_config E)) n
      (ee_now E (en_world en)) = Inr rs"
    by (rule reliable_store.retryable_total [OF assms(1,2)])
  then obtain rs where rs: "st_query_retryable (ee_store E) (en_store en) (max_attempts (ee_retry_config E)) n
      (ee_now E (en_world en)) = Inr rs" ..
  then have "rs = []"
    using event_store.retryable_law [OF reliable_store.axioms(1) [OF assms(1)] assms(2)] assms(3) by fastforce
  with rs show ?thesis by (simp add: poll_and_retry_def)
qed

section \<open>Properties\<close>

text \<open>C4. One retry of a failed delivery that has attempts left, over a store without infrastructure
  faults. On success its record becomes \<open>Delivered\<close> with its attempts and last error kept; on a
  transient failure the attempts grow by one and it stays \<open>Failed\<close> with a new retry time, or becomes
  \<open>DeadLettered\<close> when the attempts are used up; on a permanent failure it becomes \<open>DeadLettered\<close>. The
  other records of the event and the other events do not change, and once the record is terminal
  the event has its final status if all of its records are.\<close>

theorem retry_delivery_outcome:
  assumes "reliable_store (ee_store E) view iv" and "iv (en_store en)" and "view (en_store en) q = Some e"
    and "find (\<lambda>d. dl_subscriber_id d = i) (ev_deliveries e) = Some d"
    and "rd_seq rd = q" and "rd_subscriber_id rd = i" and "rd_attempts rd = dl_attempts d"
    and "dl_attempts d < max_attempts (ee_retry_config E)"
    and "retry_to_subscriber E i (rd_subject rd) (rd_payload rd) (rd_reply_subject rd) q en = (outcome, en1)"
  shows "\<exists>e' d'. iv (en_store (retry_delivery E rd en)) \<and> view (en_store (retry_delivery E rd en)) q = Some e'
    \<and> find (\<lambda>d. dl_subscriber_id d = i) (ev_deliveries e') = Some d'
    \<and> retried (ee_retry_config E) outcome d d'
    \<and> (\<forall>j. j \<noteq> i \<longrightarrow> find (\<lambda>d. dl_subscriber_id d = j) (ev_deliveries e') = find (\<lambda>d. dl_subscriber_id d = j) (ev_deliveries e))
    \<and> (terminal_delivery d' \<longrightarrow> e' = finalized e')
    \<and> (\<forall>k. k \<noteq> q \<longrightarrow> view (en_store (retry_delivery E rd en)) k = view (en_store en) k)"
proof -
  note R = reliable_engine_intro [OF assms(1)]
  have "reliable_engine.at_event view iv q e en"
    using assms(2,3) by (simp add: reliable_engine.at_event_def [OF R])
  from reliable_engine.retry_records [OF R this assms(4-9)] show ?thesis
    unfolding reliable_engine.at_event_def [OF R] by blast
qed

definition demo_failed :: stored_event where
  "demo_failed =
     \<lparr>ev_seq = 1, ev_subject = ''a.b'', ev_payload = [1], ev_stored_at = 1000, ev_status = EvPartiallyDelivered,
      ev_deliveries = [\<lparr>dl_subscriber_id = ''s'', dl_status = DlFailed, dl_attempts = 1, dl_last_attempt = Some 1000,
        dl_next_retry = Some 1100, dl_error = Some ''subscriber channel full''\<rparr>],
      ev_reply_subject = None\<rparr>"

definition demo_retry :: "nat \<Rightarrow> (mem_store, string, nat, bytes \<Rightarrow> join_outcome, demo_world) engine" where
  "demo_retry tx = (demo_engine [(''s'', tx, demo_entry ''s'' ''a.>'' 5 Async)] [])
     \<lparr>en_store := \<lparr>mem_events = [demo_failed], mem_subscriptions = []\<rparr>\<rparr>"

lemma demo_retry_store:
  "mem_inv (en_store (demo_retry tx))" "mem_view (en_store (demo_retry tx)) 1 = Some demo_failed"
  by (simp_all add: demo_retry_def demo_failed_def mem_inv_def mem_view_def deliveries_wf_def)

lemma demo_retry_send:
  "retry_to_subscriber demo_env ''s'' ''a.b'' [1] None 1 (demo_retry 0)
     = (Inl (Transient ''no available capacity''), demo_retry 0)"
  by (simp add: retry_to_subscriber_def index_find_by_id_def demo_retry_def demo_eval)

theorem retry_delivery_outcome_witness:
  "\<exists>e' d'. mem_view (en_store (retry_delivery demo_env (retry_row demo_failed (hd (ev_deliveries demo_failed))) (demo_retry 0))) 1 = Some e'
    \<and> find (\<lambda>d. dl_subscriber_id d = ''s'') (ev_deliveries e') = Some d'
    \<and> dl_status d' = DlFailed \<and> dl_attempts d' = 2"
proof -
  let ?rd = "retry_row demo_failed (hd (ev_deliveries demo_failed))"
  have "\<exists>e' d'. mem_inv (en_store (retry_delivery demo_env ?rd (demo_retry 0)))
      \<and> mem_view (en_store (retry_delivery demo_env ?rd (demo_retry 0))) 1 = Some e'
      \<and> find (\<lambda>d. dl_subscriber_id d = ''s'') (ev_deliveries e') = Some d'
      \<and> retried (ee_retry_config demo_env) (Inl (Transient ''no available capacity'')) (hd (ev_deliveries demo_failed)) d'"
    using retry_delivery_outcome [of demo_env mem_view mem_inv "demo_retry 0" 1 demo_failed "''s''"
        "hd (ev_deliveries demo_failed)" ?rd "Inl (Transient ''no available capacity'')" "demo_retry 0"]
      mem.reliable_store_axioms demo_retry_store demo_retry_send
    by (fastforce simp: demo_failed_def retry_row_def demo_env_def default_retry_config_def)
  then show ?thesis
    by (force simp: retried_def demo_failed_def demo_env_def default_retry_config_def split: if_splits)
qed

text \<open>C5. Retries end. Whatever the attempts return, a failed delivery with attempts left is
  \<open>Delivered\<close> or \<open>DeadLettered\<close> after at most \<open>max_attempts\<close> minus its attempts further tries, and
  its event then has its final status unless another of its records still waits.\<close>

theorem retries_terminate:
  assumes "reliable_store (ee_store E) view iv" and "iv (en_store en)" and "view (en_store en) q = Some e"
    and "find (\<lambda>d. dl_subscriber_id d = i) (ev_deliveries e) = Some d" and "dl_status d = DlFailed"
    and "dl_attempts d < max_attempts (ee_retry_config E)"
    and "unat (max_attempts (ee_retry_config E)) - unat (dl_attempts d) \<le> n"
  shows "\<exists>e' d'. view (en_store (retry_rounds E q i n en)) q = Some e'
    \<and> find (\<lambda>d. dl_subscriber_id d = i) (ev_deliveries e') = Some d' \<and> terminal_delivery d' \<and> e' = finalized e'"
proof -
  note R = reliable_engine_intro [OF assms(1)]
  have "reliable_engine.at_event view iv q e en"
    using assms(2,3) by (simp add: reliable_engine.at_event_def [OF R])
  from reliable_engine.rounds_terminate [OF R this assms(4-7)] show ?thesis
    unfolding reliable_engine.at_event_def [OF R] by blast
qed

theorem retries_terminate_witness:
  "\<exists>e' d'. mem_view (en_store (retry_rounds demo_env 1 ''s'' 4 (demo_retry 0))) 1 = Some e'
    \<and> find (\<lambda>d. dl_subscriber_id d = ''s'') (ev_deliveries e') = Some d' \<and> terminal_delivery d' \<and> e' = finalized e'"
  by (rule retries_terminate [of demo_env mem_view mem_inv "demo_retry 0" 1 demo_failed "''s''"
        "hd (ev_deliveries demo_failed)"])
    (simp_all add: mem.reliable_store_axioms demo_retry_store,
      simp_all add: demo_failed_def demo_env_def default_retry_config_def)

definition demo_timeout :: "(mem_store, string, nat, bytes \<Rightarrow> join_outcome, demo_world) engine" where
  "demo_timeout = demo_engine [] [(''i'', \<lambda>p. TimedOut, demo_entry ''i'' ''a.*'' 1 Sync)]"

definition demo_stuck :: "(mem_store, string, nat, bytes \<Rightarrow> join_outcome, demo_world) engine" where
  "demo_stuck = snd (publish_event demo_env None ''a.b'' [1] None demo_timeout)"

lemma demo_stuck_events:
  "map (\<lambda>e. (ev_seq e, ev_status e, map dl_status (ev_deliveries e))) (mem_events (en_store demo_stuck))
     = [(1, EvPartiallyDelivered, [DlDeadLettered])]"
  by (simp add: demo_stuck_def demo_timeout_def demo_eval)

lemma demo_stuck_event:
  "\<exists>e d. mem_events (en_store demo_stuck) = [e] \<and> ev_seq e = 1 \<and> ev_status e = EvPartiallyDelivered
     \<and> ev_deliveries e = [d] \<and> dl_status d = DlDeadLettered"
  using demo_stuck_events by (auto simp: map_eq_Cons_conv)

lemma demo_stuck_inv: "mem_inv (en_store demo_stuck)"
  using demo_stuck_event by (auto simp: mem_inv_def deliveries_wf_def)


end
