(* ===== verification/Dispatch_Fanout.thy ===== *)
theory Dispatch_Fanout
  imports Dispatch_Correct
begin

text \<open>
  Who receives a published event. The contract \<open>bus_runtime\<close> says what the engine relies on of the
  channels of tokio: an accepted \<open>try_send\<close> appends the event to what the channels hold, a refused
  one changes nothing, and running an interceptor puts nothing on the channels. Under it, a
  dispatch delivers to matching subscriptions only, all async subscribers receive one and the
  same payload, and a dropped event reaches none of them. Then the errors of a publish, and the
  ephemeral reply subjects.
\<close>

section \<open>The channels during a dispatch\<close>

lemma async_failed_mono:
  "async_fanout E r q subj rep p snds af en = (af', en') \<Longrightarrow> af \<Longrightarrow> af'"
proof (induction snds arbitrary: af en)
  case (Cons x snds)
  then show ?case by (auto simp: async_fanout_Cons split: prod.splits)
qed simp

locale bus_runtime =
  fixes E :: "('s, 'j, 'tx, 'i, 'w) engine_env"
    and sent :: "'w \<Rightarrow> ('tx \<times> dispatched_event) list"
  assumes try_send_ok: "ee_try_send E tx ev w = (Inr u, w') \<Longrightarrow> sent w' = sent w @ [(tx, ev)]"
    and try_send_err: "ee_try_send E tx ev w = (Inl x, w') \<Longrightarrow> sent w' = sent w"
    and intercept_quiet: "sent (snd (ee_intercept E i d subj q t p w)) = sent w"
begin

lemma send_to_sent:
  "send_to E tx ev en = (r, en') \<Longrightarrow>
     sent (en_world en') = sent (en_world en) @ (case r of Inr _ \<Rightarrow> [(tx, ev)] | Inl _ \<Rightarrow> [])"
  by (cases r) (auto simp: send_to_def split: prod.splits dest: try_send_ok try_send_err)

lemma sync_step_sent:
  assumes "sync_step E q subj rep x p en = (st, err, p', stop, en1)"
  shows "\<exists>new. sent (en_world en1) = sent (en_world en) @ new
    \<and> (\<forall>y \<in> set new. fst (snd (snd x)) = None \<and> snd (snd (snd x)) = Some (fst y)
         \<and> de_subject (snd y) = subj \<and> de_seq (snd y) = q \<and> de_reply_subject (snd y) = rep)"
proof -
  obtain i d io so where x: "x = (i, d, io, so)" by (rule prod_cases4)
  show ?thesis
  proof (cases io)
    case (Some ic)
    then show ?thesis
      using assms x intercept_quiet [of ic d subj q "ee_now E (en_world en)" p "en_world en"]
      by (auto simp: sync_step_def split: prod.splits join_outcome.splits)
  next
    case None
    then show ?thesis
      using assms x by (cases so) (auto simp: sync_step_def split: prod.splits sum.splits dest!: send_to_sent)
  qed
qed

lemma sync_chain_sent:
  "sync_chain E r q subj rep snap p af en = (p', af', dr, en') \<Longrightarrow>
   \<exists>new. sent (en_world en') = sent (en_world en) @ new
    \<and> (\<forall>y \<in> set new. (\<exists>x \<in> set snap. fst (snd (snd x)) = None \<and> snd (snd (snd x)) = Some (fst y))
         \<and> de_subject (snd y) = subj \<and> de_seq (snd y) = q \<and> de_reply_subject (snd y) = rep)"
proof (induction snap arbitrary: p af en)
  case (Cons x snap)
  obtain st err p1 stop en1 where s: "sync_step E q subj rep x p en = (st, err, p1, stop, en1)"
    by (rule prod_cases5)
  obtain new1 where n1: "sent (en_world en1) = sent (en_world en) @ new1"
      "\<forall>y \<in> set new1. fst (snd (snd x)) = None \<and> snd (snd (snd x)) = Some (fst y)
         \<and> de_subject (snd y) = subj \<and> de_seq (snd y) = q \<and> de_reply_subject (snd y) = rep"
    using sync_step_sent [OF s] by blast
  show ?case
  proof (cases stop)
    case True
    with Cons.prems s n1 show ?thesis by (auto simp: sync_chain_Cons)
  next
    case False
    with Cons.prems s have "sync_chain E r q subj rep snap p1 (af \<or> st \<noteq> DlDelivered)
        (try_record E r q (fst x) st err en1) = (p', af', dr, en')"
      by (simp add: sync_chain_Cons)
    from Cons.IH [OF this] n1 show ?thesis by fastforce
  qed
qed simp

lemma async_fanout_sent:
  "async_fanout E r q subj rep p snds af en = (af', en') \<Longrightarrow>
   \<exists>new. sent (en_world en') = sent (en_world en) @ map (\<lambda>tx. (tx, \<lparr>de_payload = p, de_reply_subject = rep, de_subject = subj, de_seq = q\<rparr>)) new
    \<and> (\<forall>tx \<in> set new. Some tx \<in> snd ` set snds)
    \<and> (\<not> af' \<longrightarrow> map Some new = map snd snds)"
proof (induction snds arbitrary: af en)
  case (Cons x snds)
  obtain st err en1 where s: "async_step E q subj rep p (snd x) en = (st, err, en1)"
    by (rule prod_cases3)
  let ?ev = "\<lparr>de_payload = p, de_reply_subject = rep, de_subject = subj, de_seq = q\<rparr>"
  have c: "async_fanout E r q subj rep p snds (af \<or> st \<noteq> DlDelivered) (try_record E r q (fst x) st err en1) = (af', en')"
    using Cons.prems s by (simp add: async_fanout_Cons)
  obtain new where n: "sent (en_world en') = sent (en_world en1) @ map (\<lambda>tx. (tx, ?ev)) new"
      "\<forall>tx \<in> set new. Some tx \<in> snd ` set snds" "\<not> af' \<longrightarrow> map Some new = map snd snds"
    using Cons.IH [OF c] by auto
  have mono: "af'" if "af \<or> st \<noteq> DlDelivered"
    using c that async_failed_mono by blast
  show ?case
  proof (cases "st = DlDelivered")
    case True
    then obtain tx where "snd x = Some tx" "sent (en_world en1) = sent (en_world en) @ [(tx, ?ev)]"
      using s by (auto simp: async_step_def split: option.splits prod.splits sum.splits try_send_error.splits
          dest!: send_to_sent)
    with n show ?thesis by (intro exI [of _ "tx # new"]) auto
  next
    case False
    then have "sent (en_world en1) = sent (en_world en)"
      using s by (auto simp: async_step_def split: option.splits prod.splits sum.splits try_send_error.splits
          dest!: send_to_sent)
    with n mono False show ?thesis by (intro exI [of _ new]) auto
  qed
qed simp

lemma dispatch_sent:
  assumes d: "dispatch_persisted_event E q subj p rep r en = (res, en')"
  shows "\<exists>sy txs p'. sent (en_world en') = sent (en_world en) @ sy
      @ map (\<lambda>tx. (tx, \<lparr>de_payload = p', de_reply_subject = rep, de_subject = subj, de_seq = q\<rparr>)) txs
    \<and> (\<forall>y \<in> set sy. de_subject (snd y) = subj \<and> de_seq (snd y) = q \<and> de_reply_subject (snd y) = rep
         \<and> (\<exists>e \<in> set (matching E subj p en). mode e = Sync \<and> ds_interceptors (en_state en) (entry_id e) = None
              \<and> ds_senders (en_state en) (entry_id e) = Some (fst y)))
    \<and> (\<forall>tx \<in> set txs. \<exists>e \<in> set (matching E subj p en).
         mode e = Async \<and> ds_senders (en_state en) (entry_id e) = Some tx)"
proof -
  let ?ms = "index_lookup (ds_index (en_state en)) subj"
  define sy where "sy = filter (\<lambda>e. passes_filter (ee_json E) p e \<and> mode e = Sync) ?ms"
  define as where "as = filter (\<lambda>e. passes_filter (ee_json E) p e \<and> mode e = Async) ?ms"
  let ?en1 = "set_status E r q EvDispatching en"
  obtain p2 af2 dr en2 where sc: "sync_chain E r q subj rep (sync_snapshot (en_state en) sy) p False ?en1 = (p2, af2, dr, en2)"
    by (rule prod_cases4)
  have fr: "en_state en2 = en_state en"
    using sync_chain_frame [OF sc] by simp
  obtain af3 en3 where fo: "async_fanout E r q subj rep p2 (async_senders (en_state en) as) af2 en2 = (af3, en3)"
    by (rule prod.exhaust)
  have cases: "en_world en' = en_world en \<or> en_world en' = en_world en2 \<or> en_world en' = en_world en3"
    using d sc fo fr
    by (auto simp: dispatch_persisted_event_def Let_def sy_def as_def split: if_splits)
  obtain new where new: "sent (en_world en2) = sent (en_world en) @ new"
      "\<forall>y \<in> set new. (\<exists>x \<in> set (sync_snapshot (en_state en) sy). fst (snd (snd x)) = None \<and> snd (snd (snd x)) = Some (fst y))
         \<and> de_subject (snd y) = subj \<and> de_seq (snd y) = q \<and> de_reply_subject (snd y) = rep"
    using sync_chain_sent [OF sc] by auto
  have sync_ok: "\<forall>y \<in> set new. de_subject (snd y) = subj \<and> de_seq (snd y) = q \<and> de_reply_subject (snd y) = rep
         \<and> (\<exists>e \<in> set (matching E subj p en). mode e = Sync \<and> ds_interceptors (en_state en) (entry_id e) = None
              \<and> ds_senders (en_state en) (entry_id e) = Some (fst y))"
    using new(2) by (fastforce simp: sync_snapshot_def sy_def matching_def)
  obtain txs where txs: "sent (en_world en3) = sent (en_world en2)
      @ map (\<lambda>tx. (tx, \<lparr>de_payload = p2, de_reply_subject = rep, de_subject = subj, de_seq = q\<rparr>)) txs"
      "\<forall>tx \<in> set txs. Some tx \<in> snd ` set (async_senders (en_state en) as)"
    using async_fanout_sent [OF fo] by auto
  have async_ok: "\<forall>tx \<in> set txs. \<exists>e \<in> set (matching E subj p en).
         mode e = Async \<and> ds_senders (en_state en) (entry_id e) = Some tx"
    using txs(2) by (fastforce simp: async_senders_def as_def matching_def)
  from cases show ?thesis
  proof (elim disjE)
    assume "en_world en' = en_world en"
    then show ?thesis by (intro exI [of _ "[]"]) simp
  next
    assume "en_world en' = en_world en2"
    then show ?thesis using new(1) sync_ok by (intro exI [of _ new] exI [of _ "[]"]) simp
  next
    assume "en_world en' = en_world en3"
    then show ?thesis using new(1) sync_ok txs(1) async_ok
      by (intro exI [of _ new] exI [of _ txs] exI [of _ p2]) simp
  qed
qed

lemma dispatch_dropped:
  assumes "filter (\<lambda>e. mode e = Sync) (matching E subj p en) = x # rest"
    and "ds_interceptors (en_state en) (entry_id x) = Some i"
    and "\<And>t w. fst (ee_intercept E i (timeout x) subj q t p w) = Finished Drop p'"
  shows "sent (en_world (snd (dispatch_persisted_event E q subj p rep r en))) = sent (en_world en)"
proof -
  let ?ms = "index_lookup (ds_index (en_state en)) subj"
  let ?en1 = "set_status E r q EvDispatching en"
  have f: "filter (\<lambda>e. passes_filter (ee_json E) p e \<and> mode e = Sync) ?ms = x # rest"
    using assms(1) by (simp add: matching_def)
  have "x \<in> set (filter (\<lambda>e. passes_filter (ee_json E) p e \<and> mode e = Sync) ?ms)"
    unfolding f by simp
  then have ne: "filter (passes_filter (ee_json E) p) ?ms \<noteq> []" "?ms \<noteq> []"
    by (auto simp: filter_empty_conv)
  obtain w where w: "ee_intercept E i (timeout x) subj q (ee_now E (en_world en)) p (en_world en) = (Finished Drop p', w)"
    using assms(3) by (metis prod.collapse)
  have "sync_chain E r q subj rep (sync_snapshot (en_state en) (x # rest)) p False ?en1
      = (p', False, True, try_record E r q (entry_id x) DlDelivered None (?en1\<lparr>en_world := w\<rparr>))"
    using w assms(2) by (simp add: sync_snapshot_def sync_chain_Cons sync_step_def)
  then have "en_world (snd (dispatch_persisted_event E q subj p rep r en)) = w"
    using ne f by (simp add: dispatch_persisted_event_def Let_def)
  then show ?thesis
    using intercept_quiet [of i "timeout x" subj q "ee_now E (en_world en)" p "en_world en"] w by simp
qed

end

interpretation demo_bus: bus_runtime demo_env dw_sent
  by unfold_locales (auto simp: demo_env_def split: if_splits)

section \<open>Errors and reply subjects\<close>

definition valid_subject :: "string \<Rightarrow> bool" where
  "valid_subject subj \<longleftrightarrow> subj \<noteq> [] \<and> length subj \<le> 512 \<and> CHR 0x00 \<notin> set subj"

lemma validate_subject_ok: "validate_subject subj = Inr () \<longleftrightarrow> valid_subject subj"
  by (auto simp: validate_subject_def valid_subject_def MAX_SUBJECT_LENGTH_def list_ex_iff)

lemma validate_subject_err: "validate_subject subj = Inl e \<Longrightarrow> \<not> valid_subject subj \<and> (\<exists>m. e = InvalidSubject m)"
  by (auto simp: validate_subject_def valid_subject_def MAX_SUBJECT_LENGTH_def list_ex_iff split: if_splits)

lemma validate_payload_err: "validate_payload p = Inl e \<Longrightarrow> 536870912 < length p \<and> (\<exists>m. e = PayloadTooLarge m)"
  by (auto simp: validate_payload_def MAX_PAYLOAD_SIZE_def split: if_splits)

lemma reply_try_record [simp]: "en_store (try_record E True q i st err en) = en_store en"
  by (simp add: try_record_def Let_def)

lemma reply_set_status [simp]: "set_status E True q st en = en"
  by (simp add: set_status_def)

lemma reply_sync_chain:
  "sync_chain E True q subj rep snap p af en = (p', af', dr, en') \<Longrightarrow> en_store en' = en_store en"
proof (induction snap arbitrary: p af en)
  case (Cons x snap)
  obtain st err p1 stop en1 where s: "sync_step E q subj rep x p en = (st, err, p1, stop, en1)"
    by (rule prod_cases5)
  note f = sync_step_frame [OF s]
  show ?case
  proof (cases stop)
    case True
    with Cons.prems s f show ?thesis by (auto simp: sync_chain_Cons)
  next
    case False
    with Cons.prems s have "sync_chain E True q subj rep snap p1 (af \<or> st \<noteq> DlDelivered)
        (try_record E True q (fst x) st err en1) = (p', af', dr, en')"
      by (simp add: sync_chain_Cons)
    from Cons.IH [OF this] f show ?thesis by simp
  qed
qed simp

lemma reply_async_fanout:
  "async_fanout E True q subj rep p snds af en = (af', en') \<Longrightarrow> en_store en' = en_store en"
proof (induction snds arbitrary: af en)
  case (Cons x snds)
  obtain st err en1 where s: "async_step E q subj rep p (snd x) en = (st, err, en1)"
    by (rule prod_cases3)
  with Cons.prems have "async_fanout E True q subj rep p snds (af \<or> st \<noteq> DlDelivered)
      (try_record E True q (fst x) st err en1) = (af', en')"
    by (simp add: async_fanout_Cons)
  from Cons.IH [OF this] async_step_frame [OF s] show ?case by simp
qed simp

lemma reply_chain_all:
  "sync_chain E True q subj rep snap p af en = (p', af', dr, en') \<Longrightarrow>
     en_store en' = en_store en \<and> en_state en' = en_state en \<and> en_events_published en' = en_events_published en"
  using sync_chain_frame reply_sync_chain by metis

lemma reply_fanout_all:
  "async_fanout E True q subj rep p snds af en = (af', en') \<Longrightarrow>
     en_store en' = en_store en \<and> en_state en' = en_state en \<and> en_events_published en' = en_events_published en"
  using async_fanout_frame reply_async_fanout by metis

lemma reply_dispatch:
  "dispatch_persisted_event E q subj p rep True en = (res, en') \<Longrightarrow>
     res = Inr q \<and> en_store en' = en_store en \<and> en_state en' = en_state en
     \<and> en_events_published en' = en_events_published en"
  by (auto simp: dispatch_persisted_event_def Let_def split: if_splits prod.splits
      dest!: reply_chain_all reply_fanout_all)

lemma dispatch_result: "fst (dispatch_persisted_event E q subj p rep r en) = Inr q"
  by (simp add: dispatch_persisted_event_def Let_def split: prod.splits)

lemma dispatch_not_Inl [simp]: "dispatch_persisted_event E q subj p rep r en \<noteq> (Inl e, en')"
  using dispatch_result [of E q subj p rep r en] by auto

lemma publish_dispatches:
  assumes "publish_event E intercepting subj payload reply en = (Inr q, en')"
  shows "\<exists>r s k. dispatch_persisted_event E q subj payload reply r
    (en\<lparr>en_store := s, en_events_published := k\<rparr>) = (Inr q, en')"
proof (cases "starts_with subj ''_reply.''")
  case True
  then have d: "dispatch_persisted_event E 0 subj payload reply True en = (Inr q, en')"
    using assms by (auto simp: publish_event_def Let_def split: sum.splits if_splits)
  then have "q = 0"
    using dispatch_result [of E 0 subj payload reply True en] by simp
  with d show ?thesis
    by (intro exI [of _ True] exI [of _ "en_store en"] exI [of _ "en_events_published en"]) simp
next
  case False
  then obtain n s where d: "dispatch_persisted_event E n subj payload reply False
      (en\<lparr>en_store := s, en_events_published := en_events_published en + 1\<rparr>) = (Inr q, en')"
    using assms by (auto simp: publish_event_def Let_def split: sum.splits if_splits prod.splits)
  then have "q = n"
    using dispatch_result [of E n subj payload reply False] by (metis fst_conv sum.inject(2))
  with d show ?thesis by blast
qed

section \<open>Properties\<close>

text \<open>C3. Who receives a published event. What a publish puts on the channels is, first, events for
  matching sync subscriptions without an interceptor and then one and the same event for senders of
  matching async subscriptions; all of them carry the subject, the returned number and the reply
  subject. A subscription matches when its pattern matches the subject and its filter holds of the
  payload as it was published.\<close>

theorem publish_reaches_matching_only:
  assumes "bus_runtime E sent" and "publish_event E intercepting subj payload reply en = (Inr q, en')"
  shows "\<exists>sy txs p'. sent (en_world en') = sent (en_world en) @ sy
      @ map (\<lambda>tx. (tx, \<lparr>de_payload = p', de_reply_subject = reply, de_subject = subj, de_seq = q\<rparr>)) txs
    \<and> (\<forall>y \<in> set sy. de_subject (snd y) = subj \<and> de_seq (snd y) = q \<and> de_reply_subject (snd y) = reply
         \<and> (\<exists>e \<in> set (matching E subj payload en). mode e = Sync \<and> ds_interceptors (en_state en) (entry_id e) = None
              \<and> ds_senders (en_state en) (entry_id e) = Some (fst y)))
    \<and> (\<forall>tx \<in> set txs. \<exists>e \<in> set (matching E subj payload en).
         mode e = Async \<and> ds_senders (en_state en) (entry_id e) = Some tx)"
proof -
  obtain r s k where d: "dispatch_persisted_event E q subj payload reply r
      (en\<lparr>en_store := s, en_events_published := k\<rparr>) = (Inr q, en')"
    using publish_dispatches [OF assms(2)] by blast
  show ?thesis
    using bus_runtime.dispatch_sent [OF assms(1) d] by (simp add: matching_def)
qed

theorem publish_reaches_matching_only_witness:
  "\<exists>sy txs p'. dw_sent (en_world (snd (publish_event demo_env None ''a.b'' [1] None demo_mutating)))
      = sy @ map (\<lambda>tx. (tx, \<lparr>de_payload = p', de_reply_subject = None, de_subject = ''a.b'', de_seq = 1\<rparr>)) txs
    \<and> (\<forall>tx \<in> set txs. \<exists>e \<in> set (matching demo_env ''a.b'' [1] demo_mutating).
         mode e = Async \<and> ds_senders (en_state demo_mutating) (entry_id e) = Some tx)"
proof -
  have "dw_sent (en_world demo_mutating) = []"
    by (simp add: demo_mutating_def demo_engine_def with_components_def)
  moreover have "publish_event demo_env None ''a.b'' [1] None demo_mutating
      = (Inr 1, snd (publish_event demo_env None ''a.b'' [1] None demo_mutating))"
    using demo_mutating_publish by (simp add: prod_eq_iff)
  ultimately show ?thesis
    using publish_reaches_matching_only [OF demo_bus.bus_runtime_axioms] by fastforce
qed


definition demo_dropping :: "(mem_store, string, nat, bytes \<Rightarrow> join_outcome, demo_world) engine" where
  "demo_dropping = demo_engine [(''s'', 7, demo_entry ''s'' ''a.>'' 5 Async)]
     [(''i'', \<lambda>p. Finished Drop p, demo_entry ''i'' ''a.*'' 1 Sync)]"


text \<open>C13. The errors of a publish. When it fails, it was an invalid subject, an oversized payload or a
  publish from inside an interceptor of the same subject, and then the engine is unchanged; or the
  store refused to append the event, and then nothing was delivered or counted.\<close>

theorem publish_errors:
  "(case publish_event E intercepting subj payload reply en of
      (Inr q, en') \<Rightarrow> valid_subject subj \<and> length payload \<le> 536870912 \<and> intercepting \<noteq> Some subj
    | (Inl err, en') \<Rightarrow>
        en' = en \<and> ((\<exists>m. err = InvalidSubject m) \<and> \<not> valid_subject subj
                  \<or> (\<exists>m. err = PayloadTooLarge m) \<and> 536870912 < length payload
                  \<or> err = Internal (reentrant_message subj) \<and> intercepting = Some subj)
        \<or> (\<exists>e s. err = Storage e \<and> en' = en\<lparr>en_store := s\<rparr> \<and> \<not> starts_with subj ''_reply.''))"
proof (cases "validate_subject subj")
  case (Inl e)
  then show ?thesis
    using validate_subject_err [OF Inl] by (simp add: publish_event_def)
next
  case vs: (Inr u)
  then have v: "valid_subject subj"
    using validate_subject_ok [of subj] by simp
  show ?thesis
  proof (cases "validate_payload payload")
    case (Inl e)
    then show ?thesis
      using vs validate_payload_err [OF Inl] by (auto simp: publish_event_def)
  next
    case (Inr u')
    then have "length payload \<le> 536870912"
      by (simp add: validate_payload_def MAX_PAYLOAD_SIZE_def split: if_splits)
    with vs v Inr show ?thesis
      by (auto simp: publish_event_def Let_def split: prod.splits sum.splits)
  qed
qed

text \<open>C14. Reply subjects are ephemeral: publishing on a subject that starts with \<open>_reply.\<close> never
  touches the store, the published counter or the subscriptions, and returns the number 0 or one of
  the validation errors.\<close>

theorem reply_subject_not_persisted:
  assumes "starts_with subj ''_reply.''"
    and "publish_event E intercepting subj payload reply en = (res, en')"
  shows "en_store en' = en_store en \<and> en_events_published en' = en_events_published en
    \<and> en_state en' = en_state en \<and> (res = Inr 0 \<or> (\<exists>err. res = Inl err \<and> en' = en))"
  using assms
  by (auto simp: publish_event_def Let_def split: sum.splits if_splits dest!: reply_dispatch)

theorem reply_subject_not_persisted_witness:
  "let r = publish_event demo_env None ''_reply.x'' [1] None
       (demo_engine [(''s'', 7, demo_entry ''s'' ''_reply.x'' 5 Async)] []) in
   fst r = Inr 0 \<and> mem_events (en_store (snd r)) = [] \<and> dw_sent (en_world (snd r)) \<noteq> []"
proof -
  let ?en = "demo_engine [(''s'', 7, demo_entry ''s'' ''_reply.x'' 5 Async)] []"
  let ?r = "publish_event demo_env None ''_reply.x'' [1] None ?en"
  have "en_store (snd ?r) = en_store ?en"
    using reply_subject_not_persisted [of "''_reply.x''" demo_env None "[1]" None ?en "fst ?r" "snd ?r"] by simp
  moreover have "fst ?r = Inr 0 \<and> dw_sent (en_world (snd ?r)) \<noteq> []"
    by (simp add: demo_eval)
  ultimately show ?thesis
    by (simp add: Let_def demo_engine_def with_components_def mem_new_def)
qed

end
