(* ===== verification/Request_Reply.thy ===== *)
theory Request_Reply
  imports Dispatch_Fanout
begin

text \<open>
  Requests and replies on top of the engine (\<open>request_reply.rs\<close>): a request subscribes to a fresh
  \<open>_reply.\<close> subject, publishes with it and waits; a served subscription turns requests into
  messages with a \<open>Replier\<close> that answers once. What happens while a request waits is the
  parameter \<open>wait\<close>: other tasks run on the engine until the reply channel yields an event, is
  closed, or the time is up. The \<open>AtomicBool\<close> of a replier is a flag passed along.
\<close>

section \<open>Data\<close>

record replier =
  rp_reply_subject :: string
  rp_replied :: bool

record request_message =
  rm_payload :: bytes
  rm_subject :: string
  rm_seq :: u64

record 'tx request_subscription =
  rs_id :: string
  rs_events :: 'tx

text \<open>What \<open>timeout(d, reply_rx.recv()).await\<close> yields.\<close>

datatype recv_outcome = Received dispatched_event | RecvClosed | RecvTimedOut

section \<open>Operations\<close>

definition replier_reply ::
  "('s, 'j, 'tx, 'i, 'w) engine_env \<Rightarrow> string option \<Rightarrow> bytes \<Rightarrow> replier
   \<Rightarrow> ('s, 'j, 'tx, 'i, 'w) engine \<Rightarrow> (event_bus_error + u64) \<times> replier \<times> ('s, 'j, 'tx, 'i, 'w) engine" where
  "replier_reply E intercepting payload rp en =
     (let rp' = rp\<lparr>rp_replied := True\<rparr> in
      if rp_replied rp then (Inl (Internal ''reply already sent for this request''), rp', en)
      else case publish E intercepting (rp_reply_subject rp) payload en of (r, en) \<Rightarrow> (r, rp', en))"

text \<open>The one-shot subscription of a request: the sender is stored before the index is asked, so
  it would stay behind if the index refused.\<close>

definition request_subscribe ::
  "('s, 'j, 'tx, 'i, 'w) engine_env \<Rightarrow> ('s, 'j, 'tx, 'i, 'w) engine
   \<Rightarrow> (event_bus_error + string \<times> string \<times> 'tx) \<times> ('s, 'j, 'tx, 'i, 'w) engine" where
  "request_subscribe E en =
     (case ee_ulid E (en_world en) of (u, w) \<Rightarrow>
      case ee_channel E 1 w of (reply_tx, w) \<Rightarrow>
      case ee_ulid E w of (reply_sub_id, w) \<Rightarrow>
        let reply_subject = ''_reply.'' @ u;
            en = en\<lparr>en_world := w\<rparr>;
            state = (en_state en)\<lparr>ds_senders := (ds_senders (en_state en))(reply_sub_id \<mapsto> reply_tx)\<rparr>;
            entry = \<lparr>entry_id = reply_sub_id, subject_pattern = reply_subject, priority = 0, mode = Async,
                     channel = InProcess, timeout = from_secs 30, entry_filter = None\<rparr> in
        case index_subscribe (ds_index state) entry of
          Inl e \<Rightarrow> (Inl e, en\<lparr>en_state := state\<rparr>)
        | Inr index \<Rightarrow> (Inr (reply_subject, reply_sub_id, reply_tx), en\<lparr>en_state := state\<lparr>ds_index := index\<rparr>\<rparr>))"

definition request ::
  "('s, 'j, 'tx, 'i, 'w) engine_env
   \<Rightarrow> ('tx \<Rightarrow> duration \<Rightarrow> ('s, 'j, 'tx, 'i, 'w) engine \<Rightarrow> recv_outcome \<times> ('s, 'j, 'tx, 'i, 'w) engine)
   \<Rightarrow> string option \<Rightarrow> string \<Rightarrow> bytes \<Rightarrow> duration
   \<Rightarrow> ('s, 'j, 'tx, 'i, 'w) engine \<Rightarrow> (event_bus_error + bytes) \<times> ('s, 'j, 'tx, 'i, 'w) engine" where
  "request E wait intercepting subj payload tmo en =
     (case request_subscribe E en of
        (Inl e, en) \<Rightarrow> (Inl e, en)
      | (Inr (reply_subject, reply_sub_id, reply_tx), en) \<Rightarrow>
          (case publish_event E intercepting subj payload (Some reply_subject) en of
             (Inl e, en) \<Rightarrow> (Inl e, snd (engine_unsubscribe reply_sub_id en))
           | (Inr _, en) \<Rightarrow>
               (case wait reply_tx tmo en of (result, en) \<Rightarrow>
                  let en = snd (engine_unsubscribe reply_sub_id en) in
                  case result of
                    Received event \<Rightarrow> (Inr (de_payload event), en)
                  | RecvClosed \<Rightarrow> (Inl ReplyChannelClosed, en)
                  | RecvTimedOut \<Rightarrow> (Inl RequestTimeout, en))))"

definition SERVE_CHANNEL_CAPACITY :: nat where "SERVE_CHANNEL_CAPACITY = 128"

definition serve ::
  "('s, 'j, 'tx, 'i, 'w) engine_env \<Rightarrow> string \<Rightarrow> u32 \<Rightarrow> duration \<Rightarrow> 'j event_filter option
   \<Rightarrow> ('s, 'j, 'tx, 'i, 'w) engine
   \<Rightarrow> (event_bus_error + 'tx request_subscription) \<times> ('s, 'j, 'tx, 'i, 'w) engine" where
  "serve E pat prio tmo flt en =
     (case engine_subscribe E pat prio Async InProcess tmo flt en of
        (Inl e, en) \<Rightarrow> (Inl e, en)
      | (Inr (sub_id, event_rx), en) \<Rightarrow> (Inr \<lparr>rs_id = sub_id, rs_events = event_rx\<rparr>, en))"

text \<open>The bridge task of a served subscription: what it makes of one event, and its loop over the
  events it receives, which ends early when the receiver of the messages is gone.\<close>

definition bridge_event :: "dispatched_event \<Rightarrow> (request_message \<times> replier) option" where
  "bridge_event dispatched =
     (case de_reply_subject dispatched of
        Some rs \<Rightarrow>
          if rs \<noteq> [] then
            Some (\<lparr>rm_payload = de_payload dispatched, rm_subject = de_subject dispatched,
                   rm_seq = de_seq dispatched\<rparr>,
                  \<lparr>rp_reply_subject = rs, rp_replied = False\<rparr>)
          else None
      | None \<Rightarrow> None)"

fun bridge_run ::
  "(request_message \<times> replier \<Rightarrow> 'q \<Rightarrow> bool \<times> 'q) \<Rightarrow> dispatched_event list \<Rightarrow> 'q \<Rightarrow> 'q" where
  "bridge_run send [] q = q"
| "bridge_run send (d # ds) q =
     (case bridge_event d of
        None \<Rightarrow> bridge_run send ds q
      | Some m \<Rightarrow> (case send m q of (ok, q) \<Rightarrow> if ok then bridge_run send ds q else q))"

text \<open>Dropping a served subscription spawns the unsubscribe when a runtime is there to run it.\<close>

definition request_subscription_drop ::
  "bool \<Rightarrow> 'tx request_subscription \<Rightarrow> ('s, 'j, 'tx, 'i, 'w) engine \<Rightarrow> ('s, 'j, 'tx, 'i, 'w) engine" where
  "request_subscription_drop has_runtime rs en =
     (if has_runtime then snd (engine_unsubscribe (rs_id rs) en) else en)"

section \<open>Fresh reply subjects\<close>

text \<open>The text of a ULID: 26 characters of Crockford's base 32.\<close>

definition ulid_chars :: string where
  "ulid_chars = ''0123456789ABCDEFGHJKMNPQRSTVWXYZ''"

definition is_ulid :: "string \<Rightarrow> bool" where
  "is_ulid u \<longleftrightarrow> length u = 26 \<and> set u \<subseteq> set ulid_chars"

text \<open>For the index it is enough that an id is one token.\<close>

definition one_token :: "string \<Rightarrow> bool" where
  "one_token u \<longleftrightarrow> u \<noteq> [] \<and> CHR ''.'' \<notin> set u"

locale token_ids =
  fixes E :: "('s, 'j, 'tx, 'i, 'w) engine_env"
  assumes id_token: "one_token (fst (ee_ulid E w))"

locale ulid_source =
  fixes E :: "('s, 'j, 'tx, 'i, 'w) engine_env"
  assumes ulid_text: "is_ulid (fst (ee_ulid E w))"

lemma ulid_free: "is_ulid u \<Longrightarrow> CHR ''.'' \<notin> set u \<and> CHR 0x00 \<notin> set u \<and> u \<noteq> []"
  by (auto simp: is_ulid_def ulid_chars_def)

lemma ulid_token: "is_ulid u \<Longrightarrow> one_token u"
  by (simp add: one_token_def ulid_free)

sublocale ulid_source \<subseteq> token_ids E
  by unfold_locales (rule ulid_token [OF ulid_text])

lemma ulid_token_ids: "ulid_source E \<Longrightarrow> token_ids E"
  by (simp add: token_ids_def ulid_source_def ulid_token)

lemma token_reply: "one_token u \<Longrightarrow> tokens_of (''_reply.'' @ u) = [''_reply'', u]"
  using split_on_append [of "CHR ''.''" "''_reply''" u] by (simp add: split_on_free one_token_def)

lemmas reply_tokens = token_reply [OF ulid_token]

lemma reply_pattern_valid: "one_token u \<Longrightarrow> valid_pattern (''_reply.'' @ u)"
  unfolding valid_pattern_def token_reply by (auto simp: MAX_SUBJECT_DEPTH_def one_token_def)

lemma reply_subject_valid: "is_ulid u \<Longrightarrow> validate_subject (''_reply.'' @ u) = Inr ()"
  using ulid_free [of u] by (auto simp: validate_subject_ok valid_subject_def is_ulid_def)

lemma reply_subject_prefix: "starts_with (''_reply.'' @ u) ''_reply.''"
  by (simp add: starts_with_iff)

definition reply_entry :: "string \<Rightarrow> string \<Rightarrow> 'j subscription_entry" where
  "reply_entry i rs = \<lparr>entry_id = i, subject_pattern = rs, priority = 0, mode = Async, channel = InProcess,
     timeout = from_secs 30, entry_filter = None\<rparr>"

lemma reply_entry_matches: "is_ulid u \<Longrightarrow> rs = ''_reply.'' @ u \<Longrightarrow> entry_matches rs (reply_entry i rs)"
  by (simp add: entry_matches_def reply_entry_def reply_tokens del: append_Cons)

context token_ids
begin

lemma request_subscribe_ok:
  assumes "index_wf (ds_index (en_state en))"
  shows "\<exists>u i tx w ix. request_subscribe E en = (Inr (''_reply.'' @ u, i, tx),
      en\<lparr>en_world := w, en_state := (en_state en)\<lparr>ds_senders := (ds_senders (en_state en))(i \<mapsto> tx), ds_index := ix\<rparr>\<rparr>)
    \<and> (\<exists>w. u = fst (ee_ulid E w)) \<and> one_token u \<and> index_wf ix
    \<and> index_entries ix = add_mset (reply_entry i (''_reply.'' @ u)) (index_entries (ds_index (en_state en)))"
proof -
  obtain u w1 where u: "ee_ulid E (en_world en) = (u, w1)" by (rule prod.exhaust)
  obtain tx w2 where t: "ee_channel E 1 w1 = (tx, w2)" by (rule prod.exhaust)
  obtain i w3 where i: "ee_ulid E w2 = (i, w3)" by (rule prod.exhaust)
  have ul: "\<exists>w. u = fst (ee_ulid E w)" "one_token u"
    using id_token [of "en_world en"] u by (auto intro: exI [of _ "en_world en"])
  have "valid_pattern (subject_pattern (reply_entry i (''_reply.'' @ u)))"
    using reply_pattern_valid [OF ul(2)] by (simp add: reply_entry_def)
  from ix.sub_law [OF assms this] obtain ix where
    "index_subscribe (ds_index (en_state en)) (reply_entry i (''_reply.'' @ u)) = Inr ix" "index_wf ix"
    "index_entries ix = add_mset (reply_entry i (''_reply.'' @ u)) (index_entries (ds_index (en_state en)))"
    by blast
  with u t i ul show ?thesis
    by (auto simp: request_subscribe_def reply_entry_def Let_def)
qed

end

lemma dispatch_state_frame: "en_state (snd (dispatch_persisted_event E q subj p rep r en)) = en_state en"
  by (auto simp: dispatch_persisted_event_def Let_def split: prod.splits
      dest!: sync_chain_frame async_fanout_frame)

lemma publish_state_frame: "en_state (snd (publish_event E ic subj p rep en)) = en_state en"
  by (auto simp: publish_event_def Let_def dispatch_state_frame split: sum.splits prod.splits)

lemma publish_stateD: "publish_event E ic subj p rep en = (r, en') \<Longrightarrow> en_state en' = en_state en"
  using publish_state_frame [of E ic subj p rep en] by simp

lemma filter_mset_fresh:
  "i \<notin> entry_id ` set_mset M \<Longrightarrow> filter_mset (\<lambda>e. entry_id e \<noteq> i) M = M"
  by (rule multiset_eqI) (auto simp: not_in_iff)

context token_ids
begin

text \<open>Whatever branch a request takes, it ends with its one-shot subscription removed.\<close>

lemma request_final_state:
  assumes "request_subscribe E en = (Inr (rs, i, tx), en1)"
    and "\<And>tx d e. en_state (snd (wait tx d e)) = en_state e"
  shows "en_state (snd (request E wait ic subj p tmo en)) = en_state (snd (engine_unsubscribe i en1))"
proof -
  obtain r en2 where p: "publish_event E ic subj p (Some rs) en1 = (r, en2)" by (rule prod.exhaust)
  then have "en_state en2 = en_state en1"
    using publish_state_frame [of E ic subj p "Some rs" en1] by simp
  moreover obtain o3 en3 where w: "wait tx tmo en2 = (o3, en3)" by (rule prod.exhaust)
  moreover have "en_state en3 = en_state en2"
    using assms(2) [of tx tmo en2] w by simp
  ultimately show ?thesis
    by (cases r; cases o3) (simp_all add: request_def assms(1) p engine_unsubscribe_def Let_def)
qed

end

text \<open>The registrations are those of before; a property of the next section.\<close>

lemma request_restores:
  assumes "token_ids E" and "index_wf (ds_index (en_state en))"
    and "request_subscribe E en = (r, en1)"
    and "\<And>rs i tx. r = Inr (rs, i, tx) \<Longrightarrow> i \<notin> entry_id ` set_mset (index_entries (ds_index (en_state en)))
      \<and> ds_senders (en_state en) i = None \<and> ds_interceptors (en_state en) i = None"
    and "\<And>tx d e. en_state (snd (wait tx d e)) = en_state e"
    and "request E wait ic subj p tmo en = (res, en')"
  shows "ds_senders (en_state en') = ds_senders (en_state en)
    \<and> ds_interceptors (en_state en') = ds_interceptors (en_state en)
    \<and> index_wf (ds_index (en_state en'))
    \<and> index_entries (ds_index (en_state en')) = index_entries (ds_index (en_state en))"
proof -
  let ?st = "en_state en"
  obtain u i tx w ix where o: "request_subscribe E en = (Inr (''_reply.'' @ u, i, tx),
      en\<lparr>en_world := w, en_state := ?st\<lparr>ds_senders := (ds_senders ?st)(i \<mapsto> tx), ds_index := ix\<rparr>\<rparr>)"
      "index_wf ix" "index_entries ix = add_mset (reply_entry i (''_reply.'' @ u)) (index_entries (ds_index ?st))"
    using token_ids.request_subscribe_ok [OF assms(1,2)] by blast
  have fresh: "i \<notin> entry_id ` set_mset (index_entries (ds_index ?st))" "ds_senders ?st i = None"
      "ds_interceptors ?st i = None"
    using assms(3,4) o(1) by auto
  have fin: "en_state en' = ?st\<lparr>ds_senders := (ds_senders ?st)(i := None),
      ds_interceptors := (ds_interceptors ?st)(i := None), ds_index := index_unsubscribe ix i\<rparr>"
    using token_ids.request_final_state [OF assms(1) o(1), of wait ic subj p tmo] assms(5) assms(6)
    by (simp add: engine_unsubscribe_def Let_def)
  have ent: "index_entries (index_unsubscribe ix i) = index_entries (ds_index ?st)"
    using ix.unsub_law(2) [OF o(2), of i] o(3) filter_mset_fresh [OF fresh(1)] by (simp add: reply_entry_def)
  show ?thesis
    using fin fresh ix.unsub_law(1) [OF o(2), of i] ent
    by (simp add: fun_upd_idem)
qed

section \<open>Properties\<close>

text \<open>C21. A request cleans up after itself. Whether it is answered, times out, loses its channel
  or fails to publish, its one-shot subscription is gone when it returns: the senders and
  interceptors are those of before, and \<open>lookup\<close> finds on every subject what it found before. The
  hypotheses are that a ULID is one token of a subject, that the second one is not yet in use, and
  that the tasks that run meanwhile leave the subscriptions alone.\<close>

theorem request_cleans_up:
  assumes "token_ids E" and "index_wf (ds_index (en_state en))"
    and "request_subscribe E en = (r, en1)"
    and "\<And>rs i tx. r = Inr (rs, i, tx) \<Longrightarrow> i \<notin> entry_id ` set_mset (index_entries (ds_index (en_state en)))
      \<and> ds_senders (en_state en) i = None \<and> ds_interceptors (en_state en) i = None"
    and "\<And>tx d e. en_state (snd (wait tx d e)) = en_state e"
    and "request E wait ic subj p tmo en = (res, en')"
  shows "ds_senders (en_state en') = ds_senders (en_state en)
    \<and> ds_interceptors (en_state en') = ds_interceptors (en_state en)
    \<and> index_wf (ds_index (en_state en'))
    \<and> (\<forall>s. mset (index_lookup (ds_index (en_state en')) s) = mset (index_lookup (ds_index (en_state en)) s))"
  using request_restores [OF assms] assms(2) by (simp add: ix.look_law)

text \<open>A small bus with fresh ids, and a server that answers a request with its payload reversed
  while the requester waits.\<close>

definition demo_ulid :: "nat \<Rightarrow> string" where
  "demo_ulid n = replicate (n mod 27) CHR ''1'' @ replicate (26 - n mod 27) CHR ''0''"

definition demo_req_env :: "(mem_store, string, nat, bytes \<Rightarrow> join_outcome, demo_world) engine_env" where
  "demo_req_env = demo_env\<lparr>ee_ulid := (\<lambda>w. (demo_ulid (dw_fresh w), w\<lparr>dw_fresh := Suc (dw_fresh w)\<rparr>))\<rparr>"

interpretation demo_ids: ulid_source demo_req_env
  by unfold_locales (auto simp: demo_req_env_def demo_ulid_def is_ulid_def ulid_chars_def)

interpretation demo_req_bus: bus_runtime demo_req_env dw_sent
  by unfold_locales (auto simp: demo_req_env_def demo_env_def split: if_splits)

definition demo_server :: "(mem_store, string, nat, bytes \<Rightarrow> join_outcome, demo_world) engine" where
  "demo_server = demo_engine [(''s'', 7, demo_entry ''s'' ''a.>'' 5 Async)] []"

definition demo_answer ::
  "nat \<Rightarrow> duration \<Rightarrow> (mem_store, string, nat, bytes \<Rightarrow> join_outcome, demo_world) engine
   \<Rightarrow> recv_outcome \<times> (mem_store, string, nat, bytes \<Rightarrow> join_outcome, demo_world) engine" where
  "demo_answer tx d en =
     (case bridge_event (snd (last (dw_sent (en_world en)))) of
        None \<Rightarrow> (RecvTimedOut, en)
      | Some (m, rp) \<Rightarrow>
          (case replier_reply demo_req_env None (rev (rm_payload m)) rp en of
             (_, _, en) \<Rightarrow> (Received (snd (last (dw_sent (en_world en)))), en)))"

lemma demo_answer_state: "en_state (snd (demo_answer tx d en)) = en_state en"
  by (auto simp: demo_answer_def replier_reply_def publish_def Let_def split: option.splits prod.splits
      dest!: publish_stateD)

lemma demo_server_index:
  "index_wf (ds_index (en_state demo_server))"
  "index_entries (ds_index (en_state demo_server)) = {#demo_entry ''s'' ''a.>'' 5 Async#}"
  using ix.run_from_empty [of "[SubscribeOp (demo_entry ''s'' ''a.>'' 5 Async)]"]
  by (simp_all add: demo_server_def demo_engine_def with_components_def valid_pattern_def demo_entry_def
      MAX_SUBJECT_DEPTH_def)

lemma demo_server_subscribe:
  "\<exists>ix w. request_subscribe demo_req_env demo_server = (Inr (''_reply.'' @ demo_ulid 0, demo_ulid 2, 3),
     demo_server\<lparr>en_world := w, en_state := (en_state demo_server)\<lparr>ds_senders := (ds_senders (en_state demo_server))(demo_ulid 2 \<mapsto> 3), ds_index := ix\<rparr>\<rparr>)"
proof -
  have w: "dw_fresh (en_world demo_server) = 0"
    by (simp add: demo_server_def demo_engine_def with_components_def)
  obtain u i tx w' ix where "request_subscribe demo_req_env demo_server = (Inr (''_reply.'' @ u, i, tx),
      demo_server\<lparr>en_world := w', en_state := (en_state demo_server)\<lparr>ds_senders := (ds_senders (en_state demo_server))(i \<mapsto> tx), ds_index := ix\<rparr>\<rparr>)"
    using demo_ids.request_subscribe_ok [OF demo_server_index(1)] by blast
  moreover from this w have "u = demo_ulid 0" "i = demo_ulid 2" "tx = 3"
    by (auto simp: request_subscribe_def demo_req_env_def demo_env_def Let_def numeral_2_eq_2 split: sum.splits)
  ultimately show ?thesis by blast
qed

lemma demo_server_fresh:
  "demo_ulid 2 \<notin> entry_id ` set_mset (index_entries (ds_index (en_state demo_server)))"
  "ds_senders (en_state demo_server) (demo_ulid 2) = None"
  "ds_interceptors (en_state demo_server) (demo_ulid 2) = None"
  by (simp add: demo_server_index demo_entry_def demo_ulid_def numeral_2_eq_2)
    (simp_all add: demo_entry_def demo_ulid_def demo_server_def demo_engine_def with_components_def numeral_2_eq_2)

theorem request_cleans_up_witness:
  "let en' = snd (request demo_req_env demo_answer None ''a.b'' [1, 2, 3] 5 demo_server) in
    ds_senders (en_state en') = ds_senders (en_state demo_server)
    \<and> (\<forall>s. mset (index_lookup (ds_index (en_state en')) s) = mset (index_lookup (ds_index (en_state demo_server)) s))"
proof -
  obtain ix w where o: "request_subscribe demo_req_env demo_server = (Inr (''_reply.'' @ demo_ulid 0, demo_ulid 2, 3),
     demo_server\<lparr>en_world := w, en_state := (en_state demo_server)\<lparr>ds_senders := (ds_senders (en_state demo_server))(demo_ulid 2 \<mapsto> 3), ds_index := ix\<rparr>\<rparr>)"
    using demo_server_subscribe by blast
  show ?thesis
    using request_cleans_up [OF demo_ids.token_ids_axioms demo_server_index(1) o,
        of demo_answer None "''a.b''" "[1, 2, 3]" 5 "fst (request demo_req_env demo_answer None ''a.b'' [1, 2, 3] 5 demo_server)"
          "snd (request demo_req_env demo_answer None ''a.b'' [1, 2, 3] 5 demo_server)"] demo_server_fresh demo_answer_state
    by (auto simp: Let_def)
qed

text \<open>C20. A reply reaches the requester, once. While a request waits on its reply subject and
  nobody else listens there, the first use of its replier puts exactly the reply on the requester's
  channel, with the number 0 and without touching the store, and every further use is refused and
  changes nothing.\<close>

theorem reply_reaches_requester:
  assumes "ulid_source E" and "bus_runtime E sent" and "index_wf (ds_index (en_state en))"
    and "request_subscribe E en = (Inr (rs, i, tx), en1)" and "index_lookup (ds_index (en_state en)) rs = []"
    and "en_state en2 = en_state en1" and "\<And>ev. fst (ee_try_send E tx ev (en_world en2)) = Inr ()"
    and "length payload \<le> MAX_PAYLOAD_SIZE"
    and "replier_reply E None payload \<lparr>rp_reply_subject = rs, rp_replied = False\<rparr> en2 = (r, rp', en')"
  shows "r = Inr 0 \<and> en_store en' = en_store en2
    \<and> sent (en_world en') = sent (en_world en2)
        @ [(tx, \<lparr>de_payload = payload, de_reply_subject = None, de_subject = rs, de_seq = 0\<rparr>)]
    \<and> (\<forall>payload2. replier_reply E None payload2 rp' en'
         = (Inl (Internal ''reply already sent for this request''), rp', en'))"
proof -
  let ?st = "en_state en"
  obtain u w ix where o: "rs = ''_reply.'' @ u" "is_ulid u" "index_wf ix"
      "en_state en1 = ?st\<lparr>ds_senders := (ds_senders ?st)(i \<mapsto> tx), ds_index := ix\<rparr>"
      "index_entries ix = add_mset (reply_entry i rs) (index_entries (ds_index ?st))"
    using token_ids.request_subscribe_ok [OF ulid_token_ids [OF assms(1)] assms(3)] ulid_source.ulid_text [OF assms(1)] assms(4) by auto
  have "mset (index_lookup ix rs) = {#reply_entry i rs#}"
    using assms(5) ix.look_law [OF assms(3), of rs] ix.look_law [OF o(3), of rs] o(5)
    by (simp add: reply_entry_matches [OF o(2,1)])
  then have look: "index_lookup ix rs = [reply_entry i rs]" by simp
  let ?ev = "\<lparr>de_payload = payload, de_reply_subject = None, de_subject = rs, de_seq = 0\<rparr>"
  obtain w' where w': "ee_try_send E tx ?ev (en_world en2) = (Inr (), w')"
    using assms(7) [of ?ev] by (metis prod.collapse)
  have valid: "validate_subject rs = Inr ()" "starts_with rs ''_reply.''" "validate_payload payload = Inr ()"
    using reply_subject_valid [OF o(2)] reply_subject_prefix o(1) assms(8) by (simp_all add: validate_payload_def)
  have "publish_event E None rs payload None en2
      = (Inr 0, try_record E True 0 i DlDelivered None (en2\<lparr>en_world := w'\<rparr>))"
    using valid look w' assms(6) o(4)
    by (simp add: publish_event_def dispatch_persisted_event_def Let_def passes_filter_def reply_entry_def
        sync_snapshot_def async_senders_def async_fanout_Cons async_step_def send_to_def)
  then have r: "r = Inr 0" "rp' = \<lparr>rp_reply_subject = rs, rp_replied = True\<rparr>"
      "en' = try_record E True 0 i DlDelivered None (en2\<lparr>en_world := w'\<rparr>)"
    using assms(9) by (simp_all add: replier_reply_def publish_def)
  then show ?thesis
    using bus_runtime.try_send_ok [OF assms(2) w'] by (simp add: replier_reply_def)
qed

theorem reply_reaches_requester_witness:
  "\<exists>en2 rp' en'. replier_reply demo_req_env None [7] \<lparr>rp_reply_subject = ''_reply.'' @ demo_ulid 0, rp_replied = False\<rparr> en2
      = (Inr 0, rp', en')
    \<and> map fst (dw_sent (en_world en')) = map fst (dw_sent (en_world en2)) @ [3]"
proof -
  obtain ix w where o: "request_subscribe demo_req_env demo_server = (Inr (''_reply.'' @ demo_ulid 0, demo_ulid 2, 3),
     demo_server\<lparr>en_world := w, en_state := (en_state demo_server)\<lparr>ds_senders := (ds_senders (en_state demo_server))(demo_ulid 2 \<mapsto> 3), ds_index := ix\<rparr>\<rparr>)"
    using demo_server_subscribe by blast
  let ?en1 = "demo_server\<lparr>en_world := w, en_state := (en_state demo_server)\<lparr>ds_senders := (ds_senders (en_state demo_server))(demo_ulid 2 \<mapsto> 3), ds_index := ix\<rparr>\<rparr>"
  have u: "is_ulid (demo_ulid 0)"
    by (auto simp: demo_ulid_def is_ulid_def ulid_chars_def)
  have "mset (index_lookup (ds_index (en_state demo_server)) (''_reply.'' @ demo_ulid 0)) = {#}"
    unfolding ix.look_law [OF demo_server_index(1)] demo_server_index(2)
    by (simp add: entry_matches_def reply_tokens [OF u] demo_entry_def del: append_Cons)
  then have l: "index_lookup (ds_index (en_state demo_server)) (''_reply.'' @ demo_ulid 0) = []" by simp
  obtain r rp' en' where rr: "replier_reply demo_req_env None [7]
      \<lparr>rp_reply_subject = ''_reply.'' @ demo_ulid 0, rp_replied = False\<rparr> ?en1 = (r, rp', en')"
    by (rule prod_cases3)
  show ?thesis
    using reply_reaches_requester [OF demo_ids.ulid_source_axioms demo_req_bus.bus_runtime_axioms
        demo_server_index(1) o l refl _ _ rr] rr
    by (auto simp: demo_req_env_def demo_env_def MAX_PAYLOAD_SIZE_def intro!: exI [of _ ?en1])
qed

end
