(* ===== verification/Event_Bus.thy ===== *)
theory Event_Bus
  imports Request_Reply
begin

text \<open>
  The public face of the bus (\<open>bus.rs\<close>): \<open>EventBusImpl\<close> forwards to the engine, keeps callers off
  the reply subjects, and reports metrics. Here too is what the replay of a dead-lettered event
  comes to.
\<close>

section \<open>Data\<close>

record bus_metrics =
  bm_events_published :: u64
  bm_events_delivered :: u64
  bm_events_pending_retry :: u64
  bm_subscription_count :: u64

record 'tx subscription =
  sub_id :: string
  sub_rx :: 'tx

record 'j subscribe_opts =
  so_priority :: u32
  so_mode :: subscription_mode
  so_channel :: "'j channel_config"
  so_timeout :: duration
  so_filter :: "'j event_filter option"

section \<open>Operations\<close>

definition bus_publish ::
  "('s, 'j, 'tx, 'i, 'w) engine_env \<Rightarrow> string option \<Rightarrow> string \<Rightarrow> bytes
   \<Rightarrow> ('s, 'j, 'tx, 'i, 'w) engine \<Rightarrow> (event_bus_error + u64) \<times> ('s, 'j, 'tx, 'i, 'w) engine" where
  "bus_publish E intercepting subj payload en =
     (if starts_with subj ''_reply.'' then
        (Inl (InvalidSubject (''subjects starting with '' @ [CHR 0x27] @ ''_reply.'' @ [CHR 0x27]
           @ '' are reserved for internal request/reply routing'')), en)
      else publish E intercepting subj payload en)"

definition bus_subscribe ::
  "('s, 'j, 'tx, 'i, 'w) engine_env \<Rightarrow> string \<Rightarrow> 'j subscribe_opts
   \<Rightarrow> ('s, 'j, 'tx, 'i, 'w) engine \<Rightarrow> (event_bus_error + 'tx subscription) \<times> ('s, 'j, 'tx, 'i, 'w) engine" where
  "bus_subscribe E pat opts en =
     (case engine_subscribe E pat (so_priority opts) (so_mode opts) (so_channel opts) (so_timeout opts)
             (so_filter opts) en of
        (Inl e, en) \<Rightarrow> (Inl e, en)
      | (Inr (i, rx), en) \<Rightarrow> (Inr \<lparr>sub_id = i, sub_rx = rx\<rparr>, en))"

definition bus_unsubscribe ::
  "string \<Rightarrow> ('s, 'j, 'tx, 'i, 'w) engine \<Rightarrow> (event_bus_error + unit) \<times> ('s, 'j, 'tx, 'i, 'w) engine" where
  "bus_unsubscribe i en = engine_unsubscribe i en"

definition bus_intercept ::
  "('s, 'j, 'tx, 'i, 'w) engine_env \<Rightarrow> string \<Rightarrow> u32 \<Rightarrow> 'i \<Rightarrow> duration option
   \<Rightarrow> ('s, 'j, 'tx, 'i, 'w) engine \<Rightarrow> (event_bus_error + string) \<times> ('s, 'j, 'tx, 'i, 'w) engine" where
  "bus_intercept E pat prio interceptor tmo en = intercept E pat prio interceptor tmo en"

definition bus_list_subscriptions ::
  "string option \<Rightarrow> ('s, 'j, 'tx, 'i, 'w) engine \<Rightarrow> event_bus_error + subscription_info list" where
  "bus_list_subscriptions flt en = list_subscriptions flt en"

definition bus_metrics_of ::
  "('s, 'j, 'tx, 'i, 'w) engine_env \<Rightarrow> ('s, 'j, 'tx, 'i, 'w) engine \<Rightarrow> event_bus_error + bus_metrics" where
  "bus_metrics_of E en =
     (let pending_retry =
        (if ee_retry_enabled E then
           case st_count_retryable (ee_store E) (en_store en) (max_attempts (ee_retry_config E))
                  (ee_now E (en_world en)) of
             Inr n \<Rightarrow> n
           | Inl e \<Rightarrow> 0
         else 0) in
      andthen (bus_list_subscriptions None en) (\<lambda>subs.
        Inr \<lparr>bm_events_published = en_events_published en, bm_events_delivered = en_events_delivered en,
             bm_events_pending_retry = pending_retry, bm_subscription_count = of_nat (length subs)\<rparr>))"

definition bus_get_event ::
  "('s, 'j, 'tx, 'i, 'w) engine_env \<Rightarrow> u64 \<Rightarrow> ('s, 'j, 'tx, 'i, 'w) engine
   \<Rightarrow> event_bus_error + stored_event option" where
  "bus_get_event E seq en = map_err Storage (st_get (ee_store E) (en_store en) seq)"

definition bus_query_dead_lettered ::
  "('s, 'j, 'tx, 'i, 'w) engine_env \<Rightarrow> string option \<Rightarrow> nat \<Rightarrow> ('s, 'j, 'tx, 'i, 'w) engine
   \<Rightarrow> event_bus_error + stored_event list" where
  "bus_query_dead_lettered E subj limit en =
     map_err Storage (query_dead_lettered (ee_store E) (en_store en) subj limit)"

definition bus_replay_dead_lettered ::
  "('s, 'j, 'tx, 'i, 'w) engine_env \<Rightarrow> u64
   \<Rightarrow> ('s, 'j, 'tx, 'i, 'w) engine \<Rightarrow> (event_bus_error + u64) \<times> ('s, 'j, 'tx, 'i, 'w) engine" where
  "bus_replay_dead_lettered E seq en = replay_dead_lettered E seq en"

definition bus_purge_dead_lettered ::
  "('s, 'j, 'tx, 'i, 'w) engine_env \<Rightarrow> u64
   \<Rightarrow> ('s, 'j, 'tx, 'i, 'w) engine \<Rightarrow> (event_bus_error + unit) \<times> ('s, 'j, 'tx, 'i, 'w) engine" where
  "bus_purge_dead_lettered E seq en =
     (case st_purge_dead_lettered (ee_store E) (en_store en) seq of
        (r, s) \<Rightarrow> (map_err Storage r, en\<lparr>en_store := s\<rparr>))"

definition bus_register_channel_type ::
  "string \<Rightarrow> ('j, 'w) delivery_channel \<Rightarrow> ('s, 'j, 'tx, 'i, 'w) engine
   \<Rightarrow> (event_bus_error + unit) \<times> ('s, 'j, 'tx, 'i, 'w) engine" where
  "bus_register_channel_type channel_type provider en =
     (Inr (), en\<lparr>en_registry := registry_register (en_registry en) channel_type provider\<rparr>)"

section \<open>Properties\<close>

text \<open>C23. Replies cannot be forged through the bus: whatever a caller publishes, no message the
  publish puts on a channel is on a \<open>_reply.\<close> subject, and an attempt to publish on one is refused
  without any effect.\<close>

theorem bus_publish_never_replies:
  assumes "bus_runtime E sent" and "bus_publish E intercepting subj payload en = (res, en')"
  shows "(\<exists>new. sent (en_world en') = sent (en_world en) @ new
      \<and> (\<forall>y \<in> set new. \<not> starts_with (de_subject (snd y)) ''_reply.''))
    \<and> (starts_with subj ''_reply.'' \<longrightarrow> en' = en \<and> (\<exists>m. res = Inl (InvalidSubject m)))"
proof (cases "starts_with subj ''_reply.''")
  case True
  with assms(2) show ?thesis by (auto simp: bus_publish_def)
next
  case False
  then have p: "publish_event E intercepting subj payload None en = (res, en')"
    using assms(2) by (simp add: bus_publish_def publish_def)
  have "\<exists>new. sent (en_world en') = sent (en_world en) @ new \<and> (\<forall>y \<in> set new. de_subject (snd y) = subj)"
  proof (cases res)
    case (Inl err)
    with p show ?thesis
      by (auto simp: publish_event_def Let_def split: sum.splits if_splits prod.splits)
  next
    case (Inr q)
    then obtain r s k where "dispatch_persisted_event E q subj payload None r
        (en\<lparr>en_store := s, en_events_published := k\<rparr>) = (Inr q, en')"
      using publish_dispatches p by metis
    from bus_runtime.dispatch_sent [OF assms(1) this] obtain sy txs p' where
      s: "sent (en_world en') = sent (en_world en) @ sy
        @ map (\<lambda>tx. (tx, \<lparr>de_payload = p', de_reply_subject = None, de_subject = subj, de_seq = q\<rparr>)) txs"
      and "\<forall>y \<in> set sy. de_subject (snd y) = subj"
      by auto
    moreover define new where "new = sy
        @ map (\<lambda>tx. (tx, \<lparr>de_payload = p', de_reply_subject = None, de_subject = subj, de_seq = q\<rparr>)) txs"
    ultimately have "sent (en_world en') = sent (en_world en) @ new" "\<forall>y \<in> set new. de_subject (snd y) = subj"
      by auto
    then show ?thesis by blast
  qed
  with False show ?thesis by metis
qed

theorem bus_publish_never_replies_witness:
  "\<exists>new. dw_sent (en_world (snd (bus_publish demo_env None ''a.b'' [1] demo_mutating)))
      = dw_sent (en_world demo_mutating) @ new \<and> (\<forall>y \<in> set new. \<not> starts_with (de_subject (snd y)) ''_reply.'')"
  using bus_publish_never_replies [OF demo_bus.bus_runtime_axioms, of None "''a.b''" "[1]" demo_mutating
      "fst (bus_publish demo_env None ''a.b'' [1] demo_mutating)"
      "snd (bus_publish demo_env None ''a.b'' [1] demo_mutating)"]
  by simp

text \<open>C22. Replaying a dead-lettered event, over a store without infrastructure faults. A number that
  is not in the log or an event that is not dead-lettered is an error without effect; a
  dead-lettered event is dispatched again under its own number with its subject, payload, time and
  reply subject kept, its records and status are those of a fresh dispatch to the subscriptions
  that match now, and no other event changes.\<close>

theorem replay_outcome:
  assumes "reliable_store (ee_store E) view iv" and "iv (en_store en)"
    and "\<And>e. view (en_store en) q = Some e \<Longrightarrow>
      distinct (map entry_id (index_lookup (ds_index (en_state en)) (ev_subject e)))"
  shows "case view (en_store en) q of
      None \<Rightarrow> bus_replay_dead_lettered E q en = (Inl (Internal (''event '' @ show_word q @ '' not found'')), en)
    | Some e \<Rightarrow>
        if ev_status e \<noteq> EvDeadLettered then
          bus_replay_dead_lettered E q en = (Inl (Internal (''event '' @ show_word q @ '' is not dead-lettered'')), en)
        else \<exists>en' e'. bus_replay_dead_lettered E q en = (Inr q, en') \<and> iv (en_store en')
          \<and> view (en_store en') q = Some e' \<and> same_event e e'
          \<and> dispatch_record (en_state en) (matching E (ev_subject e) (ev_payload e) en) e'
          \<and> (\<forall>k. k \<noteq> q \<longrightarrow> view (en_store en') k = view (en_store en) k)"
proof -
  note R = reliable_engine_intro [OF assms(1)]
  note at = reliable_engine.at_event_def [OF R]
  have g: "st_get (ee_store E) (en_store en) q = Inr (view (en_store en) q)"
    using reliable_store.get_total [OF assms(1,2)] .
  show ?thesis
  proof (cases "view (en_store en) q")
    case None
    then show ?thesis using g by (simp add: bus_replay_dead_lettered_def replay_dead_lettered_def)
  next
    case (Some e)
    show ?thesis
    proof (cases "ev_status e = EvDeadLettered")
      case False
      then show ?thesis using g Some by (simp add: bus_replay_dead_lettered_def replay_dead_lettered_def)
    next
      case True
      let ?e = "e\<lparr>ev_status := EvPending, ev_deliveries := []\<rparr>"
      obtain s where s: "st_requeue_dead_lettered (ee_store E) (en_store en) q = (Inr ?e, s)" "iv s"
          "view s = (view (en_store en))(q \<mapsto> ?e)"
        using event_store.requeue_law [OF reliable_store.axioms(1) [OF assms(1)] assms(2), of q]
          reliable_store.requeue_total [OF assms(1,2) Some True] Some by auto
      let ?en = "en\<lparr>en_store := s, en_events_published := en_events_published en + 1\<rparr>"
      obtain res en' where d: "dispatch_persisted_event E q (ev_subject e) (ev_payload e) (ev_reply_subject e) False ?en = (res, en')"
        by (rule prod.exhaust)
      have "reliable_engine.at_event view iv q ?e ?en"
        using s by (simp add: at)
      from reliable_engine.dispatch_records [OF R d this] assms(3) [OF Some]
      obtain e' where e': "iv (en_store en')" "view (en_store en') q = Some e'"
          "dispatch_record (en_state en) (matching E (ev_subject e) (ev_payload e) en) e'"
        by (auto simp: matching_def at)
      have k: "res = Inr q" "only_at q (view s) (view (en_store en'))"
        using engine_store.dispatch_keeps [OF reliable_engine.axioms(1) [OF R] d] s(2)
        by (simp_all add: engine_store.keeps_def [OF reliable_engine.axioms(1) [OF R]])
      have "same_event e e'" "\<forall>k. k \<noteq> q \<longrightarrow> view (en_store en') k = view (en_store en) k"
        using k(2) e'(2) s(3) by (auto simp: only_at_def same_event_def)
      with e' k(1) d s(1) g Some True show ?thesis
        by (simp add: bus_replay_dead_lettered_def replay_dead_lettered_def)
    qed
  qed
qed

definition demo_dead :: stored_event where
  "demo_dead = \<lparr>ev_seq = 1, ev_subject = ''a.b'', ev_payload = [1], ev_stored_at = 5, ev_status = EvDeadLettered,
     ev_deliveries = [], ev_reply_subject = None\<rparr>"

definition demo_replay :: "(mem_store, string, nat, bytes \<Rightarrow> join_outcome, demo_world) engine" where
  "demo_replay = demo_mutating\<lparr>en_store := mem_new\<lparr>mem_events := [demo_dead]\<rparr>\<rparr>"

lemma demo_replay_store: "mem_inv (en_store demo_replay)" "mem_view (en_store demo_replay) 1 = Some demo_dead"
  by (simp_all add: demo_replay_def demo_dead_def mem_inv_def mem_view_def deliveries_wf_def)

lemma demo_replay_distinct: "distinct (map entry_id (index_lookup (ds_index (en_state demo_replay)) (ev_subject demo_dead)))"
  by (simp add: demo_replay_def demo_dead_def demo_mutating_def demo_eval)

theorem replay_outcome_witness:
  "\<exists>en' e'. bus_replay_dead_lettered demo_env 1 demo_replay = (Inr 1, en') \<and> mem_view (en_store en') 1 = Some e'
     \<and> ev_payload e' = [1]"
  using replay_outcome [of demo_env mem_view mem_inv demo_replay 1] demo_replay_store demo_replay_distinct
    mem.reliable_store_axioms
  by (auto simp: demo_dead_def same_event_def)

end
