(* ===== verification/Bus_Ids.thy ===== *)
theory Bus_Ids
  imports Event_Bus
begin

text \<open>
  What the transports rely on when they register on the bus: a ULID has not been handed out before
  and opening a channel hands out none. The contract \<open>fresh_bus\<close> says so, and gives the exact effect of
  a subscription and of an interceptor on the registrations. It also holds the way back: removing a
  fresh registration restores them.
\<close>

section \<open>Removing a fresh registration\<close>

lemma unsub_fresh:
  assumes "index_wf ix" and "index_entries ix = add_mset e M" and "entry_id e = i" and "i \<notin> entry_id ` set_mset M"
  shows "index_wf (index_unsubscribe ix i) \<and> index_entries (index_unsubscribe ix i) = M"
  using ix.unsub_law [OF assms(1), of i] assms(2,3) filter_mset_fresh [OF assms(4)] by simp

section \<open>Registrations\<close>

text \<open>A bus whose registrations carry ids that were handed out, and two with the same routing.\<close>

definition ready_engine :: "('w \<Rightarrow> string set) \<Rightarrow> ('s, 'j, 'tx, 'i, 'w) engine \<Rightarrow> bool" where
  "ready_engine used en \<longleftrightarrow> index_wf (ds_index (en_state en))
     \<and> entry_id ` set_mset (index_entries (ds_index (en_state en))) \<subseteq> used (en_world en)
     \<and> dom (ds_senders (en_state en)) \<subseteq> used (en_world en)
     \<and> dom (ds_interceptors (en_state en)) \<subseteq> used (en_world en)"

definition same_routes :: "('j, 'tx, 'i) dispatch_state \<Rightarrow> ('j, 'tx, 'i) dispatch_state \<Rightarrow> bool" where
  "same_routes s s' \<longleftrightarrow> index_wf (ds_index s') \<and> index_entries (ds_index s') = index_entries (ds_index s)
     \<and> ds_senders s' = ds_senders s \<and> ds_interceptors s' = ds_interceptors s"

section \<open>Fresh identifiers\<close>

locale fresh_bus =
  fixes E :: "('s, 'j, 'tx, 'i, 'w) engine_env" and used :: "'w \<Rightarrow> string set"
  assumes ulid_fresh: "ee_ulid E w = (u, w') \<Longrightarrow> u \<notin> used w \<and> used w' = insert u (used w)"
    and channel_used: "used (snd (ee_channel E n w)) = used w"
begin

lemma channelD: "ee_channel E n w = (tx, w') \<Longrightarrow> used w' = used w"
  using channel_used [of n w] by simp

lemma subscribe_effect:
  assumes "bus_subscribe E pat opts en = (r, en')" and "index_wf (ds_index (en_state en))"
  shows "case r of
      Inl _ \<Rightarrow> en_state en' = en_state en \<and> used (en_world en) \<subseteq> used (en_world en')
    | Inr sub \<Rightarrow> sub_id sub \<notin> used (en_world en) \<and> used (en_world en') = insert (sub_id sub) (used (en_world en))
        \<and> (\<exists>ix e. en_state en' = (en_state en)\<lparr>ds_index := ix, ds_senders := (ds_senders (en_state en))(sub_id sub \<mapsto> sub_rx sub)\<rparr>
             \<and> index_wf ix \<and> index_entries ix = add_mset e (index_entries (ds_index (en_state en)))
             \<and> entry_id e = sub_id sub \<and> subject_pattern e = pat)"
proof (cases "validate_subject pat")
  case (Inl e)
  with assms(1) show ?thesis by (auto simp: bus_subscribe_def engine_subscribe_def)
next
  case (Inr v)
  obtain u w1 where u: "ee_ulid E (en_world en) = (u, w1)" by (rule prod.exhaust)
  obtain tx w2 where t: "ee_channel E DEFAULT_CHANNEL_CAPACITY w1 = (tx, w2)" by (rule prod.exhaust)
  let ?e = "\<lparr>entry_id = u, subject_pattern = pat, priority = so_priority opts, mode = so_mode opts,
     channel = so_channel opts, timeout = so_timeout opts, entry_filter = so_filter opts\<rparr>"
  have w: "u \<notin> used (en_world en)" "used w2 = insert u (used (en_world en))"
    using ulid_fresh [OF u] channelD [OF t] by auto
  show ?thesis
  proof (cases "valid_pattern pat")
    case True
    then obtain ix where "index_subscribe (ds_index (en_state en)) ?e = Inr ix" "index_wf ix"
        "index_entries ix = add_mset ?e (index_entries (ds_index (en_state en)))"
      using ix.sub_law [OF assms(2), of ?e] by auto
    then show ?thesis
      using assms(1) Inr u t w
      by (auto simp: bus_subscribe_def engine_subscribe_def Let_def intro!: exI [of _ ix] exI [of _ ?e])
  next
    case False
    then obtain m where "index_subscribe (ds_index (en_state en)) ?e = Inl m"
      using ix.sub_reject [of ?e] by auto
    then show ?thesis
      using assms(1) Inr u t w by (auto simp: bus_subscribe_def engine_subscribe_def Let_def)
  qed
qed

lemma intercept_effect:
  assumes "bus_intercept E pat prio ic tmo en = (r, en')" and "index_wf (ds_index (en_state en))"
  shows "case r of
      Inl _ \<Rightarrow> en_state en' = en_state en \<and> used (en_world en) \<subseteq> used (en_world en')
    | Inr i \<Rightarrow> i \<notin> used (en_world en) \<and> used (en_world en') = insert i (used (en_world en))
        \<and> (\<exists>ix e. en_state en' = (en_state en)\<lparr>ds_index := ix, ds_interceptors := (ds_interceptors (en_state en))(i \<mapsto> ic)\<rparr>
             \<and> index_wf ix \<and> index_entries ix = add_mset e (index_entries (ds_index (en_state en)))
             \<and> entry_id e = i \<and> subject_pattern e = pat \<and> priority e = prio
             \<and> timeout e = (case tmo of None \<Rightarrow> DEFAULT_INTERCEPTOR_TIMEOUT | Some d \<Rightarrow> d))"
proof (cases "validate_subject pat")
  case (Inl e)
  with assms(1) show ?thesis by (auto simp: bus_intercept_def intercept_def)
next
  case (Inr v)
  obtain u w1 where u: "ee_ulid E (en_world en) = (u, w1)" by (rule prod.exhaust)
  let ?e = "\<lparr>entry_id = u, subject_pattern = pat, priority = prio, mode = Sync, channel = InProcess,
     timeout = (case tmo of None \<Rightarrow> DEFAULT_INTERCEPTOR_TIMEOUT | Some d \<Rightarrow> d), entry_filter = None\<rparr>"
  have w: "u \<notin> used (en_world en)" "used w1 = insert u (used (en_world en))"
    using ulid_fresh [OF u] by auto
  show ?thesis
  proof (cases "valid_pattern pat")
    case True
    then obtain ix where "index_subscribe (ds_index (en_state en)) ?e = Inr ix" "index_wf ix"
        "index_entries ix = add_mset ?e (index_entries (ds_index (en_state en)))"
      using ix.sub_law [OF assms(2), of ?e] by auto
    then show ?thesis
      using assms(1) Inr u w
      by (auto simp: bus_intercept_def intercept_def Let_def split: if_splits intro!: exI [of _ ix] exI [of _ ?e])
  next
    case False
    then obtain m where "index_subscribe (ds_index (en_state en)) ?e = Inl m"
      using ix.sub_reject [of ?e] by auto
    then show ?thesis
      using assms(1) Inr u w by (auto simp: bus_intercept_def intercept_def Let_def split: if_splits)
  qed
qed

end

text \<open>Nothing that happens during a dispatch takes a handed-out id back.\<close>

locale growing_ids = fresh_bus +
  assumes try_send_used: "used w \<subseteq> used (snd (ee_try_send E tx ev w))"
    and intercept_used: "used w \<subseteq> used (snd (ee_intercept E ic d subj q t p w))"
begin

lemma send_to_used: "send_to E tx ev en = (r, en') \<Longrightarrow> used (en_world en) \<subseteq> used (en_world en')"
  using try_send_used [of "en_world en" tx ev] by (auto simp: send_to_def split: prod.splits)

lemma sync_step_used:
  assumes "sync_step E q subj rep x p en = (st, err, p', stop, en1)"
  shows "used (en_world en) \<subseteq> used (en_world en1)"
proof -
  obtain i d io so where x: "x = (i, d, io, so)" by (rule prod_cases4)
  show ?thesis
  proof (cases io)
    case (Some ic)
    then show ?thesis
      using assms x intercept_used [of "en_world en" ic d subj q "ee_now E (en_world en)" p]
      by (auto simp: sync_step_def split: prod.splits join_outcome.splits)
  next
    case None
    then show ?thesis
      using assms x by (cases so) (auto simp: sync_step_def split: prod.splits sum.splits dest!: send_to_used)
  qed
qed

lemma sync_chain_used:
  "sync_chain E r q subj rep snap p af en = (p', af', dr, en') \<Longrightarrow> used (en_world en) \<subseteq> used (en_world en')"
proof (induction snap arbitrary: p af en)
  case (Cons x snap)
  obtain st err p1 stop en1 where s: "sync_step E q subj rep x p en = (st, err, p1, stop, en1)"
    by (rule prod_cases5)
  show ?case
  proof (cases stop)
    case False
    with Cons.prems s have "sync_chain E r q subj rep snap p1 (af \<or> st \<noteq> DlDelivered)
        (try_record E r q (fst x) st err en1) = (p', af', dr, en')"
      by (simp add: sync_chain_Cons)
    from order_trans [OF sync_step_used [OF s], OF Cons.IH [OF this, simplified]] show ?thesis .
  qed (use Cons.prems s sync_step_used [OF s] in \<open>auto simp: sync_chain_Cons\<close>)
qed simp

lemma async_fanout_used:
  "async_fanout E r q subj rep p snds af en = (af', en') \<Longrightarrow> used (en_world en) \<subseteq> used (en_world en')"
proof (induction snds arbitrary: af en)
  case (Cons x snds)
  obtain st err en1 where s: "async_step E q subj rep p (snd x) en = (st, err, en1)"
    by (rule prod_cases3)
  have "used (en_world en) \<subseteq> used (en_world en1)"
    using s by (auto simp: async_step_def split: option.splits prod.splits sum.splits try_send_error.splits
        dest!: send_to_used)
  moreover have "async_fanout E r q subj rep p snds (af \<or> st \<noteq> DlDelivered) (try_record E r q (fst x) st err en1) = (af', en')"
    using Cons.prems s by (simp add: async_fanout_Cons)
  note Cons.IH [OF this, simplified]
  ultimately show ?case by (rule order_trans)
qed simp

lemma dispatch_used:
  "dispatch_persisted_event E q subj p rep r en = (res, en') \<Longrightarrow> used (en_world en) \<subseteq> used (en_world en')"
  by (auto simp: dispatch_persisted_event_def Let_def split: if_splits prod.splits
      dest!: sync_chain_used async_fanout_used) (metis subsetD)+

lemma publish_used:
  "publish_event E ic subj p rep en = (res, en') \<Longrightarrow> used (en_world en) \<subseteq> used (en_world en')"
  by (auto simp: publish_event_def Let_def split: if_splits prod.splits sum.splits dest!: dispatch_used)

end

text \<open>Ids for concrete inputs, drawn in unary so that none comes twice.\<close>

definition unary_id :: "nat \<Rightarrow> string" where
  "unary_id n = replicate n CHR ''1''"

lemma unary_id_eq [simp]: "unary_id m = unary_id n \<longleftrightarrow> m = n"
  by (auto simp: unary_id_def dest: arg_cong [where f = length])

end
