(* ===== verification/Remote_Transport.thy ===== *)
theory Remote_Transport
  imports Bus_Ids
begin

text \<open>
  What the WebSocket and HTTP transports share (\<open>transport/mod.rs\<close>): the validation of a pattern
  that a remote client registers, the clamps of its priority and timeout, and the decoding of a
  payload. The \<open>base64\<close> crate is a parameter. \<open>str::trim\<close> removes Unicode white space; on the
  UTF-8 bytes of a string that is a fixed list of byte sequences.
\<close>

section \<open>White space\<close>

definition unicode_white_space :: "string list" where
  "unicode_white_space =
     [[CHR 0x09], [CHR 0x0A], [CHR 0x0B], [CHR 0x0C], [CHR 0x0D], [CHR 0x20],
      [CHR 0xC2, CHR 0x85], [CHR 0xC2, CHR 0xA0], [CHR 0xE1, CHR 0x9A, CHR 0x80],
      [CHR 0xE2, CHR 0x80, CHR 0x80], [CHR 0xE2, CHR 0x80, CHR 0x81], [CHR 0xE2, CHR 0x80, CHR 0x82],
      [CHR 0xE2, CHR 0x80, CHR 0x83], [CHR 0xE2, CHR 0x80, CHR 0x84], [CHR 0xE2, CHR 0x80, CHR 0x85],
      [CHR 0xE2, CHR 0x80, CHR 0x86], [CHR 0xE2, CHR 0x80, CHR 0x87], [CHR 0xE2, CHR 0x80, CHR 0x88],
      [CHR 0xE2, CHR 0x80, CHR 0x89], [CHR 0xE2, CHR 0x80, CHR 0x8A], [CHR 0xE2, CHR 0x80, CHR 0xA8],
      [CHR 0xE2, CHR 0x80, CHR 0xA9], [CHR 0xE2, CHR 0x80, CHR 0xAF], [CHR 0xE2, CHR 0x81, CHR 0x9F],
      [CHR 0xE3, CHR 0x80, CHR 0x80]]"

function strip_front :: "string list \<Rightarrow> string \<Rightarrow> string" where
  "strip_front ws s =
     (case find (\<lambda>w. w \<noteq> [] \<and> starts_with s w) ws of
        None \<Rightarrow> s
      | Some w \<Rightarrow> strip_front ws (drop (length w) s))"
  by pat_completeness auto
termination
  by (relation "measure (length \<circ> snd)") (auto dest!: find_Some_mem simp: starts_with_iff)

declare strip_front.simps [simp del]

definition str_trim :: "string \<Rightarrow> string" where
  "str_trim s = rev (strip_front (map rev unicode_white_space) (rev (strip_front unicode_white_space s)))"

section \<open>Operations\<close>

definition DEFAULT_TIMEOUT_MS :: u64 where "DEFAULT_TIMEOUT_MS = 5000"
definition MAX_ENCODED_PAYLOAD :: nat where "MAX_ENCODED_PAYLOAD = 1048576"
definition MIN_REMOTE_INTERCEPTOR_PRIORITY :: u32 where "MIN_REMOTE_INTERCEPTOR_PRIORITY = 100"
definition MAX_REMOTE_INTERCEPTOR_TIMEOUT_MS :: u64 where "MAX_REMOTE_INTERCEPTOR_TIMEOUT_MS = 2000"
definition MAX_REMOTE_PATTERN_LENGTH :: nat where "MAX_REMOTE_PATTERN_LENGTH = 256"

datatype remote_pattern_error =
    PatternEmpty
  | TooLong nat nat
  | UnboundedPrefix string
  | Reserved string
  | Whitespace string
  | NulByte string
  | InvalidToken string string

definition quoted :: "string \<Rightarrow> string" where
  "quoted s = [CHR 0x27] @ s @ [CHR 0x27]"

fun remote_pattern_error_text :: "remote_pattern_error \<Rightarrow> string" where
  "remote_pattern_error_text PatternEmpty = ''pattern is empty''"
| "remote_pattern_error_text (TooLong n m) = ''pattern length '' @ show_nat n @ '' exceeds maximum '' @ show_nat m"
| "remote_pattern_error_text (UnboundedPrefix p) = ''pattern '' @ quoted p @ '' may not match the catch-all ''
     @ quoted ''>'' @ '' / '' @ quoted ''*'' @ '' wildcard at the first token (would match reserved ''
     @ quoted ''_reply.*'' @ '' subjects)''"
| "remote_pattern_error_text (Reserved p) = ''pattern '' @ quoted p @ '' targets a reserved internal subject (''
     @ quoted ''_reply'' @ '' / '' @ quoted ''_reply.*'' @ '')''"
| "remote_pattern_error_text (Whitespace p) = ''pattern '' @ quoted p @ '' contains leading/trailing whitespace''"
| "remote_pattern_error_text (NulByte p) = ''pattern '' @ quoted p @ '' contains a NUL byte''"
| "remote_pattern_error_text (InvalidToken p t) = ''pattern '' @ quoted p @ '' contains an invalid token: '' @ t"

definition validate_remote_pattern :: "string \<Rightarrow> remote_pattern_error + unit" where
  "validate_remote_pattern pattern =
     (if pattern = [] then Inl PatternEmpty
      else if length pattern > MAX_REMOTE_PATTERN_LENGTH then
        Inl (TooLong (length pattern) MAX_REMOTE_PATTERN_LENGTH)
      else if list_ex (\<lambda>c. c = CHR 0x00) pattern then Inl (NulByte pattern)
      else if pattern \<noteq> str_trim pattern then Inl (Whitespace pattern)
      else
        let tokens = tokens_of pattern; first = hd tokens in
        if list_ex (\<lambda>tok. tok = []) tokens then
          Inl (InvalidToken pattern ''empty token (consecutive or leading dots)'')
        else if first = ''*'' \<or> first = ''>'' then Inl (UnboundedPrefix pattern)
        else if first = ''_reply'' then Inl (Reserved pattern)
        else if starts_with pattern ''_reply.'' then Inl (Reserved pattern)
        else Inr ())"

definition clamp_remote_interceptor_priority :: "u32 \<Rightarrow> u32" where
  "clamp_remote_interceptor_priority prio = max prio MIN_REMOTE_INTERCEPTOR_PRIORITY"

definition clamp_remote_interceptor_timeout :: "u64 option \<Rightarrow> u64 option" where
  "clamp_remote_interceptor_timeout timeout_ms =
     map_option (\<lambda>t. min t MAX_REMOTE_INTERCEPTOR_TIMEOUT_MS) timeout_ms"

definition validate_and_decode_payload :: "(string \<Rightarrow> string + bytes) \<Rightarrow> string \<Rightarrow> string + bytes" where
  "validate_and_decode_payload decode payload =
     (if length payload > MAX_ENCODED_PAYLOAD then
        Inl (''Encoded payload '' @ show_nat (length payload) @ '' bytes exceeds limit of ''
             @ show_nat MAX_ENCODED_PAYLOAD @ '' bytes'')
      else map_err (\<lambda>e. ''Base64 decode failed: '' @ e) (decode payload))"

section \<open>Properties\<close>

definition concrete_first :: "string \<Rightarrow> bool" where
  "concrete_first pattern \<longleftrightarrow> hd (tokens_of pattern) \<notin> {''*'', ''>'', ''_reply''}"

lemma validate_remote_ok:
  "validate_remote_pattern p = Inr () \<Longrightarrow> concrete_first p \<and> p \<noteq> [] \<and> length p \<le> 256 \<and> [] \<notin> set (tokens_of p)
     \<and> CHR 0x00 \<notin> set p"
  by (auto simp: validate_remote_pattern_def concrete_first_def Let_def list_ex_iff MAX_REMOTE_PATTERN_LENGTH_def
      split: if_splits)

lemma reply_first_token: "starts_with s ''_reply.'' \<Longrightarrow> \<exists>rest. tokens_of s = ''_reply'' # rest"
  using starts_with_first_token [of "CHR ''.''" "''_reply''" s] by auto

lemma concrete_not_reply:
  assumes "concrete_first p" and "starts_with subj ''_reply.''"
  shows "\<not> pattern_matches (tokens_of p) (tokens_of subj)"
proof -
  obtain rest where "tokens_of subj = ''_reply'' # rest"
    using reply_first_token [OF assms(2)] by blast
  moreover obtain t ts where "tokens_of p = t # ts"
    by (cases "tokens_of p") auto
  ultimately show ?thesis using assms(1) by (auto simp: concrete_first_def)
qed

text \<open>A subject that a pattern matches: its wildcards filled in.\<close>

definition fill_token :: "string \<Rightarrow> string" where
  "fill_token t = (if t = ''*'' \<or> t = ''>'' then ''x'' else t)"

lemma pattern_matches_fill: "pattern_matches ts (map fill_token ts)"
  by (induction ts) (auto simp: fill_token_def)

lemma split_on_join:
  "ts \<noteq> [] \<Longrightarrow> (\<And>t. t \<in> set ts \<Longrightarrow> c \<notin> set t) \<Longrightarrow> split_on c (join_with c ts) = ts"
  by (induction c ts rule: join_with.induct) (simp_all add: split_on_free split_on_append)

lemma fill_no_dot: "t \<in> set (tokens_of p) \<Longrightarrow> CHR ''.'' \<notin> set (fill_token t)"
  using split_on_no_sep [of t "CHR ''.''" p] by (auto simp: fill_token_def)

lemma unbounded_matches_reply:
  assumes "tokens_of p = t # t' # ts" and "t = ''*'' \<or> t = ''_reply''"
  shows "\<exists>subj. starts_with subj ''_reply.'' \<and> pattern_matches (tokens_of p) (tokens_of subj)"
proof -
  let ?us = "''_reply'' # map fill_token (t' # ts)"
  let ?subj = "join_with CHR ''.'' ?us"
  have "CHR ''.'' \<notin> set u" if "u \<in> set ?us" for u
    using that fill_no_dot [of _ p] assms(1) by auto
  then have tok: "tokens_of ?subj = ?us"
    by (intro split_on_join) auto
  have "pattern_matches (tokens_of p) ?us"
    using pattern_matches_fill [of "t' # ts"] assms by auto
  moreover have "?subj = ''_reply.'' @ join_with CHR ''.'' (map fill_token (t' # ts))"
    by (cases ts) simp_all
  then have "starts_with ?subj ''_reply.''"
    unfolding starts_with_iff by blast
  ultimately show ?thesis using tok by metis
qed


lemma demo_trim: "str_trim ''events.*'' = ''events.*''" "str_trim ''*.>'' = ''*.>''"
  by (simp_all add: str_trim_def strip_front.simps unicode_white_space_def)


end
