(* ===== verification/Webhook.thy ===== *)
theory Webhook
  imports Dispatch_Engine
begin

unbundle bit_operations_syntax

text \<open>
  Webhook delivery (\<open>delivery/webhook.rs\<close>) and webhook interceptors
  (\<open>delivery/webhook_interceptor.rs\<close>): the validation of a URL against server-side request forgery,
  the circuit breaker per URL, and the POST of an event to the validated address. The crates
  \<open>url\<close>, \<open>reqwest\<close>, \<open>base64\<close> and \<open>serde_json\<close>, the resolver and the clock are the fields of
  \<open>webhook_env\<close>; a point in time is a number of nanoseconds.
\<close>

section \<open>Addresses\<close>

type_synonym u16 = "16 word"

datatype ip_addr = V4 "32 word" | V6 "128 word"

text \<open>The predicates of \<open>std::net\<close>, on the octets and segments of an address.\<close>

definition v4_octet :: "nat \<Rightarrow> 32 word \<Rightarrow> u8" where
  "v4_octet i a = ucast (drop_bit (8 * (3 - i)) a)"

definition v6_segment0 :: "128 word \<Rightarrow> u16" where
  "v6_segment0 a = ucast (drop_bit 112 a)"

definition v4_is_loopback :: "32 word \<Rightarrow> bool" where
  "v4_is_loopback a \<longleftrightarrow> v4_octet 0 a = 127"

definition v4_is_private :: "32 word \<Rightarrow> bool" where
  "v4_is_private a \<longleftrightarrow> v4_octet 0 a = 10
     \<or> v4_octet 0 a = 172 \<and> 16 \<le> v4_octet 1 a \<and> v4_octet 1 a \<le> 31
     \<or> v4_octet 0 a = 192 \<and> v4_octet 1 a = 168"

definition v4_is_link_local :: "32 word \<Rightarrow> bool" where
  "v4_is_link_local a \<longleftrightarrow> v4_octet 0 a = 169 \<and> v4_octet 1 a = 254"

definition v4_is_multicast :: "32 word \<Rightarrow> bool" where
  "v4_is_multicast a \<longleftrightarrow> 224 \<le> v4_octet 0 a \<and> v4_octet 0 a \<le> 239"

definition v6_is_multicast :: "128 word \<Rightarrow> bool" where
  "v6_is_multicast a \<longleftrightarrow> v6_segment0 a AND 0xff00 = 0xff00"

definition v6_to_ipv4_mapped :: "128 word \<Rightarrow> 32 word option" where
  "v6_to_ipv4_mapped a = (if drop_bit 32 a = 0xffff then Some (ucast a) else None)"

fun is_unspecified :: "ip_addr \<Rightarrow> bool" where
  "is_unspecified (V4 a) \<longleftrightarrow> a = 0"
| "is_unspecified (V6 a) \<longleftrightarrow> a = 0"

definition is_private_v4 :: "32 word \<Rightarrow> bool" where
  "is_private_v4 a \<longleftrightarrow> v4_is_loopback a \<or> v4_is_private a \<or> v4_is_link_local a \<or> a = 0 \<or> v4_is_multicast a
     \<or> a = 0xffffffff \<or> v4_octet 0 a = 100 \<and> v4_octet 1 a AND 0xc0 = 64"

fun is_private_ip :: "ip_addr \<Rightarrow> bool" where
  "is_private_ip (V4 a) \<longleftrightarrow> is_private_v4 a"
| "is_private_ip (V6 a) \<longleftrightarrow> a = 1 \<or> a = 0 \<or> v6_is_multicast a \<or> v6_segment0 a AND 0xfe00 = 0xfc00
     \<or> v6_segment0 a AND 0xffc0 = 0xfe80
     \<or> (case v6_to_ipv4_mapped a of None \<Rightarrow> False | Some v4 \<Rightarrow> is_private_v4 v4)"

section \<open>Validation of a URL\<close>

datatype webhook_url_policy = Strict | Permissive

datatype webhook_url_error =
    UrlParse string
  | InsecureScheme string
  | NoHost
  | PrivateAddress string ip_addr
  | DnsError string string

record validated_webhook_url =
  vu_host :: string
  vu_port :: u16
  vu_resolved_ip :: ip_addr

datatype url_host = HostV4 "32 word" | HostV6 "128 word" | HostDomain string

record parsed_url =
  pu_scheme :: string
  pu_host :: "url_host option"
  pu_host_str :: "string option"
  pu_port_or_default :: "u16 option"

text \<open>An HTTP response: its status code, the canonical reason of the code, and its body.\<close>

record http_response =
  hr_status :: u16
  hr_reason :: "string option"
  hr_body :: bytes

record http_post =
  hp_addr :: ip_addr
  hp_port :: u16
  hp_url :: string
  hp_headers :: "string \<rightharpoonup> string"
  hp_subject :: string
  hp_payload :: string
  hp_seq :: "u64 option"
  hp_stored_at :: "u64 option"

datatype webhook_intercept_result = WPass | WDrop | WModify string

record 'w webhook_env =
  we_parse :: "string \<Rightarrow> string + parsed_url"
  we_resolve :: "string \<Rightarrow> u16 \<Rightarrow> 'w \<Rightarrow> (string + ip_addr list) \<times> 'w"
  we_show_ip :: "ip_addr \<Rightarrow> string"
  we_join_error :: "'w \<Rightarrow> string option"
  we_build_error :: "'w \<Rightarrow> string option"
  we_post :: "duration \<Rightarrow> http_post \<Rightarrow> 'w \<Rightarrow> (string + http_response) \<times> 'w"
  we_head :: "duration \<Rightarrow> string \<Rightarrow> (string \<rightharpoonup> string) \<Rightarrow> 'w \<Rightarrow> (string + http_response) \<times> 'w"
  we_encode :: "bytes \<Rightarrow> string"
  we_decode :: "string \<Rightarrow> string + bytes"
  we_result_json :: "bytes \<Rightarrow> string + webhook_intercept_result"
  we_clock :: "'w \<Rightarrow> nat"

fun webhook_url_error_text :: "(ip_addr \<Rightarrow> string) \<Rightarrow> webhook_url_error \<Rightarrow> string" where
  "webhook_url_error_text sh (UrlParse e) = ''invalid URL: '' @ e"
| "webhook_url_error_text sh (InsecureScheme s) = ''URL scheme must be https (got '' @ s @ '')''"
| "webhook_url_error_text sh NoHost = ''URL must have a host''"
| "webhook_url_error_text sh (PrivateAddress h ip) =
     ''URL host '' @ h @ '' resolves to a private/loopback/link-local address ('' @ sh ip @ '')''"
| "webhook_url_error_text sh (DnsError h e) = ''URL host '' @ h @ '' could not be resolved: '' @ e"

definition check_address_against_policy :: "string \<Rightarrow> ip_addr \<Rightarrow> webhook_url_policy \<Rightarrow> webhook_url_error + unit" where
  "check_address_against_policy host ip policy =
     (case policy of
        Strict \<Rightarrow> if is_private_ip ip then Inl (PrivateAddress host ip) else Inr ()
      | Permissive \<Rightarrow> if is_unspecified ip then Inl (PrivateAddress host ip) else Inr ())"

fun check_addresses :: "string \<Rightarrow> webhook_url_policy \<Rightarrow> ip_addr list \<Rightarrow> webhook_url_error + unit" where
  "check_addresses host policy [] = Inr ()"
| "check_addresses host policy (ip # ips) =
     andthen (check_address_against_policy host ip policy) (\<lambda>_. check_addresses host policy ips)"

text \<open>The address of a domain: the first one of a first lookup, after every address of a second
  lookup has passed the policy.\<close>

definition resolve_domain ::
  "'w webhook_env \<Rightarrow> webhook_url_policy \<Rightarrow> string \<Rightarrow> string \<Rightarrow> u16 \<Rightarrow> 'w \<Rightarrow> (webhook_url_error + ip_addr) \<times> 'w" where
  "resolve_domain W policy host_str domain port w =
     (case we_resolve W domain port w of
        (Inl e, w) \<Rightarrow> (Inl (DnsError domain e), w)
      | (Inr [], w) \<Rightarrow> (Inl (DnsError domain ''no address resolved''), w)
      | (Inr (first # _), w) \<Rightarrow>
          (case we_resolve W domain port w of
             (Inl e, w) \<Rightarrow> (Inl (DnsError domain e), w)
           | (Inr ips, w) \<Rightarrow> (andthen (check_addresses host_str policy ips) (\<lambda>_. Inr first), w)))"

definition validate_webhook_url_resolved ::
  "'w webhook_env \<Rightarrow> string \<Rightarrow> webhook_url_policy \<Rightarrow> 'w \<Rightarrow> (webhook_url_error + validated_webhook_url) \<times> 'w" where
  "validate_webhook_url_resolved W url policy w =
     (case we_parse W url of
        Inl e \<Rightarrow> (Inl (UrlParse e), w)
      | Inr parsed \<Rightarrow>
          if policy = Strict \<and> pu_scheme parsed \<noteq> ''https'' then (Inl (InsecureScheme (pu_scheme parsed)), w)
          else if pu_scheme parsed \<noteq> ''http'' \<and> pu_scheme parsed \<noteq> ''https'' then
            (Inl (InsecureScheme (pu_scheme parsed)), w)
          else
            (case (pu_host parsed, pu_host_str parsed) of
               (None, _) \<Rightarrow> (Inl NoHost, w)
             | (_, None) \<Rightarrow> (Inl NoHost, w)
             | (Some host_obj, Some host_str) \<Rightarrow>
                 (let port = (case pu_port_or_default parsed of None \<Rightarrow> 443 | Some p \<Rightarrow> p) in
                  case (case host_obj of
                          HostV4 v4 \<Rightarrow> (Inr (V4 v4), w)
                        | HostV6 v6 \<Rightarrow> (Inr (V6 v6), w)
                        | HostDomain domain \<Rightarrow> resolve_domain W policy host_str domain port w) of
                    (r, w) \<Rightarrow>
                      (andthen r (\<lambda>resolved_ip.
                         andthen (check_address_against_policy host_str resolved_ip policy) (\<lambda>_.
                           Inr \<lparr>vu_host = host_str, vu_port = port, vu_resolved_ip = resolved_ip\<rparr>)), w))))"

definition validate_webhook_url_with_policy ::
  "'w webhook_env \<Rightarrow> string \<Rightarrow> webhook_url_policy \<Rightarrow> 'w \<Rightarrow> (webhook_url_error + unit) \<times> 'w" where
  "validate_webhook_url_with_policy W url policy w =
     (case validate_webhook_url_resolved W url policy w of (r, w) \<Rightarrow> (andthen r (\<lambda>_. Inr ()), w))"

section \<open>The circuit breaker\<close>

record circuit_breaker_config =
  cb_failure_threshold :: u32
  cb_initial_cooldown :: duration
  cb_max_cooldown :: duration

definition default_circuit_config :: circuit_breaker_config where
  "default_circuit_config =
     \<lparr>cb_failure_threshold = 3, cb_initial_cooldown = from_secs 30, cb_max_cooldown = from_secs 300\<rparr>"

datatype circuit_mode = CircuitClosed | CircuitOpen | CircuitHalfOpen

record circuit_state =
  cs_mode :: circuit_mode
  cs_consecutive_failures :: u32
  cs_cooldown :: duration
  cs_opened_until :: "nat option"

type_synonym circuits = "string \<rightharpoonup> circuit_state"

definition circuit_new :: "circuit_breaker_config \<Rightarrow> circuit_state" where
  "circuit_new config =
     \<lparr>cs_mode = CircuitClosed, cs_consecutive_failures = 0, cs_cooldown = cb_initial_cooldown config,
      cs_opened_until = None\<rparr>"

text \<open>\<open>circuits.entry(url).or_insert_with(...)\<close>.\<close>

definition circuit_entry :: "circuit_breaker_config \<Rightarrow> string \<Rightarrow> circuits \<Rightarrow> circuit_state" where
  "circuit_entry config url circuits =
     (case circuits url of None \<Rightarrow> circuit_new config | Some st \<Rightarrow> st)"

definition ensure_circuit_allows_delivery ::
  "circuit_breaker_config \<Rightarrow> nat \<Rightarrow> string \<Rightarrow> circuits \<Rightarrow> (delivery_error + unit) \<times> circuits" where
  "ensure_circuit_allows_delivery config now url circuits =
     (let state = circuit_entry config url circuits; circuits = circuits(url \<mapsto> state) in
      case cs_mode state of
        CircuitClosed \<Rightarrow> (Inr (), circuits)
      | CircuitHalfOpen \<Rightarrow> (Inr (), circuits)
      | CircuitOpen \<Rightarrow>
          if (case cs_opened_until state of None \<Rightarrow> False | Some until \<Rightarrow> until \<le> now) then
            (Inr (), circuits(url \<mapsto> state\<lparr>cs_mode := CircuitHalfOpen\<rparr>))
          else
            (Inl (DeliveryFailed ''webhook circuit open; delivery skipped until cooldown expires''), circuits))"

definition record_success :: "circuit_breaker_config \<Rightarrow> string \<Rightarrow> circuits \<Rightarrow> circuits" where
  "record_success config url circuits = circuits(url \<mapsto> circuit_new config)"

definition saturating_add1 :: "u32 \<Rightarrow> u32" where
  "saturating_add1 n = (if n = - 1 then n else n + 1)"

definition record_failure :: "circuit_breaker_config \<Rightarrow> nat \<Rightarrow> string \<Rightarrow> circuits \<Rightarrow> circuits" where
  "record_failure config now url circuits =
     (let state = circuit_entry config url circuits;
          state = state\<lparr>cs_consecutive_failures := saturating_add1 (cs_consecutive_failures state)\<rparr> in
      circuits(url \<mapsto>
        (if cs_mode state = CircuitHalfOpen \<or> cs_consecutive_failures state \<ge> cb_failure_threshold config then
           state\<lparr>cs_mode := CircuitOpen, cs_opened_until := Some (now + cs_cooldown state),
                 cs_cooldown := min (cs_cooldown state * 2) (cb_max_cooldown config)\<rparr>
         else state)))"

definition circuit_blocks_health :: "nat \<Rightarrow> string \<Rightarrow> circuits \<Rightarrow> bool" where
  "circuit_blocks_health now url circuits =
     (case circuits url of
        None \<Rightarrow> False
      | Some state \<Rightarrow> cs_mode state = CircuitOpen
          \<and> (case cs_opened_until state of None \<Rightarrow> False | Some until \<Rightarrow> now < until))"

section \<open>Delivery\<close>

definition extract_config :: "'j channel_config \<Rightarrow> delivery_error + string \<times> (string \<rightharpoonup> string)" where
  "extract_config config =
     (case config of
        Webhook url headers \<Rightarrow> Inr (url, headers)
      | _ \<Rightarrow> Inl (DeliveryFailed ''Invalid config for WebhookChannel''))"

definition status_is_success :: "u16 \<Rightarrow> bool" where
  "status_is_success code \<longleftrightarrow> 200 \<le> code \<and> code < 300"

definition status_is_client_error :: "u16 \<Rightarrow> bool" where
  "status_is_client_error code \<longleftrightarrow> 400 \<le> code \<and> code < 500"

text \<open>The error of a response that is not a success: client errors are permanent, but for the
  three that ask to come back later.\<close>

definition response_error :: "http_response \<Rightarrow> delivery_error" where
  "response_error response =
     (let code = hr_status response;
          msg = ''HTTP '' @ show_word code @ '': ''
                @ (case hr_reason response of None \<Rightarrow> ''unknown'' | Some r \<Rightarrow> r) in
      if status_is_client_error code \<and> code \<noteq> 408 \<and> code \<noteq> 425 \<and> code \<noteq> 429 then DeliveryPermanent msg
      else DeliveryFailed msg)"

definition webhook_deliver ::
  "'w webhook_env \<Rightarrow> webhook_url_policy \<Rightarrow> circuit_breaker_config \<Rightarrow> ('j, circuits \<times> 'w) delivery_channel" where
  "webhook_deliver W policy cfg event subj config = (\<lambda>(circuits, w).
     let start = we_clock W w in
     case extract_config config of
       Inl e \<Rightarrow> (Inl e, circuits, w)
     | Inr (url, headers) \<Rightarrow>
         (case ensure_circuit_allows_delivery cfg (we_clock W w) url circuits of
            (Inl e, circuits) \<Rightarrow> (Inl e, circuits, w)
          | (Inr _, circuits) \<Rightarrow>
              (case we_join_error W w of
                 Some join_err \<Rightarrow>
                   (Inl (DeliveryFailed (''validation task panicked: '' @ join_err)),
                    record_failure cfg (we_clock W w) url circuits, w)
               | None \<Rightarrow>
                   (case validate_webhook_url_resolved W url policy w of
                      (Inl e, w) \<Rightarrow>
                        (Inl (DeliveryPermanent (''URL no longer passes SSRF policy: ''
                               @ webhook_url_error_text (we_show_ip W) e)),
                         record_failure cfg (we_clock W w) url circuits, w)
                    | (Inr validated, w) \<Rightarrow>
                        (case we_build_error W w of
                           Some e \<Rightarrow>
                             (Inl (DeliveryFailed (''failed to build pinned client: '' @ e)),
                              record_failure cfg (we_clock W w) url circuits, w)
                         | None \<Rightarrow>
                             (case we_post W (from_secs 30)
                                     \<lparr>hp_addr = vu_resolved_ip validated, hp_port = vu_port validated, hp_url = url,
                                      hp_headers = headers, hp_subject = subj, hp_payload = we_encode W event,
                                      hp_seq = None, hp_stored_at = None\<rparr> w of
                                (Inl e, w) \<Rightarrow>
                                  (Inl (DeliveryFailed (''HTTP request failed: '' @ e)),
                                   record_failure cfg (we_clock W w) url circuits, w)
                              | (Inr response, w) \<Rightarrow>
                                  if \<not> status_is_success (hr_status response) then
                                    (Inl (response_error response), record_failure cfg (we_clock W w) url circuits, w)
                                  else
                                    (Inr \<lparr>delivered_at = of_nat (as_millis (we_clock W w)),
                                          latency_us = of_nat ((we_clock W w - start) div 1000)\<rparr>,
                                     record_success cfg url circuits, w)))))))"

definition HEALTH_CHECK_TIMEOUT :: duration where "HEALTH_CHECK_TIMEOUT = from_secs 5"

definition webhook_is_healthy ::
  "'w webhook_env \<Rightarrow> 'j channel_config \<Rightarrow> circuits \<times> 'w \<Rightarrow> bool \<times> circuits \<times> 'w" where
  "webhook_is_healthy W config = (\<lambda>(circuits, w).
     case extract_config config of
       Inl _ \<Rightarrow> (False, circuits, w)
     | Inr (url, headers) \<Rightarrow>
         if circuit_blocks_health (we_clock W w) url circuits then (False, circuits, w)
         else
           (case we_head W HEALTH_CHECK_TIMEOUT url headers w of
              (Inl _, w) \<Rightarrow> (False, circuits, w)
            | (Inr resp, w) \<Rightarrow> (status_is_success (hr_status resp) \<or> hr_status resp = 405, circuits, w)))"

section \<open>Webhook interceptors\<close>

record webhook_interceptor =
  wi_pattern :: string
  wi_url :: string
  wi_headers :: "string \<rightharpoonup> string"
  wi_intercept_timeout :: duration
  wi_policy :: webhook_url_policy

definition webhook_interceptor_with_policy ::
  "string \<Rightarrow> string \<Rightarrow> (string \<rightharpoonup> string) \<Rightarrow> webhook_url_policy \<Rightarrow> webhook_interceptor" where
  "webhook_interceptor_with_policy pattern url headers policy =
     \<lparr>wi_pattern = pattern, wi_url = url, wi_headers = headers, wi_intercept_timeout = from_secs 5,
      wi_policy = policy\<rparr>"

definition webhook_interceptor_with_timeout :: "duration \<Rightarrow> webhook_interceptor \<Rightarrow> webhook_interceptor" where
  "webhook_interceptor_with_timeout tmo wi = wi\<lparr>wi_intercept_timeout := tmo\<rparr>"

text \<open>\<open>seq\<close> and \<open>stored_at\<close> are the task-locals of the engine; a zero is left out of the body. The
  result and the payload it leaves.\<close>

definition webhook_intercept ::
  "'w webhook_env \<Rightarrow> webhook_interceptor \<Rightarrow> string \<Rightarrow> u64 \<Rightarrow> u64 \<Rightarrow> bytes \<Rightarrow> 'w
   \<Rightarrow> (intercept_result \<times> bytes) \<times> 'w" where
  "webhook_intercept W wi subj seq stored_at payload w =
     (case we_join_error W w of
        Some _ \<Rightarrow> ((Pass, payload), w)
      | None \<Rightarrow>
          (case validate_webhook_url_resolved W (wi_url wi) (wi_policy wi) w of
             (Inl _, w) \<Rightarrow> ((Pass, payload), w)
           | (Inr validated, w) \<Rightarrow>
               (case we_build_error W w of
                  Some _ \<Rightarrow> ((Pass, payload), w)
                | None \<Rightarrow>
                    (case we_post W (wi_intercept_timeout wi)
                            \<lparr>hp_addr = vu_resolved_ip validated, hp_port = vu_port validated, hp_url = wi_url wi,
                             hp_headers = wi_headers wi, hp_subject = subj, hp_payload = we_encode W payload,
                             hp_seq = (if seq \<noteq> 0 then Some seq else None),
                             hp_stored_at = (if stored_at \<noteq> 0 then Some stored_at else None)\<rparr> w of
                       (Inl _, w) \<Rightarrow> ((Pass, payload), w)
                     | (Inr response, w) \<Rightarrow>
                         if \<not> status_is_success (hr_status response) then ((Pass, payload), w)
                         else
                           (case we_result_json W (hr_body response) of
                              Inl _ \<Rightarrow> ((Pass, payload), w)
                            | Inr WPass \<Rightarrow> ((Pass, payload), w)
                            | Inr WDrop \<Rightarrow> ((Drop, payload), w)
                            | Inr (WModify p) \<Rightarrow>
                                (case we_decode W p of
                                   Inr bytes \<Rightarrow> ((Modified, bytes), w)
                                 | Inl _ \<Rightarrow> ((Pass, payload), w)))))))"

section \<open>The forbidden ranges\<close>

text \<open>The ranges that RFC 1918, 6598, 3927, 4193 and the others name, as first and last address.\<close>

definition forbidden_v4 :: "(nat \<times> nat) list" where
  "forbidden_v4 =
     [(0x00000000, 0x00000000), (0x0A000000, 0x0AFFFFFF), (0x64400000, 0x647FFFFF), (0x7F000000, 0x7FFFFFFF),
      (0xA9FE0000, 0xA9FEFFFF), (0xAC100000, 0xAC1FFFFF), (0xC0A80000, 0xC0A8FFFF), (0xE0000000, 0xEFFFFFFF),
      (0xFFFFFFFF, 0xFFFFFFFF)]"

definition in_ranges :: "(nat \<times> nat) list \<Rightarrow> nat \<Rightarrow> bool" where
  "in_ranges rs n \<longleftrightarrow> (\<exists>r \<in> set rs. fst r \<le> n \<and> n \<le> snd r)"

definition forbidden_v6 :: "(nat \<times> nat) list" where
  "forbidden_v6 =
     [(0, 1), (0xfc00 * 2 ^ 112, 0xfe00 * 2 ^ 112 - 1), (0xfe80 * 2 ^ 112, 0xfec0 * 2 ^ 112 - 1),
      (0xff00 * 2 ^ 112, 2 ^ 128 - 1)]
     @ map (\<lambda>r. (0xffff * 2 ^ 32 + fst r, 0xffff * 2 ^ 32 + snd r)) forbidden_v4"

fun forbidden :: "ip_addr \<Rightarrow> bool" where
  "forbidden (V4 a) = in_ranges forbidden_v4 (unat a)"
| "forbidden (V6 a) = in_ranges forbidden_v6 (unat a)"

lemma unat_and_high: "unat (x AND NOT (mask n)) = unat x div 2 ^ n * 2 ^ n"
  for x :: "'a::len word"
proof -
  have "x AND NOT (mask n) = push_bit n (drop_bit n x)"
    by (rule bit_word_eqI) (auto simp: bit_simps)
  moreover have "unat (push_bit n (drop_bit n x)) = unat x div 2 ^ n * 2 ^ n"
    by (simp add: unsigned_push_bit_eq unsigned_drop_bit_eq flip: drop_bit_eq_div push_bit_eq_mult)
      (rule bit_eqI, auto simp: bit_simps bit_imp_le_length)
  ultimately show ?thesis by simp
qed

lemma and_high_eq: "x AND NOT (mask n) = y \<longleftrightarrow> unat x div 2 ^ n * 2 ^ n = unat y"
  for x y :: "'a::len word"
  unfolding unat_and_high [symmetric] by (simp add: word_unat_eq_iff)

lemma high_masks:
  "(0xc0 :: u8) = NOT (mask 6)" "(0xfe00 :: u16) = NOT (mask 9)" "(0xffc0 :: u16) = NOT (mask 6)"
  "(0xff00 :: u16) = NOT (mask 8)"
  by (simp_all add: mask_eq_exp_minus_1)

lemma unat_octet:
  "unat (v4_octet 0 a) = unat a div 2 ^ 24" "unat (v4_octet (Suc 0) a) = unat a div 2 ^ 16 mod 256"
proof -
  have "unat a div 2 ^ 24 < 256"
    using unat_bound [of a] by simp
  then show "unat (v4_octet 0 a) = unat a div 2 ^ 24"
    by (simp add: v4_octet_def unsigned_ucast_eq take_bit_eq_mod drop_bit_eq_div unat_div)
  show "unat (v4_octet (Suc 0) a) = unat a div 2 ^ 16 mod 256"
    by (simp add: v4_octet_def unsigned_ucast_eq take_bit_eq_mod drop_bit_eq_div unat_div)
qed

lemma unat_segment: "unat (v6_segment0 a) = unat a div 2 ^ 112"
proof -
  have "unat a div 2 ^ 112 < 2 ^ 16"
    using unat_bound [of a] by simp
  then show ?thesis
    by (simp add: v6_segment0_def unsigned_ucast_eq take_bit_eq_mod drop_bit_eq_div unat_div)
qed

lemma octet_shared: "v4_octet (Suc 0) a AND 0xc0 = 64 \<longleftrightarrow> unat a div 2 ^ 16 mod 256 div 64 = 1"
  unfolding high_masks(1) and_high_eq unat_octet by simp

lemma in_ranges_simps [simp]:
  "in_ranges [] n = False" "in_ranges (r # rs) n \<longleftrightarrow> fst r \<le> n \<and> n \<le> snd r \<or> in_ranges rs n"
  "in_ranges (rs @ rs') n \<longleftrightarrow> in_ranges rs n \<or> in_ranges rs' n"
  by (auto simp: in_ranges_def)

lemma div_eq_range: "0 < d \<Longrightarrow> n div d = k \<longleftrightarrow> k * d \<le> n \<and> n < Suc k * d" for n d k :: nat
proof -
  assume d: "0 < d"
  have "n div d = k \<longleftrightarrow> k \<le> n div d \<and> n div d < Suc k" by auto
  also have "\<dots> \<longleftrightarrow> k * d \<le> n \<and> n < Suc k * d"
    by (simp only: less_eq_div_iff_mult_less_eq [OF d] div_less_iff_less_mult [OF d])
  finally show ?thesis .
qed

lemma first_octet_range:
  fixes x y z k :: nat
  assumes "y < 256" and "z < 65536"
  shows "x = k \<longleftrightarrow> k * 16777216 \<le> x * 16777216 + y * 65536 + z \<and> x * 16777216 + y * 65536 + z \<le> k * 16777216 + 16777215"
  using assms by (cases x k rule: linorder_cases) linarith+

lemma two_octet_range:
  fixes x y z k j j' :: nat
  assumes "j' < 256" and "y < 256" and "z < 65536"
  shows "x = k \<and> j \<le> y \<and> y \<le> j' \<longleftrightarrow>
      k * 16777216 + j * 65536 \<le> x * 16777216 + y * 65536 + z
      \<and> x * 16777216 + y * 65536 + z \<le> k * 16777216 + j' * 65536 + 65535"
  using assms by (cases x k rule: linorder_cases) linarith+

lemma private_v4_ranges: "is_private_v4 a \<longleftrightarrow> in_ranges forbidden_v4 (unat a)"
proof -
  define x where "x = unat a div 2 ^ 24"
  define y where "y = unat a div 2 ^ 16 mod 256"
  define z where "z = unat a mod 2 ^ 16"
  have "x = unat a div 2 ^ 16 div 256"
    unfolding x_def by (simp add: div_mult2_eq [symmetric])
  then have "unat a div 2 ^ 16 = x * 256 + y" "unat a = unat a div 2 ^ 16 * 65536 + z"
    unfolding y_def z_def by simp_all
  then have n: "unat a = x * 16777216 + y * 65536 + z" by linarith
  have b: "y < 256" "z < 65536"
    by (simp_all add: y_def z_def)
  note r1 = first_octet_range [OF b, of x] and r2 = two_octet_range [OF _ b, of _ x]
  have o0: "v4_octet 0 a = 127 \<longleftrightarrow> x = 127" "v4_octet 0 a = 10 \<longleftrightarrow> x = 10" "v4_octet 0 a = 172 \<longleftrightarrow> x = 172"
      "v4_octet 0 a = 192 \<longleftrightarrow> x = 192" "v4_octet 0 a = 169 \<longleftrightarrow> x = 169" "v4_octet 0 a = 100 \<longleftrightarrow> x = 100"
      "224 \<le> v4_octet 0 a \<longleftrightarrow> 224 \<le> x" "v4_octet 0 a \<le> 239 \<longleftrightarrow> x \<le> 239"
    by (simp_all add: word_unat_eq_iff word_le_nat_alt unat_octet x_def)
  have o1: "v4_octet (Suc 0) a = 168 \<longleftrightarrow> y = 168" "v4_octet (Suc 0) a = 254 \<longleftrightarrow> y = 254"
      "16 \<le> v4_octet (Suc 0) a \<longleftrightarrow> 16 \<le> y" "v4_octet (Suc 0) a \<le> 31 \<longleftrightarrow> y \<le> 31"
    by (simp_all add: word_unat_eq_iff word_le_nat_alt unat_octet y_def)
  have o2: "v4_octet (Suc 0) a AND 0xc0 = 64 \<longleftrightarrow> 64 \<le> y \<and> y \<le> 127"
    unfolding octet_shared y_def [symmetric] by (auto simp: div_eq_range)
  have ends: "a = 0 \<longleftrightarrow> unat a = 0" "a = 0xffffffff \<longleftrightarrow> unat a = 4294967295"
    by (simp_all add: word_unat_eq_iff)
  have defs: "is_private_v4 a \<longleftrightarrow> unat a = 0 \<or> x = 10 \<or> (x = 100 \<and> 64 \<le> y \<and> y \<le> 127) \<or> x = 127
      \<or> (x = 169 \<and> 254 \<le> y \<and> y \<le> 254) \<or> (x = 172 \<and> 16 \<le> y \<and> y \<le> 31) \<or> (x = 192 \<and> 168 \<le> y \<and> y \<le> 168)
      \<or> (224 \<le> x \<and> x \<le> 239) \<or> unat a = 4294967295"
    unfolding is_private_v4_def v4_is_loopback_def v4_is_private_def v4_is_link_local_def v4_is_multicast_def
      One_nat_def o0 o1 o2 ends by (simp only: antisym_conv eq_iff [of y] conj_commute) blast
  have mc: "224 \<le> x \<and> x \<le> 239 \<longleftrightarrow> 3758096384 \<le> unat a \<and> unat a \<le> 4026531839"
    unfolding n using b by linarith
  have rs: "x = 10 \<longleftrightarrow> 0x0A000000 \<le> unat a \<and> unat a \<le> 0x0AFFFFFF" "x = 127 \<longleftrightarrow> 0x7F000000 \<le> unat a \<and> unat a \<le> 0x7FFFFFFF"
      "x = 100 \<and> 64 \<le> y \<and> y \<le> 127 \<longleftrightarrow> 0x64400000 \<le> unat a \<and> unat a \<le> 0x647FFFFF"
      "x = 169 \<and> 254 \<le> y \<and> y \<le> 254 \<longleftrightarrow> 0xA9FE0000 \<le> unat a \<and> unat a \<le> 0xA9FEFFFF"
      "x = 172 \<and> 16 \<le> y \<and> y \<le> 31 \<longleftrightarrow> 0xAC100000 \<le> unat a \<and> unat a \<le> 0xAC1FFFFF"
      "x = 192 \<and> 168 \<le> y \<and> y \<le> 168 \<longleftrightarrow> 0xC0A80000 \<le> unat a \<and> unat a \<le> 0xC0A8FFFF"
    unfolding n using r1 [of 10] r1 [of 127] r2 [of 127 100 64] r2 [of 254 169 254] r2 [of 31 172 16] r2 [of 168 192 168]
    by simp_all
  have "unat a = 0 \<longleftrightarrow> 0 \<le> unat a \<and> unat a \<le> 0" "unat a = 4294967295 \<longleftrightarrow> 4294967295 \<le> unat a \<and> unat a \<le> 4294967295"
    by auto
  then show ?thesis
    unfolding defs rs mc forbidden_v4_def in_ranges_simps fst_conv snd_conv by blast
qed

lemma segment_masks:
  "v6_segment0 a AND 0xfe00 = 0xfc00 \<longleftrightarrow> 0xfc00 * 2 ^ 112 \<le> unat a \<and> unat a \<le> 0xfe00 * 2 ^ 112 - 1"
  "v6_segment0 a AND 0xffc0 = 0xfe80 \<longleftrightarrow> 0xfe80 * 2 ^ 112 \<le> unat a \<and> unat a \<le> 0xfec0 * 2 ^ 112 - 1"
  "v6_segment0 a AND 0xff00 = 0xff00 \<longleftrightarrow> 0xff00 * 2 ^ 112 \<le> unat a \<and> unat a \<le> 2 ^ 128 - 1"
proof -
  have hi: "unat a div 2 ^ 112 < 2 ^ 16"
    using unat_bound [of a] by simp
  define x where "x = unat a div 2 ^ 112"
  have x: "x * 2 ^ 112 \<le> unat a" "unat a < x * 2 ^ 112 + 2 ^ 112" "x < 65536"
    using hi mod_less_divisor [of "2 ^ 112" "unat a"] div_mult_mod_eq [of "unat a" "2 ^ 112"]
    by (simp_all add: x_def)
  have r: "v6_segment0 a AND 0xfe00 = 0xfc00 \<longleftrightarrow> x div 512 = 126" "v6_segment0 a AND 0xffc0 = 0xfe80 \<longleftrightarrow> x div 64 = 1018"
      "v6_segment0 a AND 0xff00 = 0xff00 \<longleftrightarrow> x div 256 = 255"
    by (simp_all only: high_masks(2-4) and_high_eq unat_segment x_def [symmetric])
      (simp_all add: high_masks(2-4) [symmetric])
  show "v6_segment0 a AND 0xfe00 = 0xfc00 \<longleftrightarrow> 0xfc00 * 2 ^ 112 \<le> unat a \<and> unat a \<le> 0xfe00 * 2 ^ 112 - 1"
    unfolding r using x by (simp add: div_eq_range) linarith
  show "v6_segment0 a AND 0xffc0 = 0xfe80 \<longleftrightarrow> 0xfe80 * 2 ^ 112 \<le> unat a \<and> unat a \<le> 0xfec0 * 2 ^ 112 - 1"
    unfolding r using x by (simp add: div_eq_range) linarith
  show "v6_segment0 a AND 0xff00 = 0xff00 \<longleftrightarrow> 0xff00 * 2 ^ 112 \<le> unat a \<and> unat a \<le> 2 ^ 128 - 1"
    unfolding r using x by (simp add: div_eq_range) linarith
qed

lemma mapped_Some: "v6_to_ipv4_mapped a = Some b \<longleftrightarrow> unat a = 0xffff * 2 ^ 32 + unat b"
proof -
  have q: "unat a = unat a div 2 ^ 32 * 2 ^ 32 + unat a mod 2 ^ 32" by simp
  have "drop_bit 32 a = 0xffff \<longleftrightarrow> unat a div 2 ^ 32 = 0xffff"
    by (simp add: word_unat_eq_iff drop_bit_eq_div unat_div)
  moreover have "ucast a = b \<longleftrightarrow> unat a mod 2 ^ 32 = unat b"
    by (simp add: word_unat_eq_iff unsigned_ucast_eq take_bit_eq_mod)
  ultimately have m: "v6_to_ipv4_mapped a = Some b \<longleftrightarrow> unat a div 2 ^ 32 = 0xffff \<and> unat a mod 2 ^ 32 = unat b"
    by (auto simp: v6_to_ipv4_mapped_def)
  show ?thesis
  proof
    assume "v6_to_ipv4_mapped a = Some b"
    then have e: "unat a div 2 ^ 32 = 0xffff" "unat a mod 2 ^ 32 = unat b" using m by simp_all
    show "unat a = 0xffff * 2 ^ 32 + unat b" using q unfolding e by simp
  next
    assume e: "unat a = 0xffff * 2 ^ 32 + unat b"
    then have "unat a div 2 ^ 32 = 0xffff"
      using div_eq_range [where d = "2 ^ 32" and n = "unat a" and k = 65535] unat_bound [of b] by simp
    then show "v6_to_ipv4_mapped a = Some b"
      unfolding m using q e by (metis add_left_cancel)
  qed
qed

lemma in_ranges_shift:
  "in_ranges (map (\<lambda>r. (k + fst r, k + snd r)) rs) n \<longleftrightarrow> (\<exists>m. n = k + m \<and> in_ranges rs m)"
proof (induction rs)
  case (Cons r rs)
  have "k + fst r \<le> n \<and> n \<le> k + snd r \<longleftrightarrow> (\<exists>m. n = k + m \<and> fst r \<le> m \<and> m \<le> snd r)"
    by (auto intro!: exI [of _ "n - k"])
  then show ?case using Cons.IH by auto
qed simp

lemma mapped_ranges:
  "(case v6_to_ipv4_mapped a of None \<Rightarrow> False | Some v4 \<Rightarrow> is_private_v4 v4)
     \<longleftrightarrow> in_ranges (map (\<lambda>r. (0xffff * 2 ^ 32 + fst r, 0xffff * 2 ^ 32 + snd r)) forbidden_v4) (unat a)"
proof -
  have "(case v6_to_ipv4_mapped a of None \<Rightarrow> False | Some v4 \<Rightarrow> is_private_v4 v4)
      \<longleftrightarrow> (\<exists>b. v6_to_ipv4_mapped a = Some b \<and> is_private_v4 b)"
    by (auto split: option.splits)
  also have "\<dots> \<longleftrightarrow> (\<exists>b :: 32 word. unat a = 0xffff * 2 ^ 32 + unat b \<and> in_ranges forbidden_v4 (unat b))"
    by (simp only: mapped_Some private_v4_ranges)
  also have "\<dots> \<longleftrightarrow> (\<exists>m. unat a = 0xffff * 2 ^ 32 + m \<and> in_ranges forbidden_v4 m)"
  proof -
    have "unat (of_nat m :: 32 word) = m" if "in_ranges forbidden_v4 m" for m
      using that by (auto simp: unat_of_nat forbidden_v4_def)
    then show ?thesis by metis
  qed
  finally show ?thesis by (simp only: in_ranges_shift)
qed

text \<open>C18. An address is refused exactly when it lies in one of the forbidden ranges: the
  unspecified, private, shared, loopback, link-local, multicast and broadcast ranges of IPv4, the
  same of IPv6, and the IPv4 ranges as IPv4-mapped IPv6 addresses.\<close>

theorem private_ip_ranges: "is_private_ip ip \<longleftrightarrow> forbidden ip"
proof (cases ip)
  case (V4 a)
  then show ?thesis by (simp add: private_v4_ranges)
next
  case (V6 a)
  have "a = 1 \<or> a = 0 \<longleftrightarrow> 0 \<le> unat a \<and> unat a \<le> 1"
    by (auto simp: word_unat_eq_iff)
  then show ?thesis
    unfolding V6 is_private_ip.simps forbidden.simps forbidden_v6_def v6_is_multicast_def segment_masks mapped_ranges
      in_ranges_simps fst_conv snd_conv by blast
qed

section \<open>Requests go to validated addresses\<close>

lemma check_strict: "check_address_against_policy h ip Strict = Inr u \<Longrightarrow> \<not> is_private_ip ip"
  by (simp add: check_address_against_policy_def split: if_splits)

lemma validate_strict:
  assumes "validate_webhook_url_resolved W url Strict w = (Inr v, w')"
  shows "\<not> is_private_ip (vu_resolved_ip v) \<and> (\<exists>pu. we_parse W url = Inr pu \<and> pu_scheme pu = ''https'')"
  using assms by (auto simp: validate_webhook_url_resolved_def andthen_eq_Inr Let_def
      split: sum.splits if_splits option.splits prod.splits dest!: check_strict)

text \<open>What the model needs of the outside: a log of the requests that were sent, which only a send
  extends.\<close>

locale webhook_net =
  fixes W :: "'w webhook_env" and posts :: "'w \<Rightarrow> http_post list"
  assumes post_log: "posts (snd (we_post W t p w)) = posts w @ [p]"
    and resolve_log: "posts (snd (we_resolve W d port w)) = posts w"
begin

lemma resolve_domain_log: "resolve_domain W policy h d port w = (r, w') \<Longrightarrow> posts w' = posts w"
  using resolve_log [of d port w] resolve_log [of d port "snd (we_resolve W d port w)"]
  by (auto simp: resolve_domain_def split: prod.splits sum.splits list.splits)

lemma validate_log: "validate_webhook_url_resolved W url policy w = (r, w') \<Longrightarrow> posts w' = posts w"
  by (auto simp: validate_webhook_url_resolved_def Let_def split: sum.splits if_splits option.splits prod.splits url_host.splits
      dest!: resolve_domain_log)

lemma postD: "we_post W t p w = (r, w') \<Longrightarrow> posts w' = posts w @ [p]"
  using post_log [of t p w] by simp

lemma deliver_log:
  assumes "webhook_deliver W Strict cfg event subj config (cs, w) = (r, cs', w')"
  shows "posts w' = posts w \<or> (\<exists>p. posts w' = posts w @ [p] \<and> \<not> is_private_ip (hp_addr p)
    \<and> (\<exists>pu. we_parse W (hp_url p) = Inr pu \<and> pu_scheme pu = ''https'') \<and> config = Webhook (hp_url p) (hp_headers p))"
proof (cases config)
  case (Webhook url headers)
  obtain r1 w1 where v: "validate_webhook_url_resolved W url Strict w = (r1, w1)" by (rule prod.exhaust)
  show ?thesis
  proof (cases r1)
    case (Inl e)
    with assms Webhook v validate_log [OF v] show ?thesis
      by (auto simp: webhook_deliver_def extract_config_def Let_def split: prod.splits sum.splits option.splits)
  next
    case (Inr vu)
    with assms Webhook v validate_log [OF v] validate_strict [of W url w vu w1] show ?thesis
      by (auto simp: webhook_deliver_def extract_config_def Let_def split: prod.splits sum.splits option.splits if_splits
          dest!: postD)
  qed
qed (use assms in \<open>auto simp: webhook_deliver_def extract_config_def\<close>)

lemma intercept_log:
  assumes "webhook_intercept W wi subj q at payload w = (r, w')" and "wi_policy wi = Strict"
  shows "posts w' = posts w \<or> (\<exists>p. posts w' = posts w @ [p] \<and> \<not> is_private_ip (hp_addr p)
    \<and> (\<exists>pu. we_parse W (hp_url p) = Inr pu \<and> pu_scheme pu = ''https'') \<and> hp_url p = wi_url wi)"
proof -
  obtain r1 w1 where v: "validate_webhook_url_resolved W (wi_url wi) Strict w = (r1, w1)" by (rule prod.exhaust)
  show ?thesis
  proof (cases r1)
    case (Inl e)
    with assms v validate_log [OF v] show ?thesis
      by (auto simp: webhook_intercept_def split: option.splits)
  next
    case (Inr vu)
    with assms v validate_log [OF v] validate_strict [of W "wi_url wi" w vu w1] show ?thesis
      by (auto simp: webhook_intercept_def split: prod.splits sum.splits option.splits if_splits
          webhook_intercept_result.splits dest!: postD)
  qed
qed

end

section \<open>The circuit of one URL\<close>

definition circuit_wf :: "circuit_breaker_config \<Rightarrow> circuit_state \<Rightarrow> bool" where
  "circuit_wf cfg st \<longleftrightarrow>
     (case cs_mode st of
        CircuitClosed \<Rightarrow> cs_consecutive_failures st < cb_failure_threshold cfg \<and> cs_cooldown st = cb_initial_cooldown cfg
      | _ \<Rightarrow> cs_opened_until st \<noteq> None \<and> cs_cooldown st \<le> cb_max_cooldown cfg)"

definition circuits_wf :: "circuit_breaker_config \<Rightarrow> circuits \<Rightarrow> bool" where
  "circuits_wf cfg cs \<longleftrightarrow> (\<forall>url st. cs url = Some st \<longrightarrow> circuit_wf cfg st)"

lemma wf_new: "0 < cb_failure_threshold cfg \<Longrightarrow> circuit_wf cfg (circuit_new cfg)"
  by (simp add: circuit_wf_def circuit_new_def)

lemma wf_entry: "0 < cb_failure_threshold cfg \<Longrightarrow> circuits_wf cfg cs \<Longrightarrow> circuit_wf cfg (circuit_entry cfg url cs)"
  by (auto simp: circuit_entry_def circuits_wf_def wf_new split: option.splits)

lemma wf_upd: "circuits_wf cfg cs \<Longrightarrow> circuit_wf cfg st \<Longrightarrow> circuits_wf cfg (cs(url \<mapsto> st))"
  by (simp add: circuits_wf_def)

lemma wf_ensure:
  assumes "0 < cb_failure_threshold cfg" and "circuits_wf cfg cs"
    and "ensure_circuit_allows_delivery cfg now url cs = (r, cs')"
  shows "circuits_wf cfg cs'"
  using assms wf_upd [OF assms(2) wf_entry [OF assms(1,2), of url], of url] wf_entry [OF assms(1,2), of url]
  by (auto simp: ensure_circuit_allows_delivery_def Let_def circuit_wf_def split: circuit_mode.splits if_splits
      intro!: wf_upd)

lemma wf_failure:
  assumes "0 < cb_failure_threshold cfg" and "circuits_wf cfg cs"
  shows "circuits_wf cfg (record_failure cfg now url cs)"
  using wf_entry [OF assms, of url] assms(2)
  by (auto simp: record_failure_def Let_def circuit_wf_def not_le split: circuit_mode.splits intro!: wf_upd)

lemma wf_success:
  "0 < cb_failure_threshold cfg \<Longrightarrow> circuits_wf cfg cs \<Longrightarrow> circuits_wf cfg (record_success cfg url cs)"
  by (simp add: record_success_def wf_upd wf_new)

lemma wf_deliver:
  assumes "0 < cb_failure_threshold cfg" and "circuits_wf cfg cs"
    and "webhook_deliver W policy cfg event subj config (cs, w) = (r, cs', w')"
  shows "circuits_wf cfg cs'"
proof (cases config)
  case (Webhook url headers)
  obtain r1 cs1 where e: "ensure_circuit_allows_delivery cfg (we_clock W w) url cs = (r1, cs1)" by (rule prod.exhaust)
  note wf = wf_ensure [OF assms(1,2) e]
  show ?thesis
    using assms(3) Webhook e wf wf_failure [OF assms(1) wf] wf_success [OF assms(1) wf]
    by (auto simp: webhook_deliver_def extract_config_def Let_def split: prod.splits sum.splits option.splits if_splits)
qed (use assms in \<open>auto simp: webhook_deliver_def extract_config_def\<close>)

fun webhook_run ::
  "'w webhook_env \<Rightarrow> webhook_url_policy \<Rightarrow> circuit_breaker_config \<Rightarrow> (bytes \<times> string \<times> 'j channel_config) list
   \<Rightarrow> circuits \<times> 'w \<Rightarrow> circuits \<times> 'w" where
  "webhook_run W policy cfg [] s = s"
| "webhook_run W policy cfg ((event, subj, config) # calls) s =
     webhook_run W policy cfg calls (snd (webhook_deliver W policy cfg event subj config s))"

lemma wf_run:
  "0 < cb_failure_threshold cfg \<Longrightarrow> circuits_wf cfg (fst s) \<Longrightarrow> circuits_wf cfg (fst (webhook_run W policy cfg calls s))"
proof (induction W policy cfg calls s rule: webhook_run.induct)
  case (2 W policy cfg event subj config calls s)
  obtain cs w where s: "s = (cs, w)" by (rule prod.exhaust)
  obtain r cs' w' where d: "webhook_deliver W policy cfg event subj config (cs, w) = (r, cs', w')"
    by (rule prod_cases3)
  then show ?case
    using "2.IH" "2.prems" wf_deliver [OF "2.prems"(1) _ d] s by simp
qed simp

text \<open>Attempts on one URL that all pass the gate and all fail, at the given times.\<close>

fun failing_attempts :: "circuit_breaker_config \<Rightarrow> string \<Rightarrow> nat list \<Rightarrow> circuits \<Rightarrow> circuits option" where
  "failing_attempts cfg url [] cs = Some cs"
| "failing_attempts cfg url (t # ts) cs =
     (case ensure_circuit_allows_delivery cfg t url cs of
        (Inl _, _) \<Rightarrow> None
      | (Inr _, cs) \<Rightarrow> failing_attempts cfg url ts (record_failure cfg t url cs))"

definition after_failures :: "circuit_breaker_config \<Rightarrow> nat \<Rightarrow> nat \<Rightarrow> circuit_state \<Rightarrow> bool" where
  "after_failures cfg n latest st \<longleftrightarrow>
     unat (cs_consecutive_failures st) = min n (2 ^ 32 - 1)
     \<and> (let k = n - unat (cb_failure_threshold cfg); backoff = (\<lambda>k. min (cb_initial_cooldown cfg * 2 ^ k) (cb_max_cooldown cfg)) in
        if n < unat (cb_failure_threshold cfg) then cs_mode st = CircuitClosed \<and> cs_cooldown st = cb_initial_cooldown cfg
        else cs_mode st = CircuitOpen \<and> cs_opened_until st = Some (latest + backoff k) \<and> cs_cooldown st = backoff (Suc k))"

lemma failing_append:
  "failing_attempts cfg url (ts @ us) cs =
     (case failing_attempts cfg url ts cs of None \<Rightarrow> None | Some cs \<Rightarrow> failing_attempts cfg url us cs)"
  by (induction ts arbitrary: cs) (auto split: prod.splits sum.splits)

lemma unat_saturating_add1: "unat (saturating_add1 n) = min (Suc (unat n)) (2 ^ 32 - 1)"
proof (cases "n = - 1")
  case True
  then show ?thesis by (simp add: saturating_add1_def unsigned_minus_1_eq_mask mask_eq_exp_minus_1)
next
  case False
  then have "1 + n \<noteq> 0" by (metis add_eq_0_iff2 add.commute)
  then have u: "unat (n + 1) = Suc (unat n)" by (metis unatSuc add.commute)
  then have "Suc (unat n) < 2 ^ 32" using unat_bound [of "n + 1"] by simp
  then show ?thesis using False u by (simp add: saturating_add1_def)
qed

lemma circuit_entry_upd [simp]: "circuit_entry cfg url (cs(url \<mapsto> st)) = st"
  by (simp add: circuit_entry_def)

lemma one_more_failure:
  assumes "cb_initial_cooldown cfg \<le> cb_max_cooldown cfg"
    and "after_failures cfg n latest (circuit_entry cfg url cs)"
    and "ensure_circuit_allows_delivery cfg t url cs = (Inr u, cs1)"
  shows "after_failures cfg (Suc n) t (circuit_entry cfg url (record_failure cfg t url cs1))"
proof -
  let ?thr = "unat (cb_failure_threshold cfg)" and ?st = "circuit_entry cfg url cs"
  have sat: "?thr \<le> min (Suc n) (2 ^ 32 - 1) \<longleftrightarrow> ?thr \<le> Suc n"
    using unat_bound [of "cb_failure_threshold cfg"] by auto
  have fl: "unat (saturating_add1 (cs_consecutive_failures ?st)) = min (Suc n) (2 ^ 32 - 1)"
    using assms(2) by (auto simp: unat_saturating_add1 after_failures_def)
  then have reach: "cb_failure_threshold cfg \<le> saturating_add1 (cs_consecutive_failures ?st) \<longleftrightarrow> ?thr \<le> Suc n"
    using sat by (simp add: word_le_nat_alt)
  have dbl: "min (min a (m :: nat) * 2) m = min (2 * a) m" for a m by auto
  show ?thesis
  proof (cases "n < ?thr")
    case True
    then have "circuit_entry cfg url cs1 = ?st" "cs_mode ?st = CircuitClosed" "cs_cooldown ?st = cb_initial_cooldown cfg"
      using assms(2,3) by (auto simp: ensure_circuit_allows_delivery_def after_failures_def Let_def split: circuit_mode.splits)
    then show ?thesis
      using fl reach assms(1) True by (auto simp: record_failure_def Let_def after_failures_def mult.commute)
  next
    case False
    then have o: "cs_mode ?st = CircuitOpen"
        "cs_cooldown ?st = min (cb_initial_cooldown cfg * 2 ^ Suc (n - ?thr)) (cb_max_cooldown cfg)"
      using assms(2) by (auto simp: after_failures_def Let_def)
    then have "circuit_entry cfg url cs1 = ?st\<lparr>cs_mode := CircuitHalfOpen\<rparr>"
      using assms(3) by (auto simp: ensure_circuit_allows_delivery_def Let_def split: if_splits)
    then show ?thesis
      using fl o False by (auto simp: record_failure_def Let_def after_failures_def Suc_diff_le dbl mult.commute)
  qed
qed

lemma failures_state:
  "cb_initial_cooldown cfg \<le> cb_max_cooldown cfg \<Longrightarrow> 0 < cb_failure_threshold cfg \<Longrightarrow>
   failing_attempts cfg url ts Map.empty = Some cs \<Longrightarrow> after_failures cfg (length ts) (last ts) (circuit_entry cfg url cs)"
proof (induction ts arbitrary: cs rule: rev_induct)
  case Nil
  then show ?case
    by (auto simp: after_failures_def circuit_entry_def circuit_new_def Let_def word_less_nat_alt)
next
  case (snoc t ts)
  then obtain cs0 u cs1 where "failing_attempts cfg url ts Map.empty = Some cs0"
      "ensure_circuit_allows_delivery cfg t url cs0 = (Inr u, cs1)" "cs = record_failure cfg t url cs1"
    by (auto simp: failing_append split: option.splits prod.splits sum.splits)
  with snoc.IH snoc.prems one_more_failure [of cfg "length ts" "last ts" url cs0 t u cs1] show ?case by simp
qed

section \<open>Properties of delivery\<close>

text \<open>C17. Under the strict policy no event is posted to a forbidden address: a delivery sends at
  most one request, to the configured URL, whose scheme is \<open>https\<close>, at an address outside the
  forbidden ranges that was resolved and checked in the same call, whatever the resolver answers
  from one lookup to the next; the same holds for a webhook interceptor.\<close>

theorem webhook_ssrf_safe:
  assumes "webhook_net W posts"
  shows "(webhook_deliver W Strict cfg event subj config (cs, w) = (r, cs', w') \<longrightarrow>
      posts w' = posts w \<or> (\<exists>p. posts w' = posts w @ [p] \<and> \<not> forbidden (hp_addr p)
        \<and> (\<exists>pu. we_parse W (hp_url p) = Inr pu \<and> pu_scheme pu = ''https'') \<and> config = Webhook (hp_url p) (hp_headers p)))
    \<and> (webhook_intercept W wi subj q at event w = (ri, w') \<and> wi_policy wi = Strict \<longrightarrow>
      posts w' = posts w \<or> (\<exists>p. posts w' = posts w @ [p] \<and> \<not> forbidden (hp_addr p)
        \<and> (\<exists>pu. we_parse W (hp_url p) = Inr pu \<and> pu_scheme pu = ''https'') \<and> hp_url p = wi_url wi))"
  using webhook_net.deliver_log [OF assms, of cfg event subj config cs w r cs' w']
    webhook_net.intercept_log [OF assms, of wi subj q at event w ri w']
  unfolding private_ip_ranges by blast

text \<open>A network for concrete inputs: one public host, which answers \<open>503\<close>; the world is the clock and
  the requests.\<close>

definition demo_web :: "(nat \<times> http_post list) webhook_env" where
  "demo_web =
     \<lparr>we_parse = (\<lambda>url. if starts_with url ''https://'' then
          Inr \<lparr>pu_scheme = ''https'', pu_host = Some (HostDomain ''h''), pu_host_str = Some ''h'', pu_port_or_default = Some 443\<rparr>
        else Inl ''relative URL without a base''),
      we_resolve = (\<lambda>d p w. (Inr [V4 0x5DB8D822], w)),
      we_show_ip = (\<lambda>_. ''ip''), we_join_error = (\<lambda>_. None), we_build_error = (\<lambda>_. None),
      we_post = (\<lambda>t p w. (Inr \<lparr>hr_status = 503, hr_reason = Some ''Service Unavailable'', hr_body = []\<rparr>,
                            (fst w + 1, snd w @ [p]))),
      we_head = (\<lambda>t u h w. (Inl ''refused'', w)),
      we_encode = (\<lambda>b. []), we_decode = (\<lambda>s. Inr []), we_result_json = (\<lambda>b. Inl ''EOF''), we_clock = fst\<rparr>"

interpretation demo_net: webhook_net demo_web snd
  by unfold_locales (simp_all add: demo_web_def)

abbreviation demo_hook :: "string channel_config" where
  "demo_hook \<equiv> Webhook ''https://h/x'' Map.empty"

lemmas demo_web_eval = webhook_deliver_def extract_config_def ensure_circuit_allows_delivery_def circuit_entry_def
  circuit_new_def default_circuit_config_def demo_web_def validate_webhook_url_resolved_def resolve_domain_def
  check_address_against_policy_def is_private_ip.simps private_v4_ranges forbidden_v4_def record_failure_def
  saturating_add1_def status_is_success_def response_error_def status_is_client_error_def from_secs_def Let_def
  word_le_nat_alt word_less_nat_alt

lemma demo_deliver_posts: "snd (snd (snd (webhook_deliver demo_web Strict default_circuit_config [1] ''a'' demo_hook (Map.empty, 0, [])))) \<noteq> []"
  by (simp add: demo_web_eval)

theorem webhook_ssrf_safe_witness:
  "\<exists>p. snd (snd (snd (webhook_deliver demo_web Strict default_circuit_config [1] ''a'' demo_hook (Map.empty, 0, [])))) = [p]
     \<and> \<not> forbidden (hp_addr p)"
  using webhook_ssrf_safe [OF demo_net.webhook_net_axioms, THEN conjunct1, of default_circuit_config "[1]" "''a''" demo_hook Map.empty
      "(0, [])" "fst (webhook_deliver demo_web Strict default_circuit_config [1] ''a'' demo_hook (Map.empty, 0, []))"
      "fst (snd (webhook_deliver demo_web Strict default_circuit_config [1] ''a'' demo_hook (Map.empty, 0, [])))"
      "snd (snd (webhook_deliver demo_web Strict default_circuit_config [1] ''a'' demo_hook (Map.empty, 0, [])))"]
    demo_deliver_posts
  by auto

text \<open>C19. The circuit of a URL is never stuck. After any sequence of deliveries on a new channel, an
  open circuit has an end: until then a delivery is refused without any request and without
  change, and from then on the next one is let through as a probe.\<close>

theorem circuit_never_stuck:
  fixes calls :: "(bytes \<times> string \<times> 'j channel_config) list"
  assumes "0 < cb_failure_threshold cfg" and "webhook_run W policy cfg calls (Map.empty, w0) = (cs, w)"
    and "cs url = Some st" and "cs_mode st = CircuitOpen"
  shows "\<exists>until. cs_opened_until st = Some until
    \<and> (\<forall>w'. we_clock W w' < until \<longrightarrow> webhook_deliver W policy cfg event subj
           (Webhook url headers :: 'j channel_config) (cs, w')
         = (Inl (DeliveryFailed ''webhook circuit open; delivery skipped until cooldown expires''), cs, w'))
    \<and> (\<forall>now \<ge> until. ensure_circuit_allows_delivery cfg now url cs
         = (Inr (), cs(url \<mapsto> st\<lparr>cs_mode := CircuitHalfOpen\<rparr>)))"
proof -
  have "circuits_wf cfg cs"
    using wf_run [OF assms(1), of "(Map.empty, w0)" W policy calls] assms(2) by (simp add: circuits_wf_def)
  then obtain until where u: "cs_opened_until st = Some until"
    using assms(3,4) by (auto simp: circuits_wf_def circuit_wf_def split: circuit_mode.splits)
  have e: "circuit_entry cfg url cs = st" "cs(url \<mapsto> st) = cs"
    using assms(3) by (auto simp: circuit_entry_def)
  show ?thesis
    using u assms(4) e
    by (auto simp: webhook_deliver_def extract_config_def ensure_circuit_allows_delivery_def Let_def)
qed

definition demo_tripped :: "circuits \<times> nat \<times> http_post list" where
  "demo_tripped = webhook_run demo_web Strict default_circuit_config
     [([1], ''a'', demo_hook), ([2], ''a'', demo_hook), ([3], ''a'', demo_hook)] (Map.empty, 0, [])"

lemma demo_tripped_open:
  "\<exists>st. fst demo_tripped ''https://h/x'' = Some st \<and> cs_mode st = CircuitOpen \<and> cs_opened_until st = Some 30000000003"
  by (simp add: demo_tripped_def demo_web_eval)

theorem circuit_never_stuck_witness:
  "webhook_deliver demo_web Strict default_circuit_config [4] ''a'' demo_hook (fst demo_tripped, 7, [])
     = (Inl (DeliveryFailed ''webhook circuit open; delivery skipped until cooldown expires''), fst demo_tripped, 7, [])"
proof -
  obtain st where st: "fst demo_tripped ''https://h/x'' = Some st" "cs_mode st = CircuitOpen" "cs_opened_until st = Some 30000000003"
    using demo_tripped_open by blast
  have run: "webhook_run demo_web Strict default_circuit_config
     [([1], ''a'', demo_hook), ([2], ''a'', demo_hook), ([3], ''a'', demo_hook)] (Map.empty, 0, []) = (fst demo_tripped, snd demo_tripped)"
    by (simp add: demo_tripped_def)
  have pos: "0 < cb_failure_threshold default_circuit_config" and clock: "we_clock demo_web = fst"
    by (simp_all add: default_circuit_config_def demo_web_def)
  show ?thesis
    using circuit_never_stuck [OF pos run st(1,2), of "[4]" "''a''" Map.empty] st(3) clock
    by auto
qed

text \<open>The backoff of the circuit breaker: after consecutive failed attempts on a URL, fewer than
  the threshold leave the circuit closed; the attempt that reaches it opens the circuit for the
  initial cooldown, and every failed probe after it opens it again for twice the time, up to the
  maximum.\<close>

theorem circuit_backoff:
  assumes "0 < cb_failure_threshold cfg" and "cb_initial_cooldown cfg \<le> cb_max_cooldown cfg"
    and "failing_attempts cfg url ts Map.empty = Some cs"
    and "k = length ts - unat (cb_failure_threshold cfg)"
  shows "if length ts < unat (cb_failure_threshold cfg) then cs_mode (circuit_entry cfg url cs) = CircuitClosed
    else cs_mode (circuit_entry cfg url cs) = CircuitOpen
      \<and> cs_opened_until (circuit_entry cfg url cs)
          = Some (last ts + min (cb_initial_cooldown cfg * 2 ^ k) (cb_max_cooldown cfg))"
  using failures_state [OF assms(2,1,3)] assms(4) by (simp add: after_failures_def Let_def split: if_splits)

theorem circuit_backoff_witness:
  "\<exists>cs. failing_attempts default_circuit_config ''u'' [0, 1, 2] Map.empty = Some cs
     \<and> cs_opened_until (circuit_entry default_circuit_config ''u'' cs) = Some 30000000002"
proof -
  obtain cs where cs: "failing_attempts default_circuit_config ''u'' [0, 1, 2] Map.empty = Some cs"
    by (simp add: demo_web_eval)
  then show ?thesis
    using circuit_backoff [OF _ _ cs refl] by (simp add: default_circuit_config_def from_secs_def)
qed

end
