(* ===== verification/Http_Transport.thy ===== *)
theory Http_Transport
  imports Remote_Transport Webhook
begin

text \<open>
  The HTTP transport (\<open>transport/http.rs\<close>): the handlers behind the routes, the state they share
  and the recreation of persisted registrations at start. A handler is a function from the decoded
  request and the state to a response or an error and the new state; the routing, decoding and
  serving of requests belong to \<open>axum\<close> and \<open>serde\<close>. The store of the server is the store of the
  engine, as the builder wires it. The delivery tasks that a subscription spawns are listed in the
  state; that one of them ends is an operation of its own.
\<close>

section \<open>Data\<close>

record http_error =
  er_status :: nat
  er_error :: string
  er_code :: "string option"

definition http_error :: "nat \<Rightarrow> string \<Rightarrow> http_error" where
  "http_error status message = \<lparr>er_status = status, er_error = message, er_code = None\<rparr>"

definition http_error_with_code :: "nat \<Rightarrow> string \<Rightarrow> string \<Rightarrow> http_error" where
  "http_error_with_code status message code = \<lparr>er_status = status, er_error = message, er_code = Some code\<rparr>"

record ('s, 'j, 'tx, 'i, 'w) app_state =
  ap_bus :: "('s, 'j, 'tx, 'i, 'w) engine"
  ap_subscription_count :: u64
  ap_bus_to_persisted :: "string \<rightharpoonup> string"
  ap_interceptor_count :: u64
  ap_interceptor_ids :: "string set"
  ap_subscription_ids :: "string set"
  ap_registration_rate :: "u64 \<times> u64"
  ap_tasks :: "(string \<times> 'tx \<times> 'j channel_config) list"

record ('s, 'j, 'tx, 'i, 'w) http_env =
  he_bus :: "('s, 'j, 'tx, 'i, 'w) engine_env"
  he_web :: "'w webhook_env"
  he_auth_open :: bool
  he_dev_mode :: bool
  he_has_store :: bool
  he_webhook_url_policy :: webhook_url_policy
  he_interceptor :: "webhook_interceptor \<Rightarrow> 'i"

record publish_request =
  pr_subject :: string
  pr_payload :: string

record request_request =
  rr_subject :: string
  rr_payload :: string
  rr_timeout_ms :: u64

record subscribe_request =
  sr_pattern :: string
  sr_url :: string
  sr_headers :: "(string \<times> string) list"
  sr_priority :: u32

record register_interceptor_request =
  ri_pattern :: string
  ri_url :: string
  ri_headers :: "(string \<times> string) list"
  ri_priority :: u32
  ri_timeout_ms :: "u64 option"

record dead_letter_query =
  dq_subject :: "string option"
  dq_limit :: nat

text \<open>The JSON document of a stored event.\<close>

record event_json =
  ej_seq :: u64
  ej_subject :: string
  ej_payload :: string
  ej_stored_at :: u64
  ej_status :: event_status
  ej_deliveries :: "delivery_record list"
  ej_reply_subject :: "string option"

definition MAX_HTTP_SUBSCRIPTIONS :: u64 where "MAX_HTTP_SUBSCRIPTIONS = 1024"
definition MAX_HTTP_INTERCEPTORS :: u64 where "MAX_HTTP_INTERCEPTORS = 64"
definition WEBHOOK_REGISTRATION_RATE_LIMIT :: u64 where "WEBHOOK_REGISTRATION_RATE_LIMIT = 100"
definition WEBHOOK_REGISTRATION_RATE_WINDOW_SECS :: u64 where "WEBHOOK_REGISTRATION_RATE_WINDOW_SECS = 60"

definition default_interceptor_priority :: u32 where "default_interceptor_priority = 100"
definition default_dead_letter_limit :: nat where "default_dead_letter_limit = 100"

definition now_secs :: "('s, 'j, 'tx, 'i, 'w) http_env \<Rightarrow> 'w \<Rightarrow> u64" where
  "now_secs H w = of_nat (we_clock (he_web H) w div 1000000000)"

definition now_ms :: "('s, 'j, 'tx, 'i, 'w) http_env \<Rightarrow> 'w \<Rightarrow> u64" where
  "now_ms H w = of_nat (as_millis (we_clock (he_web H) w))"

abbreviation ap_world :: "('s, 'j, 'tx, 'i, 'w) app_state \<Rightarrow> 'w" where
  "ap_world st \<equiv> en_world (ap_bus st)"

definition set_world :: "'w \<Rightarrow> ('s, 'j, 'tx, 'i, 'w) app_state \<Rightarrow> ('s, 'j, 'tx, 'i, 'w) app_state" where
  "set_world w st = st\<lparr>ap_bus := (ap_bus st)\<lparr>en_world := w\<rparr>\<rparr>"

section \<open>Guards\<close>

definition auth_middleware :: "('h \<Rightarrow> string + unit) \<Rightarrow> 'h \<Rightarrow> ('st \<Rightarrow> (http_error + 'r) \<times> 'st) \<Rightarrow> 'st \<Rightarrow> (http_error + 'r) \<times> 'st" where
  "auth_middleware authenticate headers next_handler st =
     (case authenticate headers of
        Inl reason \<Rightarrow> (Inl (http_error_with_code 401 reason ''UNAUTHORIZED''), st)
      | Inr _ \<Rightarrow> next_handler st)"

definition refuse_if_unauth_state_changing :: "('s, 'j, 'tx, 'i, 'w) http_env \<Rightarrow> string \<Rightarrow> http_error + unit" where
  "refuse_if_unauth_state_changing H op_name =
     (if he_auth_open H \<and> \<not> he_dev_mode H then
        Inl (http_error_with_code 401
          (op_name @ '' requires a real authenticator (or HttpServer::unsafe_allow_http_dev_mode() for tests)'')
          ''AUTH_REQUIRED'')
      else Inr ())"

definition http_error_invalid_webhook_url :: http_error where
  "http_error_invalid_webhook_url = http_error_with_code 400 ''invalid webhook URL'' ''INVALID_WEBHOOK_URL''"

definition check_registration_rate_limit ::
  "('s, 'j, 'tx, 'i, 'w) http_env \<Rightarrow> ('s, 'j, 'tx, 'i, 'w) app_state
   \<Rightarrow> (http_error + unit) \<times> ('s, 'j, 'tx, 'i, 'w) app_state" where
  "check_registration_rate_limit H st =
     (let window_idx = now_secs H (ap_world st) div WEBHOOK_REGISTRATION_RATE_WINDOW_SECS;
          (current_window, n) = ap_registration_rate st in
      if current_window \<noteq> window_idx then (Inr (), st\<lparr>ap_registration_rate := (window_idx, 1)\<rparr>)
      else if n \<ge> WEBHOOK_REGISTRATION_RATE_LIMIT then
        (Inl (http_error_with_code 429 ''registration rate limit reached (100 req/60s)'' ''REGISTRATION_RATE_LIMIT''), st)
      else (Inr (), st\<lparr>ap_registration_rate := (window_idx, n + 1)\<rparr>))"

definition http_decode_payload :: "('s, 'j, 'tx, 'i, 'w) http_env \<Rightarrow> string \<Rightarrow> http_error + bytes" where
  "http_decode_payload H payload =
     map_err (\<lambda>msg. if contains_str msg ''exceeds limit'' then http_error_with_code 413 msg ''PAYLOAD_TOO_LARGE''
                    else http_error 400 msg)
       (validate_and_decode_payload (we_decode (he_web H)) payload)"

section \<open>Publishing and requests\<close>

definition http_get_metrics ::
  "('s, 'j, 'tx, 'i, 'w) http_env \<Rightarrow> ('s, 'j, 'tx, 'i, 'w) app_state \<Rightarrow> bus_metrics" where
  "http_get_metrics H st =
     (case bus_metrics_of (he_bus H) (ap_bus st) of
        Inr metrics \<Rightarrow> metrics
      | Inl _ \<Rightarrow> \<lparr>bm_events_published = 0, bm_events_delivered = 0, bm_events_pending_retry = 0,
                  bm_subscription_count = 0\<rparr>)"

definition http_publish_event ::
  "('s, 'j, 'tx, 'i, 'w) http_env \<Rightarrow> publish_request \<Rightarrow> ('s, 'j, 'tx, 'i, 'w) app_state
   \<Rightarrow> (http_error + u64) \<times> ('s, 'j, 'tx, 'i, 'w) app_state" where
  "http_publish_event H req st =
     (case http_decode_payload H (pr_payload req) of
        Inl e \<Rightarrow> (Inl e, st)
      | Inr payload \<Rightarrow>
          (case bus_publish (he_bus H) None (pr_subject req) payload (ap_bus st) of
             (r, en) \<Rightarrow> (map_err (\<lambda>e. http_error 500 (event_bus_error_text e)) r, st\<lparr>ap_bus := en\<rparr>)))"

definition http_make_request ::
  "('s, 'j, 'tx, 'i, 'w) http_env
   \<Rightarrow> ('tx \<Rightarrow> duration \<Rightarrow> ('s, 'j, 'tx, 'i, 'w) engine \<Rightarrow> recv_outcome \<times> ('s, 'j, 'tx, 'i, 'w) engine)
   \<Rightarrow> request_request \<Rightarrow> ('s, 'j, 'tx, 'i, 'w) app_state
   \<Rightarrow> (http_error + string) \<times> ('s, 'j, 'tx, 'i, 'w) app_state" where
  "http_make_request H wait req st =
     (case http_decode_payload H (rr_payload req) of
        Inl e \<Rightarrow> (Inl e, st)
      | Inr payload \<Rightarrow>
          (case request (he_bus H) wait None (rr_subject req) payload (from_millis (rr_timeout_ms req)) (ap_bus st) of
             (r, en) \<Rightarrow>
               (andthen
                  (map_err (\<lambda>e. case e of
                      RequestTimeout \<Rightarrow> http_error_with_code 504 ''Request timeout'' ''REQUEST_TIMEOUT''
                    | _ \<Rightarrow> http_error 500 (event_bus_error_text e)) r)
                  (\<lambda>reply. Inr (we_encode (he_web H) reply)), st\<lparr>ap_bus := en\<rparr>)))"

section \<open>Webhook subscriptions\<close>

definition spawn_webhook_delivery_task ::
  "'j channel_config \<Rightarrow> 'tx \<Rightarrow> string \<Rightarrow> ('s, 'j, 'tx, 'i, 'w) app_state \<Rightarrow> ('s, 'j, 'tx, 'i, 'w) app_state" where
  "spawn_webhook_delivery_task config rx i st = st\<lparr>ap_tasks := ap_tasks st @ [(i, rx, config)]\<rparr>"

text \<open>A delivery task whose channel is closed gives its slot back.\<close>

definition delivery_task_ends :: "nat \<Rightarrow> ('s, 'j, 'tx, 'i, 'w) app_state \<Rightarrow> ('s, 'j, 'tx, 'i, 'w) app_state" where
  "delivery_task_ends k st =
     (if k < length (ap_tasks st) then
        st\<lparr>ap_tasks := take k (ap_tasks st) @ drop (Suc k) (ap_tasks st),
           ap_subscription_count := ap_subscription_count st - 1\<rparr>
      else st)"

text \<open>The loop of a delivery task over the events it receives: the error of a delivery is only
  logged.\<close>

definition delivery_task_loop ::
  "('j, 'w) delivery_channel \<Rightarrow> 'j channel_config \<Rightarrow> dispatched_event list \<Rightarrow> 'w \<Rightarrow> 'w" where
  "delivery_task_loop deliver config events w =
     fold (\<lambda>event w. snd (deliver (de_payload event) (de_subject event) config w)) events w"

definition webhook_opts :: "u32 \<Rightarrow> 'j channel_config \<Rightarrow> 'j subscribe_opts" where
  "webhook_opts prio chan =
     \<lparr>so_priority = prio, so_mode = Async, so_channel = chan, so_timeout = from_secs 5, so_filter = None\<rparr>"

text \<open>Persisting a new subscription, with the mapping entered before the save and everything undone
  when the save fails.\<close>

definition persist_new_subscription ::
  "('s, 'j, 'tx, 'i, 'w) http_env \<Rightarrow> subscribe_request \<Rightarrow> string \<Rightarrow> ('s, 'j, 'tx, 'i, 'w) app_state
   \<Rightarrow> (http_error + unit) \<times> ('s, 'j, 'tx, 'i, 'w) app_state" where
  "persist_new_subscription H req i st =
     (if he_has_store H then
        (case ee_ulid (he_bus H) (ap_world st) of (u, w) \<Rightarrow>
           let persisted_id = ''ws-'' @ u;
               st = set_world w st;
               entry = \<lparr>ps_persisted_id = persisted_id, ps_pattern = sr_pattern req, ps_url = sr_url req,
                        ps_headers = sr_headers req, ps_priority = sr_priority req, ps_created_at = now_ms H w,
                        ps_kind = AsyncWebhook, ps_timeout_ms = None\<rparr>;
               st = st\<lparr>ap_bus_to_persisted := (ap_bus_to_persisted st)(i \<mapsto> persisted_id),
                       ap_subscription_ids := insert i (ap_subscription_ids st)\<rparr> in
           case st_save_subscription (ee_store (he_bus H)) (en_store (ap_bus st)) entry of
             (Inr _, s) \<Rightarrow> (Inr (), st\<lparr>ap_bus := (ap_bus st)\<lparr>en_store := s\<rparr>\<rparr>)
           | (Inl e, s) \<Rightarrow>
               (Inl (http_error 500 (''failed to persist subscription: '' @ storage_error_text e)),
                st\<lparr>ap_bus_to_persisted := (ap_bus_to_persisted st)(i := None),
                   ap_subscription_ids := ap_subscription_ids st - {i},
                   ap_bus := snd (bus_unsubscribe i ((ap_bus st)\<lparr>en_store := s\<rparr>)),
                   ap_subscription_count := ap_subscription_count st - 1\<rparr>))
      else (Inr (), st\<lparr>ap_subscription_ids := insert i (ap_subscription_ids st)\<rparr>))"

text \<open>After the checks: a slot is reserved, the bus is asked, and the slot is given back on every
  failure.\<close>

definition register_subscription ::
  "('s, 'j, 'tx, 'i, 'w) http_env \<Rightarrow> subscribe_request \<Rightarrow> ('s, 'j, 'tx, 'i, 'w) app_state
   \<Rightarrow> (http_error + string) \<times> ('s, 'j, 'tx, 'i, 'w) app_state" where
  "register_subscription H req st =
     (let prev = ap_subscription_count st;
          st = st\<lparr>ap_subscription_count := prev + 1\<rparr> in
      if prev \<ge> MAX_HTTP_SUBSCRIPTIONS then
        (Inl (http_error_with_code 429 ''Subscription limit reached (1024 max)'' ''SUBSCRIPTION_LIMIT''),
         st\<lparr>ap_subscription_count := ap_subscription_count st - 1\<rparr>)
      else
        let chan = Webhook (sr_url req) (map_of (sr_headers req)) in
        case bus_subscribe (he_bus H) (sr_pattern req) (webhook_opts (sr_priority req) chan) (ap_bus st) of
          (Inl e, en) \<Rightarrow>
            (Inl (http_error 500 (event_bus_error_text e)),
             st\<lparr>ap_bus := en, ap_subscription_count := ap_subscription_count st - 1\<rparr>)
        | (Inr sub, en) \<Rightarrow>
            (case persist_new_subscription H req (sub_id sub) (st\<lparr>ap_bus := en\<rparr>) of
               (Inl e, st) \<Rightarrow> (Inl e, st)
             | (Inr _, st) \<Rightarrow>
                 (Inr (sub_id sub), spawn_webhook_delivery_task chan (sub_rx sub) (sub_id sub) st)))"

definition create_subscription ::
  "('s, 'j, 'tx, 'i, 'w) http_env \<Rightarrow> subscribe_request \<Rightarrow> ('s, 'j, 'tx, 'i, 'w) app_state
   \<Rightarrow> (http_error + string) \<times> ('s, 'j, 'tx, 'i, 'w) app_state" where
  "create_subscription H req st =
     (case refuse_if_unauth_state_changing H ''POST /subscribe'' of
        Inl e \<Rightarrow> (Inl e, st)
      | Inr _ \<Rightarrow>
     (case check_registration_rate_limit H st of
        (Inl e, st) \<Rightarrow> (Inl e, st)
      | (Inr _, st) \<Rightarrow>
     (case validate_remote_pattern (sr_pattern req) of
        Inl e \<Rightarrow> (Inl (http_error_with_code 400 (remote_pattern_error_text e) ''INVALID_SUBSCRIBE_PATTERN''), st)
      | Inr _ \<Rightarrow>
     (case validate_webhook_url_with_policy (he_web H) (sr_url req) (he_webhook_url_policy H) (ap_world st) of
        (Inl _, w) \<Rightarrow> (Inl http_error_invalid_webhook_url, set_world w st)
      | (Inr _, w) \<Rightarrow> register_subscription H req (set_world w st)))))"

text \<open>Dropping the persisted entry of a removed registration; a failure is only logged.\<close>

definition drop_persisted ::
  "('s, 'j, 'tx, 'i, 'w) http_env \<Rightarrow> string \<Rightarrow> ('s, 'j, 'tx, 'i, 'w) app_state \<Rightarrow> ('s, 'j, 'tx, 'i, 'w) app_state" where
  "drop_persisted H i st =
     (if he_has_store H then
        (let persisted_id = ap_bus_to_persisted st i;
             st = st\<lparr>ap_bus_to_persisted := (ap_bus_to_persisted st)(i := None)\<rparr> in
         case persisted_id of
           None \<Rightarrow> st
         | Some pid \<Rightarrow>
             st\<lparr>ap_bus := (ap_bus st)\<lparr>en_store :=
                  snd (st_delete_subscription (ee_store (he_bus H)) (en_store (ap_bus st)) pid)\<rparr>\<rparr>)
      else st)"

definition remove_subscription ::
  "('s, 'j, 'tx, 'i, 'w) http_env \<Rightarrow> string \<Rightarrow> ('s, 'j, 'tx, 'i, 'w) app_state
   \<Rightarrow> (http_error + nat) \<times> ('s, 'j, 'tx, 'i, 'w) app_state" where
  "remove_subscription H i st =
     (if i \<notin> ap_subscription_ids st then
        (Inl (http_error_with_code 404 (''subscription '' @ i @ '' not found'') ''SUBSCRIPTION_NOT_FOUND''), st)
      else
        let st = st\<lparr>ap_subscription_ids := ap_subscription_ids st - {i}\<rparr> in
        case bus_unsubscribe i (ap_bus st) of
          (Inl e, en) \<Rightarrow> (Inl (http_error 500 (event_bus_error_text e)), st\<lparr>ap_bus := en\<rparr>)
        | (Inr _, en) \<Rightarrow> (Inr 204, drop_persisted H i (st\<lparr>ap_bus := en\<rparr>)))"

section \<open>Webhook interceptors\<close>

definition persist_new_interceptor ::
  "('s, 'j, 'tx, 'i, 'w) http_env \<Rightarrow> register_interceptor_request \<Rightarrow> u32 \<Rightarrow> u64 option \<Rightarrow> string
   \<Rightarrow> ('s, 'j, 'tx, 'i, 'w) app_state \<Rightarrow> (http_error + unit) \<times> ('s, 'j, 'tx, 'i, 'w) app_state" where
  "persist_new_interceptor H req effective_priority clamped_timeout_ms i st =
     (if he_has_store H then
        (case ee_ulid (he_bus H) (ap_world st) of (u, w) \<Rightarrow>
           let persisted_id = ''hi-'' @ u;
               st = set_world w st;
               entry = \<lparr>ps_persisted_id = persisted_id, ps_pattern = ri_pattern req, ps_url = ri_url req,
                        ps_headers = ri_headers req, ps_priority = effective_priority, ps_created_at = now_ms H w,
                        ps_kind = SyncInterceptor, ps_timeout_ms = clamped_timeout_ms\<rparr>;
               st = st\<lparr>ap_bus_to_persisted := (ap_bus_to_persisted st)(i \<mapsto> persisted_id),
                       ap_interceptor_ids := insert i (ap_interceptor_ids st)\<rparr> in
           case st_save_subscription (ee_store (he_bus H)) (en_store (ap_bus st)) entry of
             (Inr _, s) \<Rightarrow> (Inr (), st\<lparr>ap_bus := (ap_bus st)\<lparr>en_store := s\<rparr>\<rparr>)
           | (Inl e, s) \<Rightarrow>
               (Inl (http_error 500 (''failed to persist interceptor: '' @ storage_error_text e)),
                st\<lparr>ap_bus_to_persisted := (ap_bus_to_persisted st)(i := None),
                   ap_interceptor_ids := ap_interceptor_ids st - {i},
                   ap_bus := snd (bus_unsubscribe i ((ap_bus st)\<lparr>en_store := s\<rparr>)),
                   ap_interceptor_count := ap_interceptor_count st - 1\<rparr>))
      else (Inr (), st\<lparr>ap_interceptor_ids := insert i (ap_interceptor_ids st)\<rparr>))"

text \<open>The interceptor object for a URL: the default timeout of the constructor, or the clamped one.\<close>

definition make_webhook_interceptor ::
  "('s, 'j, 'tx, 'i, 'w) http_env \<Rightarrow> string \<Rightarrow> string \<Rightarrow> (string \<times> string) list \<Rightarrow> u64 option \<Rightarrow> 'i" where
  "make_webhook_interceptor H pattern url headers timeout_ms =
     (let interceptor = webhook_interceptor_with_policy pattern url (map_of headers) (he_webhook_url_policy H) in
      he_interceptor H (case timeout_ms of
          None \<Rightarrow> interceptor
        | Some ms \<Rightarrow> webhook_interceptor_with_timeout (from_millis ms) interceptor))"

definition register_interceptor ::
  "('s, 'j, 'tx, 'i, 'w) http_env \<Rightarrow> register_interceptor_request \<Rightarrow> ('s, 'j, 'tx, 'i, 'w) app_state
   \<Rightarrow> (http_error + string) \<times> ('s, 'j, 'tx, 'i, 'w) app_state" where
  "register_interceptor H req st =
     (let effective_priority = clamp_remote_interceptor_priority (ri_priority req);
          clamped_timeout_ms = clamp_remote_interceptor_timeout (ri_timeout_ms req);
          prev = ap_interceptor_count st;
          st = st\<lparr>ap_interceptor_count := prev + 1\<rparr> in
      if prev \<ge> MAX_HTTP_INTERCEPTORS then
        (Inl (http_error_with_code 429 ''Interceptor limit reached (64 max)'' ''INTERCEPTOR_LIMIT''),
         st\<lparr>ap_interceptor_count := ap_interceptor_count st - 1\<rparr>)
      else
        let interceptor = make_webhook_interceptor H (ri_pattern req) (ri_url req) (ri_headers req) clamped_timeout_ms in
        case bus_intercept (he_bus H) (ri_pattern req) effective_priority interceptor
               (map_option from_millis clamped_timeout_ms) (ap_bus st) of
          (Inl e, en) \<Rightarrow>
            (Inl (http_error 500 (event_bus_error_text e)),
             st\<lparr>ap_bus := en, ap_interceptor_count := ap_interceptor_count st - 1\<rparr>)
        | (Inr bus_id, en) \<Rightarrow>
            (case persist_new_interceptor H req effective_priority clamped_timeout_ms bus_id (st\<lparr>ap_bus := en\<rparr>) of
               (Inl e, st) \<Rightarrow> (Inl e, st)
             | (Inr _, st) \<Rightarrow> (Inr bus_id, st)))"

definition create_interceptor ::
  "('s, 'j, 'tx, 'i, 'w) http_env \<Rightarrow> register_interceptor_request \<Rightarrow> ('s, 'j, 'tx, 'i, 'w) app_state
   \<Rightarrow> (http_error + string) \<times> ('s, 'j, 'tx, 'i, 'w) app_state" where
  "create_interceptor H req st =
     (case refuse_if_unauth_state_changing H ''POST /interceptors'' of
        Inl e \<Rightarrow> (Inl e, st)
      | Inr _ \<Rightarrow>
     (case check_registration_rate_limit H st of
        (Inl e, st) \<Rightarrow> (Inl e, st)
      | (Inr _, st) \<Rightarrow>
     (case validate_remote_pattern (ri_pattern req) of
        Inl e \<Rightarrow> (Inl (http_error_with_code 400 (remote_pattern_error_text e) ''INVALID_INTERCEPTOR_PATTERN''), st)
      | Inr _ \<Rightarrow>
     (case validate_webhook_url_with_policy (he_web H) (ri_url req) (he_webhook_url_policy H) (ap_world st) of
        (Inl _, w) \<Rightarrow> (Inl http_error_invalid_webhook_url, set_world w st)
      | (Inr _, w) \<Rightarrow> register_interceptor H req (set_world w st)))))"

definition remove_interceptor ::
  "('s, 'j, 'tx, 'i, 'w) http_env \<Rightarrow> string \<Rightarrow> ('s, 'j, 'tx, 'i, 'w) app_state
   \<Rightarrow> (http_error + nat) \<times> ('s, 'j, 'tx, 'i, 'w) app_state" where
  "remove_interceptor H i st =
     (if i \<notin> ap_interceptor_ids st then
        (Inl (http_error_with_code 404 (''interceptor '' @ i @ '' not found'') ''INTERCEPTOR_NOT_FOUND''), st)
      else
        let st = st\<lparr>ap_interceptor_ids := ap_interceptor_ids st - {i}\<rparr> in
        case bus_unsubscribe i (ap_bus st) of
          (Inl e, en) \<Rightarrow>
            (Inl (http_error 500 (event_bus_error_text e)),
             st\<lparr>ap_bus := en, ap_interceptor_ids := insert i (ap_interceptor_ids st)\<rparr>)
        | (Inr _, en) \<Rightarrow>
            let st = st\<lparr>ap_bus := en\<rparr>;
                prev = ap_interceptor_count st;
                st = (if prev > 0 then st\<lparr>ap_interceptor_count := prev - 1\<rparr> else st) in
            (Inr 204, drop_persisted H i st))"

section \<open>Stored events\<close>

definition stored_event_json :: "('s, 'j, 'tx, 'i, 'w) http_env \<Rightarrow> stored_event \<Rightarrow> event_json" where
  "stored_event_json H event =
     \<lparr>ej_seq = ev_seq event, ej_subject = ev_subject event, ej_payload = we_encode (he_web H) (ev_payload event),
      ej_stored_at = ev_stored_at event, ej_status = ev_status event, ej_deliveries = ev_deliveries event,
      ej_reply_subject = ev_reply_subject event\<rparr>"

definition http_get_event ::
  "('s, 'j, 'tx, 'i, 'w) http_env \<Rightarrow> u64 \<Rightarrow> ('s, 'j, 'tx, 'i, 'w) app_state \<Rightarrow> http_error + event_json" where
  "http_get_event H seq st =
     andthen (refuse_if_unauth_state_changing H ''GET /events/:seq'') (\<lambda>_.
     andthen (map_err (\<lambda>e. http_error 500 (event_bus_error_text e)) (bus_get_event (he_bus H) seq (ap_bus st))) (\<lambda>event.
       case event of
         Some e \<Rightarrow> Inr (stored_event_json H e)
       | None \<Rightarrow> Inl (http_error_with_code 404 (''event '' @ show_word seq @ '' not found'') ''EVENT_NOT_FOUND'')))"

definition http_list_dead_lettered ::
  "('s, 'j, 'tx, 'i, 'w) http_env \<Rightarrow> dead_letter_query \<Rightarrow> ('s, 'j, 'tx, 'i, 'w) app_state
   \<Rightarrow> http_error + event_json list" where
  "http_list_dead_lettered H query st =
     andthen (refuse_if_unauth_state_changing H ''GET /dead-letter'') (\<lambda>_.
     andthen (map_err (\<lambda>e. http_error 500 (event_bus_error_text e))
                (bus_query_dead_lettered (he_bus H) (dq_subject query) (min (dq_limit query) 1000) (ap_bus st))) (\<lambda>events.
       Inr (map (stored_event_json H) events)))"

definition http_replay_dead_lettered ::
  "('s, 'j, 'tx, 'i, 'w) http_env \<Rightarrow> u64 \<Rightarrow> ('s, 'j, 'tx, 'i, 'w) app_state
   \<Rightarrow> (http_error + u64) \<times> ('s, 'j, 'tx, 'i, 'w) app_state" where
  "http_replay_dead_lettered H seq st =
     (case refuse_if_unauth_state_changing H ''POST /dead-letter/:seq/replay'' of
        Inl e \<Rightarrow> (Inl e, st)
      | Inr _ \<Rightarrow>
          (case bus_replay_dead_lettered (he_bus H) seq (ap_bus st) of
             (r, en) \<Rightarrow>
               (map_err (\<lambda>e. let msg = event_bus_error_text e in
                   if contains_str msg ''not found'' then http_error_with_code 404 msg ''EVENT_NOT_FOUND''
                   else if contains_str msg ''not dead-lettered'' then
                     http_error_with_code 409 msg ''EVENT_NOT_DEAD_LETTERED''
                   else http_error 500 msg) r,
                st\<lparr>ap_bus := en\<rparr>)))"

definition http_purge_dead_lettered ::
  "('s, 'j, 'tx, 'i, 'w) http_env \<Rightarrow> u64 \<Rightarrow> ('s, 'j, 'tx, 'i, 'w) app_state
   \<Rightarrow> (http_error + nat) \<times> ('s, 'j, 'tx, 'i, 'w) app_state" where
  "http_purge_dead_lettered H seq st =
     (case refuse_if_unauth_state_changing H ''DELETE /dead-letter/:seq'' of
        Inl e \<Rightarrow> (Inl e, st)
      | Inr _ \<Rightarrow>
          (case bus_purge_dead_lettered (he_bus H) seq (ap_bus st) of
             (r, en) \<Rightarrow>
               (andthen (map_err (\<lambda>e. let msg = event_bus_error_text e in
                   if contains_str msg ''event not found'' then http_error_with_code 404 msg ''EVENT_NOT_FOUND''
                   else if contains_str msg ''not dead-lettered'' then
                     http_error_with_code 409 msg ''EVENT_NOT_DEAD_LETTERED''
                   else http_error 500 msg) r) (\<lambda>_. Inr 204),
                st\<lparr>ap_bus := en\<rparr>)))"

section \<open>Recreation at start\<close>

datatype recreate_outcome = Recreated | PermanentFailure string | TransientFailure string

definition recreate_persisted_async_webhook ::
  "('s, 'j, 'tx, 'i, 'w) http_env \<Rightarrow> persisted_subscription \<Rightarrow> ('s, 'j, 'tx, 'i, 'w) app_state
   \<Rightarrow> recreate_outcome \<times> ('s, 'j, 'tx, 'i, 'w) app_state" where
  "recreate_persisted_async_webhook H entry st =
     (let prev = ap_subscription_count st;
          st = st\<lparr>ap_subscription_count := prev + 1\<rparr> in
      if prev \<ge> MAX_HTTP_SUBSCRIPTIONS then
        (TransientFailure ''subscription limit reached (1024 max)'',
         st\<lparr>ap_subscription_count := ap_subscription_count st - 1\<rparr>)
      else
        let chan = Webhook (ps_url entry) (map_of (ps_headers entry)) in
        case bus_subscribe (he_bus H) (ps_pattern entry) (webhook_opts (ps_priority entry) chan) (ap_bus st) of
          (Inl (InvalidSubject msg), en) \<Rightarrow>
            (PermanentFailure (''invalid pattern: '' @ msg),
             st\<lparr>ap_bus := en, ap_subscription_count := ap_subscription_count st - 1\<rparr>)
        | (Inl e, en) \<Rightarrow>
            (TransientFailure (event_bus_error_text e),
             st\<lparr>ap_bus := en, ap_subscription_count := ap_subscription_count st - 1\<rparr>)
        | (Inr sub, en) \<Rightarrow>
            (Recreated, spawn_webhook_delivery_task chan (sub_rx sub) (sub_id sub)
               (st\<lparr>ap_bus := en,
                   ap_bus_to_persisted := (ap_bus_to_persisted st)(sub_id sub \<mapsto> ps_persisted_id entry),
                   ap_subscription_ids := insert (sub_id sub) (ap_subscription_ids st)\<rparr>)))"

definition recreate_persisted_sync_interceptor ::
  "('s, 'j, 'tx, 'i, 'w) http_env \<Rightarrow> persisted_subscription \<Rightarrow> ('s, 'j, 'tx, 'i, 'w) app_state
   \<Rightarrow> recreate_outcome \<times> ('s, 'j, 'tx, 'i, 'w) app_state" where
  "recreate_persisted_sync_interceptor H entry st =
     (case validate_remote_pattern (ps_pattern entry) of
        Inl e \<Rightarrow> (PermanentFailure (''pattern no longer permitted: '' @ remote_pattern_error_text e), st)
      | Inr _ \<Rightarrow>
          (let effective_priority = clamp_remote_interceptor_priority (ps_priority entry);
               clamped_timeout_ms = clamp_remote_interceptor_timeout (ps_timeout_ms entry);
               prev = ap_interceptor_count st;
               st = st\<lparr>ap_interceptor_count := prev + 1\<rparr> in
           if prev \<ge> MAX_HTTP_INTERCEPTORS then
             (TransientFailure ''interceptor cap reached (64 max)'',
              st\<lparr>ap_interceptor_count := ap_interceptor_count st - 1\<rparr>)
           else
             let interceptor = make_webhook_interceptor H (ps_pattern entry) (ps_url entry) (ps_headers entry) clamped_timeout_ms in
             case bus_intercept (he_bus H) (ps_pattern entry) effective_priority interceptor
                    (map_option from_millis clamped_timeout_ms) (ap_bus st) of
               (Inl (InvalidSubject msg), en) \<Rightarrow>
                 (PermanentFailure (''invalid pattern: '' @ msg),
                  st\<lparr>ap_bus := en, ap_interceptor_count := ap_interceptor_count st - 1\<rparr>)
             | (Inl e, en) \<Rightarrow>
                 (TransientFailure (event_bus_error_text e),
                  st\<lparr>ap_bus := en, ap_interceptor_count := ap_interceptor_count st - 1\<rparr>)
             | (Inr bus_id, en) \<Rightarrow>
                 (Recreated,
                  st\<lparr>ap_bus := en,
                     ap_bus_to_persisted := (ap_bus_to_persisted st)(bus_id \<mapsto> ps_persisted_id entry),
                     ap_interceptor_ids := insert bus_id (ap_interceptor_ids st)\<rparr>)))"

definition recreate_persisted_subscription ::
  "('s, 'j, 'tx, 'i, 'w) http_env \<Rightarrow> persisted_subscription \<Rightarrow> ('s, 'j, 'tx, 'i, 'w) app_state
   \<Rightarrow> recreate_outcome \<times> ('s, 'j, 'tx, 'i, 'w) app_state" where
  "recreate_persisted_subscription H entry st =
     (case validate_webhook_url_with_policy (he_web H) (ps_url entry) (he_webhook_url_policy H) (ap_world st) of
        (Inl e, w) \<Rightarrow>
          (PermanentFailure (''URL no longer valid: '' @ webhook_url_error_text (we_show_ip (he_web H)) e), set_world w st)
      | (Inr _, w) \<Rightarrow>
          (case ps_kind entry of
             AsyncWebhook \<Rightarrow> recreate_persisted_async_webhook H entry (set_world w st)
           | SyncInterceptor \<Rightarrow> recreate_persisted_sync_interceptor H entry (set_world w st)))"

text \<open>The part of \<open>start\<close> that runs before requests are served: a new state, and every persisted
  entry recreated, kept for a later start, or deleted from the store.\<close>

definition new_app_state :: "('s, 'j, 'tx, 'i, 'w) engine \<Rightarrow> ('s, 'j, 'tx, 'i, 'w) app_state" where
  "new_app_state en =
     \<lparr>ap_bus = en, ap_subscription_count = 0, ap_bus_to_persisted = Map.empty, ap_interceptor_count = 0,
      ap_interceptor_ids = {}, ap_subscription_ids = {}, ap_registration_rate = (0, 0), ap_tasks = []\<rparr>"

definition recreate_entry ::
  "('s, 'j, 'tx, 'i, 'w) http_env \<Rightarrow> persisted_subscription \<Rightarrow> ('s, 'j, 'tx, 'i, 'w) app_state
   \<Rightarrow> ('s, 'j, 'tx, 'i, 'w) app_state" where
  "recreate_entry H entry st =
     (case recreate_persisted_subscription H entry st of
        (PermanentFailure _, st) \<Rightarrow>
          st\<lparr>ap_bus := (ap_bus st)\<lparr>en_store :=
               snd (st_delete_subscription (ee_store (he_bus H)) (en_store (ap_bus st)) (ps_persisted_id entry))\<rparr>\<rparr>
      | (_, st) \<Rightarrow> st)"

definition http_start ::
  "('s, 'j, 'tx, 'i, 'w) http_env \<Rightarrow> ('s, 'j, 'tx, 'i, 'w) engine \<Rightarrow> ('s, 'j, 'tx, 'i, 'w) app_state" where
  "http_start H en =
     (if he_has_store H then
        fold (recreate_entry H)
          (case st_list_subscriptions (ee_store (he_bus H)) (en_store en) of Inl _ \<Rightarrow> [] | Inr persisted \<Rightarrow> persisted)
          (new_app_state en)
      else new_app_state en)"

end
