(* ===== verification/Http_Registry.thy ===== *)
theory Http_Registry
  imports Http_Transport
begin

text \<open>
  What the HTTP transport keeps true of the registrations it manages: their counters are exact and
  capped, the two kinds do not mix, no registration can match a reply subject, and a failed
  registration leaves no trace. The contract \<open>fresh_ids\<close> says what this rests on: a ULID has not
  been handed out before.
\<close>

section \<open>Fresh identifiers\<close>

locale fresh_ids = fresh_bus "he_bus H" used
  for H :: "('s, 'j, 'tx, 'i, 'w) http_env" and used :: "'w \<Rightarrow> string set" +
  assumes resolve_used: "used (snd (we_resolve (he_web H) d port w)) = used w"
begin

lemma resolve_domain_used: "resolve_domain (he_web H) pol h d port w = (r, w') \<Longrightarrow> used w' = used w"
  using resolve_used [of d port w] resolve_used [of d port "snd (we_resolve (he_web H) d port w)"]
  by (auto simp: resolve_domain_def split: prod.splits sum.splits list.splits)

lemma validate_used: "validate_webhook_url_with_policy (he_web H) url pol w = (r, w') \<Longrightarrow> used w' = used w"
  by (auto simp: validate_webhook_url_with_policy_def validate_webhook_url_resolved_def Let_def
      split: sum.splits if_splits option.splits prod.splits url_host.splits dest!: resolve_domain_used)

end

section \<open>The state of the registrations\<close>

abbreviation ap_index :: "('s, 'j, 'tx, 'i, 'w) app_state \<Rightarrow> 'j subscription_entry trie_node" where
  "ap_index st \<equiv> ds_index (en_state (ap_bus st))"

definition inv_index :: "('w \<Rightarrow> string set) \<Rightarrow> ('s, 'j, 'tx, 'i, 'w) app_state \<Rightarrow> bool" where
  "inv_index used st \<longleftrightarrow> index_wf (ap_index st)
     \<and> entry_id ` set_mset (index_entries (ap_index st)) \<subseteq> used (ap_world st)
     \<and> dom (ds_senders (en_state (ap_bus st))) \<subseteq> used (ap_world st)
     \<and> dom (ds_interceptors (en_state (ap_bus st))) \<subseteq> used (ap_world st)"

definition inv_ids :: "('w \<Rightarrow> string set) \<Rightarrow> ('s, 'j, 'tx, 'i, 'w) app_state \<Rightarrow> bool" where
  "inv_ids used st \<longleftrightarrow> ap_subscription_ids st \<union> ap_interceptor_ids st \<subseteq> used (ap_world st)
     \<and> ap_subscription_ids st \<inter> ap_interceptor_ids st = {}
     \<and> dom (ap_bus_to_persisted st) \<subseteq> used (ap_world st)"

definition inv_counts :: "('s, 'j, 'tx, 'i, 'w) app_state \<Rightarrow> bool" where
  "inv_counts st \<longleftrightarrow> finite (ap_interceptor_ids st) \<and> unat (ap_interceptor_count st) = card (ap_interceptor_ids st)
     \<and> card (ap_interceptor_ids st) \<le> 64
     \<and> unat (ap_subscription_count st) = length (ap_tasks st) \<and> length (ap_tasks st) \<le> 1024"

definition inv_patterns :: "('s, 'j, 'tx, 'i, 'w) app_state \<Rightarrow> bool" where
  "inv_patterns st \<longleftrightarrow> (\<forall>e. e \<in># index_entries (ap_index st) \<longrightarrow>
     (entry_id e \<in> ap_subscription_ids st \<union> ap_interceptor_ids st \<longrightarrow> concrete_first (subject_pattern e))
     \<and> (entry_id e \<in> ap_interceptor_ids st \<longrightarrow> 100 \<le> priority e))"

definition http_inv :: "('w \<Rightarrow> string set) \<Rightarrow> ('s, 'j, 'tx, 'i, 'w) app_state \<Rightarrow> bool" where
  "http_inv used st \<longleftrightarrow> inv_index used st \<and> inv_ids used st \<and> inv_counts st \<and> inv_patterns st"

lemmas http_inv_defs = http_inv_def inv_index_def inv_ids_def inv_counts_def inv_patterns_def

text \<open>Two states with the same registrations.\<close>

definition same_registrations ::
  "('s, 'j, 'tx, 'i, 'w) app_state \<Rightarrow> ('s, 'j, 'tx, 'i, 'w) app_state \<Rightarrow> bool" where
  "same_registrations st st' \<longleftrightarrow>
     index_wf (ap_index st') \<and> index_entries (ap_index st') = index_entries (ap_index st)
     \<and> ds_senders (en_state (ap_bus st')) = ds_senders (en_state (ap_bus st))
     \<and> ds_interceptors (en_state (ap_bus st')) = ds_interceptors (en_state (ap_bus st))
     \<and> ap_subscription_count st' = ap_subscription_count st \<and> ap_interceptor_count st' = ap_interceptor_count st
     \<and> ap_bus_to_persisted st' = ap_bus_to_persisted st \<and> ap_subscription_ids st' = ap_subscription_ids st
     \<and> ap_interceptor_ids st' = ap_interceptor_ids st \<and> ap_tasks st' = ap_tasks st"

lemma same_state:
  "index_wf (ap_index st) \<Longrightarrow> en_state (ap_bus st') = en_state (ap_bus st) \<Longrightarrow>
   ap_subscription_count st' = ap_subscription_count st \<Longrightarrow> ap_interceptor_count st' = ap_interceptor_count st \<Longrightarrow>
   ap_bus_to_persisted st' = ap_bus_to_persisted st \<Longrightarrow> ap_subscription_ids st' = ap_subscription_ids st \<Longrightarrow>
   ap_interceptor_ids st' = ap_interceptor_ids st \<Longrightarrow> ap_tasks st' = ap_tasks st \<Longrightarrow> same_registrations st st'"
  by (simp add: same_registrations_def)

lemma inv_same:
  assumes "http_inv used st" and "same_registrations st st'" and "used (ap_world st) \<subseteq> used (ap_world st')"
  shows "http_inv used st'"
proof -
  have u: "A \<subseteq> used (ap_world st) \<Longrightarrow> A \<subseteq> used (ap_world st')" for A using assms(3) by blast
  show ?thesis
    using assms(1,2) unfolding http_inv_defs same_registrations_def by (elim conjE) (simp add: u)
qed

lemma rate_frame:
  "check_registration_rate_limit H st = (r, st') \<Longrightarrow> \<exists>x. st' = st\<lparr>ap_registration_rate := x\<rparr>"
  by (cases st) (auto simp: check_registration_rate_limit_def Let_def split: if_splits prod.splits)

lemma same_world: "index_wf (ap_index st) \<Longrightarrow> same_registrations st (set_world w (st\<lparr>ap_registration_rate := x\<rparr>))"
  by (simp add: same_registrations_def set_world_def)

section \<open>Registering\<close>

text \<open>The registration of a subscription \<open>i\<close> with a concrete pattern, and of an interceptor.\<close>

definition added_subscription ::
  "('w \<Rightarrow> string set) \<Rightarrow> string \<Rightarrow> ('s, 'j, 'tx, 'i, 'w) app_state \<Rightarrow> ('s, 'j, 'tx, 'i, 'w) app_state \<Rightarrow> bool" where
  "added_subscription used i st st' \<longleftrightarrow>
     i \<notin> used (ap_world st) \<and> insert i (used (ap_world st)) \<subseteq> used (ap_world st')
     \<and> index_wf (ap_index st')
     \<and> (\<exists>e. index_entries (ap_index st') = add_mset e (index_entries (ap_index st)) \<and> entry_id e = i
          \<and> concrete_first (subject_pattern e))
     \<and> (\<exists>tx. ds_senders (en_state (ap_bus st')) = (ds_senders (en_state (ap_bus st)))(i \<mapsto> tx))
     \<and> ds_interceptors (en_state (ap_bus st')) = ds_interceptors (en_state (ap_bus st))
     \<and> ap_subscription_count st < 1024 \<and> ap_subscription_count st' = ap_subscription_count st + 1
     \<and> ap_interceptor_count st' = ap_interceptor_count st
     \<and> (\<forall>k. k \<noteq> i \<longrightarrow> ap_bus_to_persisted st' k = ap_bus_to_persisted st k)
     \<and> ap_subscription_ids st' = insert i (ap_subscription_ids st) \<and> ap_interceptor_ids st' = ap_interceptor_ids st
     \<and> length (ap_tasks st') = Suc (length (ap_tasks st))"

definition added_interceptor ::
  "('w \<Rightarrow> string set) \<Rightarrow> string \<Rightarrow> ('s, 'j, 'tx, 'i, 'w) app_state \<Rightarrow> ('s, 'j, 'tx, 'i, 'w) app_state \<Rightarrow> bool" where
  "added_interceptor used i st st' \<longleftrightarrow>
     i \<notin> used (ap_world st) \<and> insert i (used (ap_world st)) \<subseteq> used (ap_world st')
     \<and> index_wf (ap_index st')
     \<and> (\<exists>e. index_entries (ap_index st') = add_mset e (index_entries (ap_index st)) \<and> entry_id e = i
          \<and> concrete_first (subject_pattern e) \<and> 100 \<le> priority e)
     \<and> (\<exists>ic. ds_interceptors (en_state (ap_bus st')) = (ds_interceptors (en_state (ap_bus st)))(i \<mapsto> ic))
     \<and> ds_senders (en_state (ap_bus st')) = ds_senders (en_state (ap_bus st))
     \<and> ap_interceptor_count st < 64 \<and> ap_interceptor_count st' = ap_interceptor_count st + 1
     \<and> ap_subscription_count st' = ap_subscription_count st
     \<and> (\<forall>k. k \<noteq> i \<longrightarrow> ap_bus_to_persisted st' k = ap_bus_to_persisted st k)
     \<and> ap_interceptor_ids st' = insert i (ap_interceptor_ids st) \<and> ap_subscription_ids st' = ap_subscription_ids st
     \<and> ap_tasks st' = ap_tasks st"

lemma unat_plus1: "x < y \<Longrightarrow> unat (x + 1) = Suc (unat x)" for x y :: "'a::len word"
proof -
  assume "x < y"
  then have "Suc (unat x) < 2 ^ LENGTH('a)"
    using unat_bound [of y] by (meson Suc_leI le_less_trans word_less_nat_alt)
  then show ?thesis by (simp add: unat_word_ariths)
qed

lemma inv_fresh:
  assumes "http_inv used st" and "i \<notin> used (ap_world st)"
  shows "i \<notin> ap_interceptor_ids st" "i \<notin> ap_subscription_ids st" "ap_bus_to_persisted st i = None"
    "ds_senders (en_state (ap_bus st)) i = None" "ds_interceptors (en_state (ap_bus st)) i = None"
    "i \<notin> entry_id ` set_mset (index_entries (ap_index st))"
  using assms by (auto simp: http_inv_defs domIff dest: subsetD)

lemma patterns_added:
  assumes "inv_patterns st" and "index_entries (ap_index st') = add_mset e (index_entries (ap_index st))"
    and "entry_id e \<notin> entry_id ` set_mset (index_entries (ap_index st))" and "concrete_first (subject_pattern e)"
    and "ap_subscription_ids st' \<subseteq> insert (entry_id e) (ap_subscription_ids st)"
    and "ap_interceptor_ids st' \<subseteq> insert (entry_id e) (ap_interceptor_ids st)"
    and "entry_id e \<notin> ap_interceptor_ids st' \<or> 100 \<le> priority e"
  shows "inv_patterns st'"
  unfolding inv_patterns_def
proof (intro allI impI)
  fix x assume "x \<in># index_entries (ap_index st')"
  then consider "x = e" | "x \<in># index_entries (ap_index st)" "entry_id x \<noteq> entry_id e"
    using assms(2,3) by (metis image_eqI insert_iff set_mset_add_mset_insert)
  then show "(entry_id x \<in> ap_subscription_ids st' \<union> ap_interceptor_ids st' \<longrightarrow> concrete_first (subject_pattern x))
     \<and> (entry_id x \<in> ap_interceptor_ids st' \<longrightarrow> 100 \<le> priority x)"
  proof cases
    case 1
    then show ?thesis using assms(4,7) by blast
  next
    case 2
    then show ?thesis using assms(1,5,6) unfolding inv_patterns_def by blast
  qed
qed

lemma inv_added_subscription:
  assumes "http_inv used st" and "added_subscription used i st st'"
  shows "http_inv used st'"
proof -
  note a = assms(2) [unfolded added_subscription_def]
  have i: "i \<notin> used (ap_world st)" using a by blast
  note fr = inv_fresh [OF assms(1) i]
  have "inv_index used st'"
    using assms(1) a by (auto simp: http_inv_def inv_index_def image_subset_iff subset_iff dom_def split: if_splits)
  moreover have "inv_ids used st'"
    using assms(1) a fr by (auto simp: http_inv_def inv_ids_def subset_iff dom_def) metis+
  moreover have "inv_counts st'"
    using assms(1) a unat_plus1 [of "ap_subscription_count st" 1024]
    by (auto simp: http_inv_def inv_counts_def word_less_nat_alt)
  moreover have "inv_patterns st'"
  proof -
    obtain e where "index_entries (ap_index st') = add_mset e (index_entries (ap_index st))" "entry_id e = i"
        "concrete_first (subject_pattern e)"
      using a by blast
    then show ?thesis
      using assms(1) a fr by (intro patterns_added [of st st' e]) (auto simp: http_inv_def)
  qed
  ultimately show ?thesis by (simp add: http_inv_def)
qed

lemma inv_added_interceptor:
  assumes "http_inv used st" and "added_interceptor used i st st'"
  shows "http_inv used st'"
proof -
  note a = assms(2) [unfolded added_interceptor_def]
  have i: "i \<notin> used (ap_world st)" using a by blast
  note fr = inv_fresh [OF assms(1) i]
  have "inv_index used st'"
    using assms(1) a by (auto simp: http_inv_def inv_index_def image_subset_iff subset_iff dom_def split: if_splits)
  moreover have "inv_ids used st'"
    using assms(1) a fr by (auto simp: http_inv_def inv_ids_def subset_iff dom_def) metis+
  moreover have "inv_counts st'"
    using assms(1) a fr unat_plus1 [of "ap_interceptor_count st" 64]
    by (auto simp: http_inv_def inv_counts_def word_less_nat_alt)
  moreover have "inv_patterns st'"
  proof -
    obtain e where "index_entries (ap_index st') = add_mset e (index_entries (ap_index st))" "entry_id e = i"
        "concrete_first (subject_pattern e)" "100 \<le> priority e"
      using a by blast
    then show ?thesis
      using assms(1) a fr by (intro patterns_added [of st st' e]) (auto simp: http_inv_def)
  qed
  ultimately show ?thesis by (simp add: http_inv_def)
qed

text \<open>Undoing a registration whose save failed: the index, the senders and the interceptors are what
  they were.\<close>

lemma undo_registration:
  assumes "http_inv used st" and "i \<notin> used (ap_world st)"
    and "index_wf ix'" and "index_entries ix' = add_mset e (index_entries (ap_index st))" and "entry_id e = i"
  shows "index_wf (index_unsubscribe ix' i)" "index_entries (index_unsubscribe ix' i) = index_entries (ap_index st)"
    "(ds_senders (en_state (ap_bus st)))(i := None) = ds_senders (en_state (ap_bus st))"
    "(ds_interceptors (en_state (ap_bus st)))(i := None) = ds_interceptors (en_state (ap_bus st))"
    "(ap_bus_to_persisted st)(i := None) = ap_bus_to_persisted st"
    "ap_subscription_ids st - {i} = ap_subscription_ids st" "ap_interceptor_ids st - {i} = ap_interceptor_ids st"
  using inv_fresh [OF assms(1,2)] unsub_fresh [OF assms(3,4,5)] by (auto simp: fun_upd_idem)

context fresh_ids
begin

lemma register_subscription_effect:
  assumes iv: "http_inv used st" and cf: "concrete_first (sr_pattern req)"
    and run: "register_subscription H req st = (r, st')"
  shows "(case r of Inl _ \<Rightarrow> same_registrations st st' | Inr i \<Rightarrow> added_subscription used i st st')
    \<and> used (ap_world st) \<subseteq> used (ap_world st')"
proof (cases "MAX_HTTP_SUBSCRIPTIONS \<le> ap_subscription_count st")
  case True
  then show ?thesis
    using run iv by (auto simp: register_subscription_def same_registrations_def http_inv_defs)
next
  case False
  have wf: "index_wf (ap_index st)" using iv by (simp add: http_inv_defs)
  define chan :: "'j channel_config" where "chan = Webhook (sr_url req) (map_of (sr_headers req))"
  obtain br en where b: "bus_subscribe (he_bus H) (sr_pattern req) (webhook_opts (sr_priority req) chan) (ap_bus st) = (br, en)"
    by (rule prod.exhaust)
  note eff = subscribe_effect [OF b wf]
  show ?thesis
  proof (cases br)
    case (Inl e)
    then show ?thesis
      using run eff wf False b
      by (auto simp: register_subscription_def same_registrations_def simp flip: chan_def)
  next
    case (Inr sub)
    then obtain ix' e where o: "sub_id sub \<notin> used (ap_world st)" "used (en_world en) = insert (sub_id sub) (used (ap_world st))"
      "en_state en = (en_state (ap_bus st))\<lparr>ds_index := ix', ds_senders := (ds_senders (en_state (ap_bus st)))(sub_id sub \<mapsto> sub_rx sub)\<rparr>"
      "index_wf ix'" "index_entries ix' = add_mset e (index_entries (ap_index st))" "entry_id e = sub_id sub"
      "subject_pattern e = sr_pattern req"
      using eff by auto
    obtain u w where u: "ee_ulid (he_bus H) (en_world en) = (u, w)" by (rule prod.exhaust)
    note undo = undo_registration [OF iv o(1,4,5,6)]
    note fr = ulid_fresh [OF u] inv_fresh [OF iv o(1)]
    have cnt: "ap_subscription_count st < 1024" using False by (simp add: MAX_HTTP_SUBSCRIPTIONS_def)
    show ?thesis
      using run b Inr False u o undo fr cnt cf
      by (auto simp: register_subscription_def persist_new_subscription_def Let_def set_world_def
          same_registrations_def added_subscription_def spawn_webhook_delivery_task_def
          bus_unsubscribe_def engine_unsubscribe_def simp flip: chan_def
          split: if_splits prod.splits sum.splits)
  qed
qed

end

text \<open>The two outcomes of persisting a new interceptor.\<close>

lemma persist_interceptor_cases:
  assumes "persist_new_interceptor H req pr tm i st = (r, st')"
  obtains (saved) w' s m where "r = Inr ()"
      "st' = st\<lparr>ap_bus := (ap_bus st)\<lparr>en_world := w', en_store := s\<rparr>, ap_bus_to_persisted := m,
                ap_interceptor_ids := insert i (ap_interceptor_ids st)\<rparr>"
      "\<forall>k. k \<noteq> i \<longrightarrow> m k = ap_bus_to_persisted st k"
      "w' = ap_world st \<or> w' = snd (ee_ulid (he_bus H) (ap_world st))"
    | (failed) e s where "r = Inl e"
      "st' = st\<lparr>ap_bus := snd (engine_unsubscribe i ((ap_bus st)\<lparr>en_world := snd (ee_ulid (he_bus H) (ap_world st)), en_store := s\<rparr>)),
                ap_bus_to_persisted := (ap_bus_to_persisted st)(i := None),
                ap_interceptor_ids := ap_interceptor_ids st - {i},
                ap_interceptor_count := ap_interceptor_count st - 1\<rparr>"
proof (cases "he_has_store H")
  case False
  with assms have "r = Inr ()" "st' = st\<lparr>ap_interceptor_ids := insert i (ap_interceptor_ids st)\<rparr>"
    by (simp_all add: persist_new_interceptor_def)
  then show ?thesis by (intro saved [where w' = "ap_world st" and s = "en_store (ap_bus st)" and m = "ap_bus_to_persisted st"]) simp_all
next
  case True
  obtain u w where u: "ee_ulid (he_bus H) (ap_world st) = (u, w)" by (rule prod.exhaust)
  define entry where "entry = \<lparr>ps_persisted_id = ''hi-'' @ u, ps_pattern = ri_pattern req, ps_url = ri_url req,
      ps_headers = ri_headers req, ps_priority = pr, ps_created_at = now_ms H w, ps_kind = SyncInterceptor, ps_timeout_ms = tm\<rparr>"
  obtain sr s where s: "st_save_subscription (ee_store (he_bus H)) (en_store (ap_bus st)) entry = (sr, s)" by (rule prod.exhaust)
  note s' = s [unfolded entry_def]
  note u' = u [THEN arg_cong [of _ _ snd], simplified]
  show ?thesis
  proof (cases sr)
    case (Inl e)
    then have "r = Inl (http_error 500 (''failed to persist interceptor: '' @ storage_error_text e))"
      "st' = st\<lparr>ap_bus := snd (engine_unsubscribe i ((ap_bus st)\<lparr>en_world := w, en_store := s\<rparr>)),
                ap_bus_to_persisted := (ap_bus_to_persisted st)(i := None),
                ap_interceptor_ids := ap_interceptor_ids st - {i}, ap_interceptor_count := ap_interceptor_count st - 1\<rparr>"
      using assms True u s' by (auto simp: persist_new_interceptor_def Let_def set_world_def bus_unsubscribe_def)
    then show ?thesis using u' by (intro failed) simp_all
  next
    case (Inr ok)
    then have "r = Inr ()"
      "st' = st\<lparr>ap_bus := (ap_bus st)\<lparr>en_world := w, en_store := s\<rparr>,
                ap_bus_to_persisted := (ap_bus_to_persisted st)(i \<mapsto> ''hi-'' @ u),
                ap_interceptor_ids := insert i (ap_interceptor_ids st)\<rparr>"
      using assms True u s' by (auto simp: persist_new_interceptor_def Let_def set_world_def)
    then show ?thesis
      using saved [where w' = w and s = s and m = "(ap_bus_to_persisted st)(i \<mapsto> ''hi-'' @ u)"] u' by simp
  qed
qed

context fresh_ids
begin

lemma register_interceptor_effect:
  assumes iv: "http_inv used st" and cf: "concrete_first (ri_pattern req)"
    and run: "register_interceptor H req st = (r, st')"
  shows "(case r of Inl _ \<Rightarrow> same_registrations st st' | Inr i \<Rightarrow> added_interceptor used i st st')
    \<and> used (ap_world st) \<subseteq> used (ap_world st')"
proof (cases "MAX_HTTP_INTERCEPTORS \<le> ap_interceptor_count st")
  case True
  then show ?thesis
    using run iv by (auto simp: register_interceptor_def same_registrations_def http_inv_defs Let_def)
next
  case False
  have wf: "index_wf (ap_index st)" using iv by (simp add: http_inv_defs)
  define pr where "pr = clamp_remote_interceptor_priority (ri_priority req)"
  define tm where "tm = clamp_remote_interceptor_timeout (ri_timeout_ms req)"
  define ic where "ic = make_webhook_interceptor H (ri_pattern req) (ri_url req) (ri_headers req) tm"
  obtain br en where b: "bus_intercept (he_bus H) (ri_pattern req) pr ic (map_option from_millis tm) (ap_bus st) = (br, en)"
    by (rule prod.exhaust)
  have pr: "100 \<le> pr" by (simp add: pr_def clamp_remote_interceptor_priority_def MIN_REMOTE_INTERCEPTOR_PRIORITY_def)
  note eff = intercept_effect [OF b wf]
  show ?thesis
  proof (cases br)
    case (Inl e)
    then show ?thesis
      using run eff wf False b
      by (auto simp: register_interceptor_def same_registrations_def Let_def simp flip: pr_def tm_def ic_def)
  next
    case (Inr i)
    then obtain ix' e where o: "i \<notin> used (ap_world st)" "used (en_world en) = insert i (used (ap_world st))"
      "en_state en = (en_state (ap_bus st))\<lparr>ds_index := ix', ds_interceptors := (ds_interceptors (en_state (ap_bus st)))(i \<mapsto> ic)\<rparr>"
      "index_wf ix'" "index_entries ix' = add_mset e (index_entries (ap_index st))" "entry_id e = i"
      "subject_pattern e = ri_pattern req" "priority e = pr"
      using eff by auto
    obtain u w where u: "ee_ulid (he_bus H) (en_world en) = (u, w)" by (rule prod.exhaust)
    note undo = undo_registration [OF iv o(1,4,5,6)]
    note fr = ulid_fresh [OF u] inv_fresh [OF iv o(1)]
    have cnt: "ap_interceptor_count st < 64" using False by (simp add: MAX_HTTP_INTERCEPTORS_def)
    define s2 where "s2 = st\<lparr>ap_interceptor_count := ap_interceptor_count st + 1, ap_bus := en\<rparr>"
    have "(r, st') = (case persist_new_interceptor H req pr tm i s2 of (Inl e, st) \<Rightarrow> (Inl e, st) | (Inr _, st) \<Rightarrow> (Inr i, st))"
      using run b Inr False
      by (simp add: register_interceptor_def Let_def s2_def flip: pr_def tm_def ic_def)
    moreover obtain pr' st'' where p: "persist_new_interceptor H req pr tm i s2 = (pr', st'')" by (rule prod.exhaust)
    ultimately have st: "r = (case pr' of Inl e \<Rightarrow> Inl e | Inr _ \<Rightarrow> Inr i)" "st' = st''" by (auto split: sum.splits)
    from p show ?thesis
    proof (cases rule: persist_interceptor_cases)
      case (saved w' s m)
      have "insert i (used (ap_world st)) \<subseteq> used w'"
        using saved(4) o(2) fr(1) u by (auto simp: s2_def)
      moreover have "\<exists>e. index_entries ix' = add_mset e (index_entries (ap_index st)) \<and> entry_id e = i
          \<and> concrete_first (subject_pattern e) \<and> 100 \<le> priority e"
        using o(5-8) cf pr by (intro exI [of _ e]) simp
      ultimately show ?thesis
        using st saved(1-3) o(1,3,4) cnt unfolding added_interceptor_def s2_def by simp (rule exI, rule refl)
    next
      case (failed e s)
      then show ?thesis
        using st undo o(2,3) fr(1) u
        unfolding same_registrations_def s2_def engine_unsubscribe_def by auto
    qed
  qed
qed

text \<open>The checks before a registration change nothing but the rate window and the world.\<close>

lemma create_subscription_effect:
  assumes iv: "http_inv used st" and run: "create_subscription H req st = (r, st')"
  shows "(case r of Inl _ \<Rightarrow> same_registrations st st' | Inr i \<Rightarrow> added_subscription used i st st')
    \<and> used (ap_world st) \<subseteq> used (ap_world st')"
proof -
  obtain rl s1 where s1: "check_registration_rate_limit H st = (rl, s1)" by (rule prod.exhaust)
  obtain x where x: "s1 = st\<lparr>ap_registration_rate := x\<rparr>" using rate_frame [OF s1] by blast
  have wf: "index_wf (ap_index st)" using iv by (simp add: http_inv_defs)
  obtain vr w where w: "validate_webhook_url_with_policy (he_web H) (sr_url req) (he_webhook_url_policy H) (ap_world st) = (vr, w)"
    by (rule prod.exhaust)
  define s2 where "s2 = set_world w s1"
  have uw: "used w = used (ap_world st)" using validate_used [OF w] .
  have same: "same_registrations st s2" "used (ap_world s2) = used (ap_world st)"
    using wf uw by (simp_all add: s2_def x same_registrations_def set_world_def)
  consider (no) e where "r = Inl e" "st' \<in> {st, s1, s2}"
    | (go) "concrete_first (sr_pattern req)" "register_subscription H req s2 = (r, st')"
    using run s1 w validate_remote_ok [of "sr_pattern req"] x
    by (auto simp: create_subscription_def s2_def split: sum.splits)
  then show ?thesis
  proof cases
    case no
    then show ?thesis using same wf by (auto simp: x same_registrations_def)
  next
    case go
    have "http_inv used s2" using inv_same [OF iv same(1)] same(2) by simp
    from register_subscription_effect [OF this go] same show ?thesis
      by (auto simp: same_registrations_def added_subscription_def split: sum.splits)
  qed
qed

lemma create_interceptor_effect:
  assumes iv: "http_inv used st" and run: "create_interceptor H req st = (r, st')"
  shows "(case r of Inl _ \<Rightarrow> same_registrations st st' | Inr i \<Rightarrow> added_interceptor used i st st')
    \<and> used (ap_world st) \<subseteq> used (ap_world st')"
proof -
  obtain rl s1 where s1: "check_registration_rate_limit H st = (rl, s1)" by (rule prod.exhaust)
  obtain x where x: "s1 = st\<lparr>ap_registration_rate := x\<rparr>" using rate_frame [OF s1] by blast
  have wf: "index_wf (ap_index st)" using iv by (simp add: http_inv_defs)
  obtain vr w where w: "validate_webhook_url_with_policy (he_web H) (ri_url req) (he_webhook_url_policy H) (ap_world st) = (vr, w)"
    by (rule prod.exhaust)
  define s2 where "s2 = set_world w s1"
  have uw: "used w = used (ap_world st)" using validate_used [OF w] .
  have same: "same_registrations st s2" "used (ap_world s2) = used (ap_world st)"
    using wf uw by (simp_all add: s2_def x same_registrations_def set_world_def)
  consider (no) e where "r = Inl e" "st' \<in> {st, s1, s2}"
    | (go) "concrete_first (ri_pattern req)" "register_interceptor H req s2 = (r, st')"
    using run s1 w validate_remote_ok [of "ri_pattern req"] x
    by (auto simp: create_interceptor_def s2_def split: sum.splits)
  then show ?thesis
  proof cases
    case no
    then show ?thesis using same wf by (auto simp: x same_registrations_def)
  next
    case go
    have "http_inv used s2" using inv_same [OF iv same(1)] same(2) by simp
    from register_interceptor_effect [OF this go] same show ?thesis
      by (auto simp: same_registrations_def added_interceptor_def split: sum.splits)
  qed
qed

end

section \<open>Removing\<close>

lemma drop_persisted_frame:
  "\<exists>m s. drop_persisted H i st = st\<lparr>ap_bus := (ap_bus st)\<lparr>en_store := s\<rparr>, ap_bus_to_persisted := m\<rparr>
     \<and> dom m \<subseteq> dom (ap_bus_to_persisted st)"
proof (cases "he_has_store H")
  case False
  then show ?thesis
    by (intro exI [of _ "ap_bus_to_persisted st"] exI [of _ "en_store (ap_bus st)"]) (simp add: drop_persisted_def)
next
  case True
  let ?s = "case ap_bus_to_persisted st i of None \<Rightarrow> en_store (ap_bus st)
    | Some pid \<Rightarrow> snd (st_delete_subscription (ee_store (he_bus H)) (en_store (ap_bus st)) pid)"
  from True show ?thesis
    by (intro exI [of _ "(ap_bus_to_persisted st)(i := None)"] exI [of _ ?s])
      (auto simp: drop_persisted_def split: option.splits)
qed

text \<open>What a removal of \<open>i\<close> leaves: the index without the entries of \<open>i\<close>, and the given counters
  and sets.\<close>

lemma inv_unsubscribed:
  assumes iv: "http_inv used st" and m: "dom m \<subseteq> dom (ap_bus_to_persisted st)"
    and sub: "A \<subseteq> ap_subscription_ids st" "B \<subseteq> ap_interceptor_ids st"
    and cnt: "unat c = card B"
  shows "http_inv used (st\<lparr>ap_subscription_ids := A, ap_interceptor_ids := B, ap_interceptor_count := c,
     ap_bus := (snd (bus_unsubscribe i (ap_bus st)))\<lparr>en_store := s\<rparr>, ap_bus_to_persisted := m\<rparr>)" (is "http_inv used ?st'")
proof -
  have wf: "index_wf (ap_index st)" using iv by (simp add: http_inv_defs)
  have e: "set_mset (index_entries (index_unsubscribe (ap_index st) i)) \<subseteq> set_mset (index_entries (ap_index st))"
    using ix.unsub_law(2) [OF wf] by auto
  have "inv_index used ?st'"
    using iv e ix.unsub_law(1) [OF wf]
    by (auto simp: http_inv_def inv_index_def bus_unsubscribe_def engine_unsubscribe_def Let_def dom_def subset_iff split: if_splits)
  moreover have "inv_ids used ?st'"
    using iv m sub unfolding http_inv_def inv_ids_def
    by (simp add: bus_unsubscribe_def engine_unsubscribe_def Let_def) blast
  moreover have "inv_counts ?st'"
    using iv cnt sub card_mono [OF _ sub(2)]
    by (auto simp: http_inv_def inv_counts_def bus_unsubscribe_def engine_unsubscribe_def Let_def intro: finite_subset)
  moreover have "inv_patterns ?st'"
    using iv e sub unfolding http_inv_def inv_patterns_def
    by (simp add: bus_unsubscribe_def engine_unsubscribe_def Let_def) blast
  ultimately show ?thesis by (simp add: http_inv_def)
qed

lemma remove_subscription_inv:
  assumes iv: "http_inv used st"
  shows "http_inv used (snd (remove_subscription H i st))"
proof (cases "i \<in> ap_subscription_ids st")
  case True
  let ?st = "st\<lparr>ap_subscription_ids := ap_subscription_ids st - {i}, ap_bus := snd (bus_unsubscribe i (ap_bus st))\<rparr>"
  obtain m s where d: "drop_persisted H i ?st = ?st\<lparr>ap_bus := (ap_bus ?st)\<lparr>en_store := s\<rparr>, ap_bus_to_persisted := m\<rparr>"
    "dom m \<subseteq> dom (ap_bus_to_persisted st)"
    using drop_persisted_frame [of H i ?st] by auto
  have c: "unat (ap_interceptor_count st) = card (ap_interceptor_ids st)" using iv by (simp add: http_inv_defs)
  have "http_inv used (drop_persisted H i ?st)"
    using inv_unsubscribed [OF iv d(2) _ subset_refl c,
      where A = "ap_subscription_ids st - {i}" and i = i and s = s] unfolding d(1) by auto
  then show ?thesis
    using True by (simp add: remove_subscription_def Let_def bus_unsubscribe_def engine_unsubscribe_def)
qed (use iv in \<open>simp add: remove_subscription_def\<close>)

lemma remove_interceptor_inv:
  assumes iv: "http_inv used st"
  shows "http_inv used (snd (remove_interceptor H i st))"
proof (cases "i \<in> ap_interceptor_ids st")
  case True
  have c: "unat (ap_interceptor_count st) = card (ap_interceptor_ids st)" "finite (ap_interceptor_ids st)"
    using iv by (simp_all add: http_inv_defs)
  then have pos: "0 < ap_interceptor_count st" using True by (auto simp: word_less_nat_alt card_gt_0_iff)
  then have c': "unat (ap_interceptor_count st - 1) = card (ap_interceptor_ids st - {i})"
    using c True by (simp add: card_Diff_singleton unat_minus_one word_neq_0_conv)
  let ?st = "st\<lparr>ap_interceptor_ids := ap_interceptor_ids st - {i}, ap_bus := snd (bus_unsubscribe i (ap_bus st)),
    ap_interceptor_count := ap_interceptor_count st - 1\<rparr>"
  obtain m s where d: "drop_persisted H i ?st = ?st\<lparr>ap_bus := (ap_bus ?st)\<lparr>en_store := s\<rparr>, ap_bus_to_persisted := m\<rparr>"
    "dom m \<subseteq> dom (ap_bus_to_persisted st)"
    using drop_persisted_frame [of H i ?st] by auto
  have "http_inv used (drop_persisted H i ?st)"
    using inv_unsubscribed [OF iv d(2) subset_refl _ c', where i = i and s = s] unfolding d(1) by auto
  then show ?thesis
    using True pos by (simp add: remove_interceptor_def Let_def bus_unsubscribe_def engine_unsubscribe_def)
qed (use iv in \<open>simp add: remove_interceptor_def\<close>)

lemma task_ends_inv:
  assumes iv: "http_inv used st"
  shows "http_inv used (delivery_task_ends k st)"
proof (cases "k < length (ap_tasks st)")
  case True
  then have "ap_subscription_count st \<noteq> 0" using iv by (auto simp: http_inv_defs)
  then have "unat (ap_subscription_count st - 1) = length (ap_tasks st) - 1"
    using iv by (simp add: http_inv_defs unat_minus_one)
  then show ?thesis
    using iv True diff_le_self [of "length (ap_tasks st)" 1, THEN le_trans, of 1024]
    unfolding http_inv_defs delivery_task_ends_def by simp
qed (use iv in \<open>simp add: delivery_task_ends_def\<close>)

section \<open>Runs\<close>

datatype http_op =
    PostSubscribe subscribe_request
  | DeleteSubscribe string
  | PostInterceptor register_interceptor_request
  | DeleteInterceptor string
  | TaskEnded nat

fun http_step ::
  "('s, 'j, 'tx, 'i, 'w) http_env \<Rightarrow> http_op \<Rightarrow> ('s, 'j, 'tx, 'i, 'w) app_state \<Rightarrow> ('s, 'j, 'tx, 'i, 'w) app_state" where
  "http_step H (PostSubscribe req) st = snd (create_subscription H req st)"
| "http_step H (DeleteSubscribe i) st = snd (remove_subscription H i st)"
| "http_step H (PostInterceptor req) st = snd (create_interceptor H req st)"
| "http_step H (DeleteInterceptor i) st = snd (remove_interceptor H i st)"
| "http_step H (TaskEnded k) st = delivery_task_ends k st"

context fresh_ids
begin

lemma step_inv:
  assumes iv: "http_inv used st"
  shows "http_inv used (http_step H op st)"
proof (cases op)
  case (PostSubscribe req)
  obtain r st' where r: "create_subscription H req st = (r, st')" by (rule prod.exhaust)
  from create_subscription_effect [OF iv r] show ?thesis
    using inv_same [OF iv] inv_added_subscription [OF iv] PostSubscribe r by (cases r) auto
next
  case (PostInterceptor req)
  obtain r st' where r: "create_interceptor H req st = (r, st')" by (rule prod.exhaust)
  from create_interceptor_effect [OF iv r] show ?thesis
    using inv_same [OF iv] inv_added_interceptor [OF iv] PostInterceptor r by (cases r) auto
qed (use remove_subscription_inv [OF iv] remove_interceptor_inv [OF iv] task_ends_inv [OF iv] in simp_all)

lemma run_inv: "http_inv used st \<Longrightarrow> http_inv used (fold (http_step H) ops st)"
  by (induction ops arbitrary: st) (simp_all add: step_inv)

end

section \<open>Properties of the registrations\<close>

text \<open>An engine handed to the server: a well-formed index, and no id that is still to be drawn.\<close>

lemma ready_inv: "ready_engine used en \<Longrightarrow> http_inv used (new_app_state en)"
  by (simp add: ready_engine_def http_inv_defs new_app_state_def)

definition http_run ::
  "('s, 'j, 'tx, 'i, 'w) http_env \<Rightarrow> http_op list \<Rightarrow> ('s, 'j, 'tx, 'i, 'w) engine \<Rightarrow> ('s, 'j, 'tx, 'i, 'w) app_state" where
  "http_run H ops en = fold (http_step H) ops (new_app_state en)"

lemma http_run_inv: "fresh_ids H used \<Longrightarrow> ready_engine used en \<Longrightarrow> http_inv used (http_run H ops en)"
  by (simp add: http_run_def fresh_ids.run_inv ready_inv)

text \<open>C25. After any sequence of registrations, removals and ended delivery tasks the interceptor
  counter is the number of registered interceptors and at most 64, the subscription counter is the
  number of running delivery tasks and at most 1024, and no id is registered as both kinds.\<close>

theorem http_counters_exact:
  assumes "fresh_ids H used" and "ready_engine used en"
  shows "unat (ap_interceptor_count (http_run H ops en)) = card (ap_interceptor_ids (http_run H ops en))
    \<and> card (ap_interceptor_ids (http_run H ops en)) \<le> 64
    \<and> unat (ap_subscription_count (http_run H ops en)) = length (ap_tasks (http_run H ops en))
    \<and> length (ap_tasks (http_run H ops en)) \<le> 1024
    \<and> ap_subscription_ids (http_run H ops en) \<inter> ap_interceptor_ids (http_run H ops en) = {}"
  using http_run_inv [OF assms] by (simp add: http_inv_defs)

text \<open>C24. No sequence of HTTP requests taps a reply: an entry of the index that matches a subject
  \<open>_reply.\<dots>\<close> was not registered over HTTP, and every HTTP interceptor runs at priority 100 or
  later.\<close>

theorem http_never_taps_replies:
  assumes "fresh_ids H used" and "ready_engine used en"
  shows "(starts_with subj ''_reply.'' \<and> e \<in> set (index_lookup (ap_index (http_run H ops en)) subj) \<longrightarrow>
      entry_id e \<notin> ap_subscription_ids (http_run H ops en) \<union> ap_interceptor_ids (http_run H ops en))
    \<and> (e \<in># index_entries (ap_index (http_run H ops en)) \<and> entry_id e \<in> ap_interceptor_ids (http_run H ops en)
        \<longrightarrow> 100 \<le> priority e)"
proof -
  define st where "st = http_run H ops en"
  have iv: "http_inv used st" using http_run_inv [OF assms] by (simp add: st_def)
  have look: "e \<in># index_entries (ap_index st) \<and> pattern_matches (tokens_of (subject_pattern e)) (tokens_of subj)"
    if "e \<in> set (index_lookup (ap_index st) subj)"
  proof -
    have "e \<in># filter_mset (entry_matches subj) (index_entries (ap_index st))"
      using that iv ix.look_law [of "ap_index st" subj] by (metis http_inv_def inv_index_def set_mset_mset)
    then show ?thesis by (simp add: entry_matches_def)
  qed
  show ?thesis
    unfolding st_def [symmetric]
    using iv look concrete_not_reply [of "subject_pattern e" subj] unfolding http_inv_def inv_patterns_def by blast
qed

text \<open>C26. A registration that fails leaves no trace: whichever check, the bus or the save of the
  persisted entry refuses it, the counters, the id sets, the delivery tasks, the senders and
  interceptors of the bus are as before, and every subject is routed as before.\<close>

theorem failed_registration_rolls_back:
  assumes "fresh_ids H used" and "ready_engine used en"
    and "create_subscription H sreq (http_run H ops en) = (Inl e, st') \<or> create_interceptor H ireq (http_run H ops en) = (Inl e, st')"
  shows "same_registrations (http_run H ops en) st'
    \<and> mset (index_lookup (ap_index st') subj) = mset (index_lookup (ap_index (http_run H ops en)) subj)"
proof -
  define st where "st = http_run H ops en"
  have iv: "http_inv used st" using http_run_inv [OF assms(1,2)] by (simp add: st_def)
  have same: "same_registrations st st'"
    using assms(3) fresh_ids.create_subscription_effect [OF assms(1) iv] fresh_ids.create_interceptor_effect [OF assms(1) iv]
    unfolding st_def [symmetric] by fastforce
  moreover have "index_wf (ap_index st)" using iv by (simp add: http_inv_defs)
  ultimately show ?thesis
    unfolding st_def [symmetric] by (simp add: ix.look_law same_registrations_def)
qed

text \<open>The registrations that the rate limiter lets through, one attempt at each of the given
  moments.\<close>

fun rate_accepts :: "('s, 'j, 'tx, 'i, 'w) http_env \<Rightarrow> 'w list \<Rightarrow> ('s, 'j, 'tx, 'i, 'w) app_state \<Rightarrow> nat" where
  "rate_accepts H [] st = 0"
| "rate_accepts H (w # ws) st =
     (case check_registration_rate_limit H (set_world w st) of
        (Inl _, st) \<Rightarrow> rate_accepts H ws st
      | (Inr _, st) \<Rightarrow> Suc (rate_accepts H ws st))"

text \<open>C27. In one window of sixty seconds exactly the first hundred registration attempts pass, less
  those the window has already seen; a new window starts afresh.\<close>

theorem registration_rate_limited:
  assumes "\<forall>w \<in> set ws. now_secs H w div 60 = k"
  shows "rate_accepts H ws st =
    min (length ws) (100 - (if fst (ap_registration_rate st) = k then unat (snd (ap_registration_rate st)) else 0))"
  using assms
proof (induction ws arbitrary: st)
  case (Cons w ws)
  obtain c n where cn: "ap_registration_rate st = (c, n)" by (rule prod.exhaust)
  have k: "now_secs H w div 60 = k" and ws: "\<forall>w \<in> set ws. now_secs H w div 60 = k" using Cons.prems by simp_all
  have n: "n < 100 \<Longrightarrow> unat (n + 1) = Suc (unat n)" by (rule unat_plus1)
  note defs = check_registration_rate_limit_def set_world_def WEBHOOK_REGISTRATION_RATE_WINDOW_SECS_def
    WEBHOOK_REGISTRATION_RATE_LIMIT_def
  consider "c \<noteq> k" | "c = k" "100 \<le> n" | "c = k" "n < 100" by force
  then show ?case
  proof cases
    case 2
    then have "100 \<le> unat n" by (simp add: word_le_nat_alt)
    with 2 k cn Cons.IH [OF ws] show ?thesis by (simp add: defs)
  next
    case 3
    then have "unat n < 100" by (simp add: word_less_nat_alt)
    with 3 k cn n Cons.IH [OF ws] show ?thesis by (simp add: defs not_le)
  qed (use k cn Cons.IH [OF ws] in \<open>simp add: defs min_def\<close>)
qed simp

text \<open>Under an open authenticator without dev mode, the handlers that install webhooks, read
  stored events or act on dead letters answer 401 and leave the state as it is.\<close>

theorem open_auth_refused:
  assumes "he_auth_open H" and "\<not> he_dev_mode H"
  shows "(\<exists>e. er_status e = 401 \<and> create_subscription H sreq st = (Inl e, st))
    \<and> (\<exists>e. er_status e = 401 \<and> create_interceptor H ireq st = (Inl e, st))
    \<and> (\<exists>e. er_status e = 401 \<and> http_get_event H seq st = Inl e)
    \<and> (\<exists>e. er_status e = 401 \<and> http_list_dead_lettered H query st = Inl e)
    \<and> (\<exists>e. er_status e = 401 \<and> http_replay_dead_lettered H seq st = (Inl e, st))
    \<and> (\<exists>e. er_status e = 401 \<and> http_purge_dead_lettered H seq st = (Inl e, st))"
  using assms
  by (simp add: create_subscription_def create_interceptor_def http_get_event_def http_list_dead_lettered_def
      http_replay_dead_lettered_def http_purge_dead_lettered_def refuse_if_unauth_state_changing_def
      http_error_with_code_def andthen_def)

section \<open>A server for concrete inputs\<close>

text \<open>Ids are drawn in unary, so none comes twice; one public host answers.\<close>

definition demo_used :: "demo_world \<Rightarrow> string set" where
  "demo_used w = unary_id ` {..< dw_fresh w}"

definition demo_http :: "bool \<Rightarrow> (mem_store, string, nat, bytes \<Rightarrow> join_outcome, demo_world) http_env" where
  "demo_http open_auth =
     \<lparr>he_bus = demo_env\<lparr>ee_ulid := (\<lambda>w. (unary_id (dw_fresh w), w\<lparr>dw_fresh := Suc (dw_fresh w)\<rparr>)),
                        ee_channel := (\<lambda>n w. (7, w))\<rparr>,
      he_web = \<lparr>we_parse = (\<lambda>url. if starts_with url ''https://'' then
          Inr \<lparr>pu_scheme = ''https'', pu_host = Some (HostDomain ''h''), pu_host_str = Some ''h'', pu_port_or_default = Some 443\<rparr>
        else Inl ''relative URL without a base''),
        we_resolve = (\<lambda>d p w. (Inr [V4 0x5DB8D822], w)),
        we_show_ip = (\<lambda>_. ''ip''), we_join_error = (\<lambda>_. None), we_build_error = (\<lambda>_. None),
        we_post = (\<lambda>t p w. (Inl ''refused'', w)), we_head = (\<lambda>t u h w. (Inl ''refused'', w)),
        we_encode = (\<lambda>b. []), we_decode = (\<lambda>s. Inr []), we_result_json = (\<lambda>b. Inl ''EOF''),
        we_clock = (\<lambda>w. unat (dw_clock w) * 1000000)\<rparr>,
      he_auth_open = open_auth, he_dev_mode = False, he_has_store = True, he_webhook_url_policy = Strict,
      he_interceptor = (\<lambda>_ p. Finished Pass p)\<rparr>"

abbreviation demo_idle :: "(mem_store, string, nat, bytes \<Rightarrow> join_outcome, demo_world) engine" where
  "demo_idle \<equiv> demo_engine [] []"

interpretation demo_fresh: fresh_ids "demo_http b" demo_used
  by unfold_locales (auto simp: demo_http_def demo_used_def less_Suc_eq)

lemma demo_ready: "ready_engine demo_used demo_idle"
  by (simp add: ready_engine_def demo_engine_def with_components_def ix.empty_law)

definition demo_ireq :: "string \<Rightarrow> register_interceptor_request" where
  "demo_ireq pat = \<lparr>ri_pattern = pat, ri_url = ''https://h/x'', ri_headers = [], ri_priority = 5, ri_timeout_ms = None\<rparr>"

definition demo_sreq :: "string \<Rightarrow> subscribe_request" where
  "demo_sreq pat = \<lparr>sr_pattern = pat, sr_url = ''https://h/x'', sr_headers = [], sr_priority = 5\<rparr>"

lemma demo_trim_ab: "str_trim ''a.b'' = ''a.b''"
  by (simp add: str_trim_def strip_front.simps unicode_white_space_def)

lemma demo_checks:
  "refuse_if_unauth_state_changing (demo_http False) op = Inr ()"
  "validate_remote_pattern ''a.b'' = Inr ()"
  "check_registration_rate_limit (demo_http b) (new_app_state demo_idle)
     = (Inr (), (new_app_state demo_idle)\<lparr>ap_registration_rate := (0, 1)\<rparr>)"
  by (simp_all add: refuse_if_unauth_state_changing_def demo_http_def validate_remote_pattern_def
      MAX_REMOTE_PATTERN_LENGTH_def demo_trim_ab check_registration_rate_limit_def WEBHOOK_REGISTRATION_RATE_LIMIT_def
      WEBHOOK_REGISTRATION_RATE_WINDOW_SECS_def new_app_state_def now_secs_def demo_engine_def with_components_def)

lemma demo_url_ok:
  "validate_webhook_url_with_policy (he_web (demo_http b)) ''https://h/x'' (he_webhook_url_policy (demo_http b)) w = (Inr (), w)"
  by (simp add: demo_http_def validate_webhook_url_with_policy_def validate_webhook_url_resolved_def resolve_domain_def
      check_address_against_policy_def is_private_ip.simps private_v4_ranges forbidden_v4_def word_le_nat_alt word_less_nat_alt)

lemma demo_register:
  "ap_interceptor_ids (snd (register_interceptor (demo_http b) (demo_ireq ''a.b'') (set_world w ((new_app_state demo_idle)\<lparr>ap_registration_rate := x\<rparr>))))
     = {unary_id (dw_fresh w)}"
  by (simp add: register_interceptor_def Let_def demo_ireq_def set_world_def new_app_state_def MAX_HTTP_INTERCEPTORS_def
      bus_intercept_def intercept_def validate_subject_def MAX_SUBJECT_LENGTH_def demo_engine_def with_components_def
      demo_http_def demo_env_def index_subscribe_def new_node_def MAX_SUBJECT_DEPTH_def persist_new_interceptor_def
      memory_ops_def mem_save_subscription_def mem_new_def MAX_INTERCEPTORS_PER_SUBJECT_def)

lemma demo_post:
  "ap_interceptor_ids (http_run (demo_http False) [PostInterceptor (demo_ireq ''a.b'')] demo_idle) = {unary_id 0}"
proof -
  have w: "dw_fresh (ap_world ((new_app_state demo_idle)\<lparr>ap_registration_rate := x\<rparr>)) = 0" for x
    by (simp add: new_app_state_def demo_engine_def with_components_def)
  show ?thesis
    unfolding http_run_def fold_simps comp_apply id_apply http_step.simps create_interceptor_def demo_checks
      demo_ireq_def sum.case prod.case register_interceptor_request.select_convs demo_url_ok
    unfolding demo_ireq_def [symmetric] demo_register w ..
qed

theorem http_counters_exact_witness:
  "unat (ap_interceptor_count (http_run (demo_http False) [PostInterceptor (demo_ireq ''a.b'')] demo_idle)) = 1"
  using http_counters_exact [OF demo_fresh.fresh_ids_axioms demo_ready, of False "[PostInterceptor (demo_ireq ''a.b'')]"]
  by (simp add: demo_post)

theorem http_never_taps_replies_witness:
  "unary_id 0 \<notin> entry_id ` set (index_lookup (ap_index (http_run (demo_http False) [PostInterceptor (demo_ireq ''a.b'')] demo_idle)) ''_reply.x'')"
proof
  assume "unary_id 0 \<in> entry_id ` set (index_lookup (ap_index (http_run (demo_http False) [PostInterceptor (demo_ireq ''a.b'')] demo_idle)) ''_reply.x'')"
  then obtain x where "unary_id 0 = entry_id x"
      "x \<in> set (index_lookup (ap_index (http_run (demo_http False) [PostInterceptor (demo_ireq ''a.b'')] demo_idle)) ''_reply.x'')"
    by blast
  with http_never_taps_replies [OF demo_fresh.fresh_ids_axioms demo_ready, of "''_reply.x''" x False "[PostInterceptor (demo_ireq ''a.b'')]"]
  show False by (simp add: demo_post)
qed

theorem failed_registration_rolls_back_witness:
  "same_registrations (http_run (demo_http True) [] demo_idle) (snd (create_subscription (demo_http True) (demo_sreq ''a.b'') (http_run (demo_http True) [] demo_idle)))
   \<and> er_status (projl (fst (create_subscription (demo_http True) (demo_sreq ''a.b'') (http_run (demo_http True) [] demo_idle)))) = 401"
proof -
  have c: "create_subscription (demo_http True) (demo_sreq ''a.b'') st =
      (Inl (http_error_with_code 401 (''POST /subscribe'' @ '' requires a real authenticator (or HttpServer::unsafe_allow_http_dev_mode() for tests)'')
          ''AUTH_REQUIRED''), st)" for st
    by (simp add: create_subscription_def refuse_if_unauth_state_changing_def demo_http_def)
  from failed_registration_rolls_back [OF demo_fresh.fresh_ids_axioms demo_ready disjI1, OF c [of "http_run (demo_http True) [] demo_idle"]]
  show ?thesis unfolding c by (simp add: http_error_with_code_def)
qed

theorem registration_rate_limited_witness:
  "rate_accepts (demo_http False) (replicate 150 \<lparr>dw_clock = 1000, dw_fresh = 0, dw_sent = []\<rparr>) (new_app_state demo_idle) = 100"
  using registration_rate_limited [of "replicate 150 \<lparr>dw_clock = 1000, dw_fresh = 0, dw_sent = []\<rparr>" "demo_http False" 0 "new_app_state demo_idle"]
  by (simp add: demo_http_def now_secs_def new_app_state_def)

theorem open_auth_refused_witness:
  "\<exists>e. er_status e = 401 \<and> http_purge_dead_lettered (demo_http True) 3 (new_app_state demo_idle) = (Inl e, new_app_state demo_idle)"
  using open_auth_refused [of "demo_http True" _ "new_app_state demo_idle"] by (simp add: demo_http_def)

text \<open>The recreation of a persisted subscription does not check its pattern as the recreation of an
  interceptor does: an entry on \<open>_reply.>\<close> is subscribed again at start, and deleted when it is an
  interceptor.\<close>

lemma recreation_skips_pattern_check:
  "fst (recreate_persisted_async_webhook (demo_http b)
      \<lparr>ps_persisted_id = ''p'', ps_pattern = ''_reply.>'', ps_url = ''https://h/x'', ps_headers = [], ps_priority = 5,
       ps_created_at = 0, ps_kind = AsyncWebhook, ps_timeout_ms = None\<rparr> (new_app_state demo_idle)) = Recreated
   \<and> (\<exists>m. fst (recreate_persisted_sync_interceptor (demo_http b)
      \<lparr>ps_persisted_id = ''p'', ps_pattern = ''_reply.>'', ps_url = ''https://h/x'', ps_headers = [], ps_priority = 5,
       ps_created_at = 0, ps_kind = SyncInterceptor, ps_timeout_ms = None\<rparr> (new_app_state demo_idle)) = PermanentFailure m)"
proof
  show "fst (recreate_persisted_async_webhook (demo_http b)
      \<lparr>ps_persisted_id = ''p'', ps_pattern = ''_reply.>'', ps_url = ''https://h/x'', ps_headers = [], ps_priority = 5,
       ps_created_at = 0, ps_kind = AsyncWebhook, ps_timeout_ms = None\<rparr> (new_app_state demo_idle)) = Recreated"
    by (simp add: recreate_persisted_async_webhook_def Let_def new_app_state_def MAX_HTTP_SUBSCRIPTIONS_def
        bus_subscribe_def engine_subscribe_def validate_subject_def MAX_SUBJECT_LENGTH_def demo_engine_def
        with_components_def demo_http_def demo_env_def index_subscribe_def new_node_def MAX_SUBJECT_DEPTH_def)
qed (auto simp: recreate_persisted_sync_interceptor_def validate_remote_pattern_def MAX_REMOTE_PATTERN_LENGTH_def
    split: sum.splits)

end
