(* ===== verification/Ws_Remote.thy ===== *)
theory Ws_Remote
  imports Remote_Transport
begin

text \<open>
  The proxies behind a WebSocket connection: \<open>WsRemoteInterceptor\<close>
  (\<open>delivery/ws_remote_interceptor.rs\<close>) and \<open>WsRemoteChannel\<close> (\<open>delivery/ws_remote.rs\<close>). A call on a proxy
  registers a oneshot under a fresh request id, queues a frame for the client and waits for the
  answer. Many calls are in flight at once, so a proxy is a state machine: its state is the map of
  pending replies and the oneshots, and its steps are the stretches of code between two awaits.
\<close>

section \<open>Oneshot channels and pending replies\<close>

text \<open>The \<open>Debug\<close> text of a \<open>Duration\<close>: the largest unit that is not zero, with the fraction without
  trailing zeros.\<close>

definition decimal_text :: "nat \<Rightarrow> nat \<Rightarrow> nat \<Rightarrow> string \<Rightarrow> string" where
  "decimal_text whole width fraction suffix =
     show_nat whole
     @ (if fraction = 0 then []
        else let digits = show_nat fraction in
          ''.'' @ rev (dropWhile (\<lambda>c. c = CHR ''0'') (rev (replicate (width - length digits) CHR ''0'' @ digits))))
     @ suffix"

definition duration_debug :: "duration \<Rightarrow> string" where
  "duration_debug d =
     (if d \<ge> 1000000000 then decimal_text (d div 1000000000) 9 (d mod 1000000000) ''s''
      else if d \<ge> 1000000 then decimal_text (d div 1000000) 6 (d mod 1000000) ''ms''
      else if d \<ge> 1000 then decimal_text (d div 1000) 3 (d mod 1000) [CHR 0xC2, CHR 0xB5, CHR ''s'']
      else decimal_text d 0 0 ''ns'')"

text \<open>The JSON objects that the proxies build with \<open>json!\<close>; their payload is base64 text.\<close>

datatype ws_frame =
    InterceptFrame (wf_request_id: string) (wf_subject: string) (wf_payload: string)
  | DeliverFrame (wf_request_id: string) (wf_channel_type: string) (wf_subject: string) (wf_payload: string)

text \<open>A oneshot as its receiver sees it: no value yet, a value, or the sender dropped without one.\<close>

datatype 'r oneshot = OsEmpty | OsSent 'r | OsClosed

text \<open>The map \<open>pending_replies\<close> holds senders; \<open>pr_slots\<close> the oneshots whose receiver is alive.\<close>

record 'r reply_table =
  pr_pending :: "(string \<times> nat) list"
  pr_slots :: "nat \<rightharpoonup> 'r oneshot"
  pr_next :: nat

definition new_reply_table :: "'r reply_table" where
  "new_reply_table = \<lparr>pr_pending = [], pr_slots = Map.empty, pr_next = 0\<rparr>"

text \<open>Using up a sender, by a value or by dropping it: without a receiver nothing happens.\<close>

definition oneshot_put :: "'r oneshot \<Rightarrow> nat \<Rightarrow> (nat \<rightharpoonup> 'r oneshot) \<Rightarrow> (nat \<rightharpoonup> 'r oneshot)" where
  "oneshot_put v h slots = (if slots h = Some OsEmpty then slots(h \<mapsto> v) else slots)"

text \<open>\<open>pending.insert(request_id, tx)\<close> with a new oneshot: a sender that was there is dropped.\<close>

definition reply_insert :: "string \<Rightarrow> 'r reply_table \<Rightarrow> 'r reply_table" where
  "reply_insert rid t =
     (let h = pr_next t;
          slots = (case map_of (pr_pending t) rid of None \<Rightarrow> pr_slots t | Some old \<Rightarrow> oneshot_put OsClosed old (pr_slots t)) in
      \<lparr>pr_pending = reg_insert rid h (pr_pending t), pr_slots = slots(h \<mapsto> OsEmpty), pr_next = Suc h\<rparr>)"

text \<open>\<open>pending.remove(&request_id)\<close> and what becomes of the sender.\<close>

definition reply_remove :: "'r oneshot \<Rightarrow> string \<Rightarrow> 'r reply_table \<Rightarrow> 'r reply_table" where
  "reply_remove v rid t =
     (case map_of (pr_pending t) rid of
        None \<Rightarrow> t
      | Some h \<Rightarrow> t\<lparr>pr_pending := filter (\<lambda>p. fst p \<noteq> rid) (pr_pending t), pr_slots := oneshot_put v h (pr_slots t)\<rparr>)"

text \<open>\<open>pending.drain()\<close> with the same reply to every sender.\<close>

definition reply_drain :: "'r \<Rightarrow> 'r reply_table \<Rightarrow> 'r reply_table" where
  "reply_drain r t =
     t\<lparr>pr_pending := [], pr_slots := fold (\<lambda>p. oneshot_put (OsSent r) (snd p)) (pr_pending t) (pr_slots t)\<rparr>"

definition receiver_drop :: "nat \<Rightarrow> 'r reply_table \<Rightarrow> 'r reply_table" where
  "receiver_drop h t = t\<lparr>pr_slots := (pr_slots t)(h := None)\<rparr>"

section \<open>The remote interceptor\<close>

definition MAX_PENDING_INTERCEPTS :: nat where "MAX_PENDING_INTERCEPTS = 1024"

datatype ws_intercept_action = WsPass | WsModify bytes | WsDrop

record ws_intercept_reply =
  wr_action :: ws_intercept_action
  wr_error :: "string option"

text \<open>A call of \<open>intercept\<close> that has not returned: it holds the guard (the request id), the receiver
  and the caller's payload, and waits either for room in the outbound queue or for the reply.\<close>

datatype call_phase = Queueing string | Awaiting

record intercept_call =
  ic_request_id :: string
  ic_payload :: bytes
  ic_phase :: call_phase

record ws_remote_interceptor =
  wi_pattern :: string
  wi_table :: "ws_intercept_reply reply_table"
  wi_intercept_timeout :: duration
  wi_calls :: "nat \<rightharpoonup> intercept_call"

definition ws_interceptor_new :: "string \<Rightarrow> ws_remote_interceptor" where
  "ws_interceptor_new pattern =
     \<lparr>wi_pattern = pattern, wi_table = new_reply_table, wi_intercept_timeout = from_secs 5, wi_calls = Map.empty\<rparr>"

definition ws_interceptor_with_timeout :: "duration \<Rightarrow> ws_remote_interceptor \<Rightarrow> ws_remote_interceptor" where
  "ws_interceptor_with_timeout tmo p = p\<lparr>wi_intercept_timeout := tmo\<rparr>"

definition ws_interceptor_cancel_all :: "string \<Rightarrow> ws_remote_interceptor \<Rightarrow> ws_remote_interceptor" where
  "ws_interceptor_cancel_all reason p =
     p\<lparr>wi_table := reply_drain \<lparr>wr_action = WsPass, wr_error = Some reason\<rparr> (wi_table p)\<rparr>"

text \<open>Dropping the armed guard removes the entry, at once or from a spawned task.\<close>

definition pending_guard_drop :: "string \<Rightarrow> 'r reply_table \<Rightarrow> 'r reply_table" where
  "pending_guard_drop rid t = reply_remove OsClosed rid t"

text \<open>The end of a call: its receiver goes, and the guard is disarmed or runs.\<close>

definition intercept_leave :: "bool \<Rightarrow> nat \<Rightarrow> intercept_call \<Rightarrow> ws_remote_interceptor \<Rightarrow> ws_remote_interceptor" where
  "intercept_leave armed h c p =
     p\<lparr>wi_table := receiver_drop h (if armed then pending_guard_drop (ic_request_id c) (wi_table p) else wi_table p),
       wi_calls := (wi_calls p)(h := None)\<rparr>"

text \<open>What the call with a request id returns, with the payload it leaves in the caller's buffer.\<close>

type_synonym intercept_return = "string \<times> intercept_result \<times> bytes"

fun action_result :: "ws_intercept_action \<Rightarrow> bytes \<Rightarrow> intercept_result \<times> bytes" where
  "action_result WsPass payload = (Pass, payload)"
| "action_result WsDrop payload = (Drop, payload)"
| "action_result (WsModify new_payload) payload = (Modified, new_payload)"

text \<open>From the entry of \<open>intercept\<close> to the send: the cap, the oneshot, the guard and the frame, whose
  encoding may fail.\<close>

definition intercept_enter ::
  "(ws_frame \<Rightarrow> string + string) \<Rightarrow> (bytes \<Rightarrow> string) \<Rightarrow> string \<Rightarrow> string \<Rightarrow> bytes \<Rightarrow> ws_remote_interceptor \<Rightarrow> intercept_return list \<times> ws_remote_interceptor" where
  "intercept_enter encode b64 rid subj payload p =
     (let h = pr_next (wi_table p) in
      if length (pr_pending (wi_table p)) \<ge> MAX_PENDING_INTERCEPTS then ([(rid, Pass, payload)], p)
      else
        let p = p\<lparr>wi_table := reply_insert rid (wi_table p)\<rparr> in
        case encode (InterceptFrame rid subj (b64 payload)) of
          Inl _ \<Rightarrow> ([(rid, Pass, payload)],
                   intercept_leave True h \<lparr>ic_request_id = rid, ic_payload = payload, ic_phase = Awaiting\<rparr> p)
        | Inr s \<Rightarrow> ([], p\<lparr>wi_calls := (wi_calls p)(h \<mapsto> \<lparr>ic_request_id = rid, ic_payload = payload, ic_phase = Queueing s\<rparr>)\<rparr>))"

text \<open>The outbound queue took the frame, or is closed.\<close>

definition intercept_queued ::
  "nat \<Rightarrow> bool \<Rightarrow> ws_remote_interceptor \<Rightarrow> intercept_return list \<times> ws_remote_interceptor" where
  "intercept_queued h ok p =
     (case wi_calls p h of
        None \<Rightarrow> ([], p)
      | Some c \<Rightarrow>
          (case ic_phase c of
             Awaiting \<Rightarrow> ([], p)
           | Queueing _ \<Rightarrow>
               if ok then ([], p\<lparr>wi_calls := (wi_calls p)(h \<mapsto> c\<lparr>ic_phase := Awaiting\<rparr>)\<rparr>)
               else ([(ic_request_id c, Pass, ic_payload c)], intercept_leave True h c p)))"

text \<open>\<open>timeout(intercept_timeout, rx)\<close> is ready: with what is in the oneshot, or, when it is empty and
  the time is up, with the timeout.\<close>

definition intercept_ready ::
  "nat \<Rightarrow> bool \<Rightarrow> ws_remote_interceptor \<Rightarrow> intercept_return list \<times> ws_remote_interceptor" where
  "intercept_ready h time_up p =
     (case wi_calls p h of
        None \<Rightarrow> ([], p)
      | Some c \<Rightarrow>
          (case ic_phase c of
             Queueing _ \<Rightarrow> ([], p)
           | Awaiting \<Rightarrow>
               (case pr_slots (wi_table p) h of
                  Some (OsSent reply) \<Rightarrow>
                    (case action_result (wr_action reply) (ic_payload c) of
                       (r, payload) \<Rightarrow> ([(ic_request_id c, r, payload)], intercept_leave False h c p))
                | Some OsClosed \<Rightarrow> ([(ic_request_id c, Pass, ic_payload c)], intercept_leave True h c p)
                | _ \<Rightarrow>
                    if time_up then ([(ic_request_id c, Pass, ic_payload c)], intercept_leave True h c p)
                    else ([], p))))"

text \<open>The engine aborts the task of a call, in either phase.\<close>

definition intercept_abort :: "nat \<Rightarrow> ws_remote_interceptor \<Rightarrow> ws_remote_interceptor" where
  "intercept_abort h p =
     (case wi_calls p h of None \<Rightarrow> p | Some c \<Rightarrow> intercept_leave True h c p)"

text \<open>The read loop hands in an \<open>intercept_result\<close>; the flag says whether the id was pending.\<close>

definition intercept_signal ::
  "string \<Rightarrow> ws_intercept_reply \<Rightarrow> ws_remote_interceptor \<Rightarrow> bool \<times> ws_remote_interceptor" where
  "intercept_signal rid reply p =
     (map_of (pr_pending (wi_table p)) rid \<noteq> None,
      p\<lparr>wi_table := reply_remove (OsSent reply) rid (wi_table p)\<rparr>)"

section \<open>The remote delivery channel\<close>

record ws_delivery_reply =
  wd_success :: bool
  wd_error :: "string option"

record deliver_call =
  dc_request_id :: string
  dc_start :: nat
  dc_phase :: call_phase

record ws_remote_channel =
  wc_channel_type :: string
  wc_table :: "ws_delivery_reply reply_table"
  wc_delivery_timeout :: duration
  wc_calls :: "nat \<rightharpoonup> deliver_call"

definition ws_channel_new :: "string \<Rightarrow> ws_remote_channel" where
  "ws_channel_new channel_type =
     \<lparr>wc_channel_type = channel_type, wc_table = new_reply_table, wc_delivery_timeout = from_secs 30, wc_calls = Map.empty\<rparr>"

definition ws_channel_with_timeout :: "duration \<Rightarrow> ws_remote_channel \<Rightarrow> ws_remote_channel" where
  "ws_channel_with_timeout tmo p = p\<lparr>wc_delivery_timeout := tmo\<rparr>"

definition ws_channel_cancel_all :: "string \<Rightarrow> ws_remote_channel \<Rightarrow> ws_remote_channel" where
  "ws_channel_cancel_all reason p =
     p\<lparr>wc_table := reply_drain \<lparr>wd_success = False, wd_error = Some reason\<rparr> (wc_table p)\<rparr>"

definition ws_channel_cleanup :: "ws_remote_channel \<Rightarrow> (delivery_error + unit) \<times> ws_remote_channel" where
  "ws_channel_cleanup p = (Inr (), ws_channel_cancel_all ''channel cleanup'' p)"

text \<open>The end of a call: the receiver goes; only some branches remove the entry first.\<close>

definition deliver_leave :: "bool \<Rightarrow> nat \<Rightarrow> deliver_call \<Rightarrow> ws_remote_channel \<Rightarrow> ws_remote_channel" where
  "deliver_leave removing h c p =
     p\<lparr>wc_table := receiver_drop h (if removing then reply_remove OsClosed (dc_request_id c) (wc_table p) else wc_table p),
       wc_calls := (wc_calls p)(h := None)\<rparr>"

type_synonym deliver_return = "string \<times> (delivery_error + delivery_receipt)"

definition deliver_enter ::
  "(ws_frame \<Rightarrow> string + string) \<Rightarrow> (bytes \<Rightarrow> string) \<Rightarrow> string \<Rightarrow> string \<Rightarrow> bytes \<Rightarrow> nat \<Rightarrow> ws_remote_channel \<Rightarrow> deliver_return list \<times> ws_remote_channel" where
  "deliver_enter encode b64 rid subj event start p =
     (let h = pr_next (wc_table p);
          p = p\<lparr>wc_table := reply_insert rid (wc_table p)\<rparr>;
          c = \<lparr>dc_request_id = rid, dc_start = start, dc_phase = Awaiting\<rparr> in
      case encode (DeliverFrame rid (wc_channel_type p) subj (b64 event)) of
        Inl e \<Rightarrow> ([(rid, Inl (DeliveryFailed (''encode deliver frame: '' @ e)))], deliver_leave True h c p)
      | Inr s \<Rightarrow> ([], p\<lparr>wc_calls := (wc_calls p)(h \<mapsto> c\<lparr>dc_phase := Queueing s\<rparr>)\<rparr>))"

definition deliver_queued ::
  "nat \<Rightarrow> bool \<Rightarrow> ws_remote_channel \<Rightarrow> deliver_return list \<times> ws_remote_channel" where
  "deliver_queued h ok p =
     (case wc_calls p h of
        None \<Rightarrow> ([], p)
      | Some c \<Rightarrow>
          (case dc_phase c of
             Awaiting \<Rightarrow> ([], p)
           | Queueing _ \<Rightarrow>
               if ok then ([], p\<lparr>wc_calls := (wc_calls p)(h \<mapsto> c\<lparr>dc_phase := Awaiting\<rparr>)\<rparr>)
               else ([(dc_request_id c, Inl NotReady)], deliver_leave True h c p)))"

text \<open>The receipt: the clock is read for the latency and again for the time of delivery, in nanoseconds
  since the epoch; a clock that went back gives the latency 0.\<close>

definition reply_receipt :: "ws_delivery_reply \<Rightarrow> nat \<Rightarrow> nat \<times> nat \<Rightarrow> delivery_error + delivery_receipt" where
  "reply_receipt reply start now =
     (if \<not> wd_success reply then
        Inl (DeliveryFailed (case wd_error reply of None \<Rightarrow> ''remote channel reported failure'' | Some e \<Rightarrow> e))
      else Inr \<lparr>delivered_at = of_nat (as_millis (snd now)), latency_us = of_nat ((fst now - start) div 1000)\<rparr>)"

definition deliver_ready ::
  "nat \<Rightarrow> bool \<Rightarrow> nat \<times> nat \<Rightarrow> ws_remote_channel \<Rightarrow> deliver_return list \<times> ws_remote_channel" where
  "deliver_ready h time_up now p =
     (case wc_calls p h of
        None \<Rightarrow> ([], p)
      | Some c \<Rightarrow>
          (case dc_phase c of
             Queueing _ \<Rightarrow> ([], p)
           | Awaiting \<Rightarrow>
               (case pr_slots (wc_table p) h of
                  Some (OsSent reply) \<Rightarrow> ([(dc_request_id c, reply_receipt reply (dc_start c) now)], deliver_leave False h c p)
                | Some OsClosed \<Rightarrow> ([(dc_request_id c, Inl NotReady)], deliver_leave False h c p)
                | _ \<Rightarrow>
                    if time_up then
                      ([(dc_request_id c, Inl (DeliveryFailed (''remote delivery timed out after '' @ duration_debug (wc_delivery_timeout p))))],
                       deliver_leave True h c p)
                    else ([], p))))"

definition deliver_signal ::
  "string \<Rightarrow> ws_delivery_reply \<Rightarrow> ws_remote_channel \<Rightarrow> bool \<times> ws_remote_channel" where
  "deliver_signal rid reply p =
     (map_of (pr_pending (wc_table p)) rid \<noteq> None,
      p\<lparr>wc_table := reply_remove (OsSent reply) rid (wc_table p)\<rparr>)"

definition ws_channel_is_healthy :: "bool \<Rightarrow> bool" where
  "ws_channel_is_healthy outbound_closed \<longleftrightarrow> \<not> outbound_closed"

section \<open>The pending replies are the calls in flight\<close>

text \<open>The table against the request ids of the live calls: an id is pending exactly when its call has
  neither an answer nor lost its sender.\<close>

definition table_inv :: "(nat \<rightharpoonup> string) \<Rightarrow> 'r reply_table \<Rightarrow> bool" where
  "table_inv f t \<longleftrightarrow> distinct (map fst (pr_pending t)) \<and> dom (pr_slots t) = dom f \<and> (\<forall>h \<in> dom f. h < pr_next t)
     \<and> (\<forall>rid h. map_of (pr_pending t) rid = Some h \<longleftrightarrow> f h = Some rid \<and> pr_slots t h = Some OsEmpty)"

lemma table_live: "table_inv f t \<Longrightarrow> pr_slots t h = Some v \<Longrightarrow> \<exists>rid. f h = Some rid"
  by (auto simp: table_inv_def)

lemma table_pending:
  "table_inv f t \<Longrightarrow> f h = Some rid \<Longrightarrow> pr_slots t h = Some OsEmpty \<Longrightarrow> map_of (pr_pending t) rid = Some h"
  unfolding table_inv_def by blast

lemma table_uniq:
  assumes "table_inv f t" and "f h = Some rid" and "f k = Some rid"
    and "pr_slots t h = Some OsEmpty" and "pr_slots t k = Some OsEmpty"
  shows "h = k"
  using table_pending [OF assms(1,2,4)] table_pending [OF assms(1,3,5)] by simp

lemma table_inv_new [simp]: "table_inv f new_reply_table \<longleftrightarrow> f = Map.empty"
  by (auto simp: table_inv_def new_reply_table_def)

lemma table_insert:
  assumes "table_inv f t"
  shows "table_inv (f(pr_next t \<mapsto> rid)) (reply_insert rid t)"
proof -
  have n: "f (pr_next t) = None" "pr_slots t (pr_next t) = None"
    using assms by (auto simp: table_inv_def domIff)
  have "pr_slots t h \<noteq> Some OsEmpty" if "map_of (pr_pending t) rid = None" "f h = Some rid" for h
    using table_pending [OF assms that(2)] that(1) by auto
  with assms n table_uniq [OF assms] show ?thesis
    by (auto simp: table_inv_def reply_insert_def Let_def map_of_reg_insert distinct_reg_insert oneshot_put_def less_Suc_eq
        simp del: map_of_eq_Some_iff split: option.splits if_splits)
qed

lemma table_remove:
  assumes "table_inv f t" and "v \<noteq> OsEmpty"
  shows "table_inv f (reply_remove v rid t)"
  using assms table_uniq [OF assms(1)]
  by (auto simp: table_inv_def reply_remove_def map_of_filter_key distinct_map_filter oneshot_put_def
      simp del: map_of_eq_Some_iff split: option.splits if_splits)

lemma removed_not_empty:
  "table_inv f t \<Longrightarrow> v \<noteq> OsEmpty \<Longrightarrow> f h = Some rid \<Longrightarrow> pr_slots (reply_remove v rid t) h \<noteq> Some OsEmpty"
  by (auto simp: reply_remove_def oneshot_put_def dest: table_pending split: option.splits)

lemma table_drop:
  "table_inv f t \<Longrightarrow> pr_slots t h \<noteq> Some OsEmpty \<Longrightarrow> table_inv (f(h := None)) (receiver_drop h t)"
  by (auto simp: table_inv_def receiver_drop_def)

lemma drain_slots:
  "fold (\<lambda>p. oneshot_put v (snd p)) ps slots h =
     (if v \<noteq> OsEmpty \<and> h \<in> snd ` set ps \<and> slots h = Some OsEmpty then Some v else slots h)"
  by (induction ps arbitrary: slots) (auto simp: oneshot_put_def)

lemma table_drain:
  assumes "table_inv f t"
  shows "table_inv f (reply_drain r t) \<and> pr_pending (reply_drain r t) = []
    \<and> pr_slots (reply_drain r t) = (\<lambda>h. if pr_slots t h = Some OsEmpty then Some (OsSent r) else pr_slots t h)"
proof -
  have "h \<in> snd ` set (pr_pending t)" if "pr_slots t h = Some OsEmpty" for h
  proof -
    from table_live [OF assms that] that assms obtain rid where "map_of (pr_pending t) rid = Some h"
      by (auto simp: table_inv_def)
    then show ?thesis by (force dest: map_of_SomeD)
  qed
  then have "pr_slots (reply_drain r t) = (\<lambda>h. if pr_slots t h = Some OsEmpty then Some (OsSent r) else pr_slots t h)"
    by (auto simp: reply_drain_def drain_slots)
  with assms show ?thesis
    by (auto simp: table_inv_def reply_drain_def dom_def split: if_splits)
qed

section \<open>Runs of a proxy\<close>

datatype intercept_event =
    IcEnter string string bytes
  | IcQueued nat bool
  | IcReady nat bool
  | IcAbort nat
  | IcSignal string ws_intercept_reply
  | IcCancelAll string

fun intercept_step ::
  "(ws_frame \<Rightarrow> string + string) \<Rightarrow> (bytes \<Rightarrow> string) \<Rightarrow> intercept_event \<Rightarrow> ws_remote_interceptor
   \<Rightarrow> intercept_return list \<times> ws_remote_interceptor" where
  "intercept_step encode b64 (IcEnter rid subj payload) p = intercept_enter encode b64 rid subj payload p"
| "intercept_step encode b64 (IcQueued h ok) p = intercept_queued h ok p"
| "intercept_step encode b64 (IcReady h time_up) p = intercept_ready h time_up p"
| "intercept_step encode b64 (IcAbort h) p = ([], intercept_abort h p)"
| "intercept_step encode b64 (IcSignal rid reply) p = ([], snd (intercept_signal rid reply p))"
| "intercept_step encode b64 (IcCancelAll reason) p = ([], ws_interceptor_cancel_all reason p)"

datatype deliver_event =
    DcEnter string string bytes nat
  | DcQueued nat bool
  | DcReady nat bool "nat \<times> nat"
  | DcSignal string ws_delivery_reply
  | DcCancelAll string

fun deliver_step ::
  "(ws_frame \<Rightarrow> string + string) \<Rightarrow> (bytes \<Rightarrow> string) \<Rightarrow> deliver_event \<Rightarrow> ws_remote_channel
   \<Rightarrow> deliver_return list \<times> ws_remote_channel" where
  "deliver_step encode b64 (DcEnter rid subj event start) p = deliver_enter encode b64 rid subj event start p"
| "deliver_step encode b64 (DcQueued h ok) p = deliver_queued h ok p"
| "deliver_step encode b64 (DcReady h time_up now) p = deliver_ready h time_up now p"
| "deliver_step encode b64 (DcSignal rid reply) p = ([], snd (deliver_signal rid reply p))"
| "deliver_step encode b64 (DcCancelAll reason) p = ([], ws_channel_cancel_all reason p)"

fun run_steps :: "('l \<Rightarrow> 's \<Rightarrow> 'o list \<times> 's) \<Rightarrow> 'l list \<Rightarrow> 's \<Rightarrow> 'o list \<times> 's" where
  "run_steps step [] s = ([], s)"
| "run_steps step (l # ls) s =
     (case step l s of (os, s) \<Rightarrow> case run_steps step ls s of (os', s) \<Rightarrow> (os @ os', s))"

text \<open>A machine with an invariant that may speak of the events seen so far, and a law on its outputs.\<close>

locale event_machine =
  fixes step :: "'l \<Rightarrow> 's \<Rightarrow> 'o list \<times> 's" and start :: "'s \<Rightarrow> bool"
    and keeps :: "'l set \<Rightarrow> 's \<Rightarrow> bool" and lawful :: "'l set \<Rightarrow> 'o \<Rightarrow> bool"
  assumes keeps_start: "start s \<Longrightarrow> keeps {} s"
    and keeps_step: "keeps L s \<Longrightarrow> step l s = (os, s') \<Longrightarrow> keeps (insert l L) s'"
    and lawful_step: "keeps L s \<Longrightarrow> step l s = (os, s') \<Longrightarrow> y \<in> set os \<Longrightarrow> lawful (insert l L) y"
    and lawful_mono: "lawful L y \<Longrightarrow> L \<subseteq> M \<Longrightarrow> lawful M y"
begin

lemma run_from:
  "keeps L s \<Longrightarrow> run_steps step ls s = (os, s') \<Longrightarrow>
   keeps (L \<union> set ls) s' \<and> (\<forall>y \<in> set os. lawful (L \<union> set ls) y)"
proof (induction ls arbitrary: L s os)
  case (Cons l ls)
  obtain os1 s1 where s1: "step l s = (os1, s1)" by (rule prod.exhaust)
  obtain os2 where r: "run_steps step ls s1 = (os2, s')" "os = os1 @ os2"
    using Cons.prems(2) s1 by (auto split: prod.splits)
  note k = Cons.IH [OF keeps_step [OF Cons.prems(1) s1] r(1)]
  moreover have "lawful (L \<union> set (l # ls)) y" if "y \<in> set os1" for y
    using lawful_step [OF Cons.prems(1) s1 that] by (rule lawful_mono) auto
  ultimately show ?case using r(2) by (auto simp: insert_commute)
qed simp

lemma run_lawful:
  "start s \<Longrightarrow> run_steps step ls s = (os, s') \<Longrightarrow> keeps (set ls) s' \<and> (\<forall>y \<in> set os. lawful (set ls) y)"
  using run_from [OF keeps_start] by simp

end

section \<open>Calls of a remote interceptor\<close>

abbreviation ic_ids :: "ws_remote_interceptor \<Rightarrow> nat \<rightharpoonup> string" where
  "ic_ids p \<equiv> map_option ic_request_id \<circ> wi_calls p"

text \<open>The call \<open>c\<close> was entered, and what is in its oneshot came from the client or from a cancellation.\<close>

definition call_known :: "intercept_event set \<Rightarrow> ws_intercept_reply reply_table \<Rightarrow> nat \<Rightarrow> intercept_call \<Rightarrow> bool" where
  "call_known L t h c \<longleftrightarrow> (\<exists>subj. IcEnter (ic_request_id c) subj (ic_payload c) \<in> L)
     \<and> (\<forall>reply. pr_slots t h = Some (OsSent reply) \<longrightarrow> wr_action reply = WsPass \<or> IcSignal (ic_request_id c) reply \<in> L)"

lemma call_known_mono:
  assumes "call_known L t h c" and "L \<subseteq> M" and "ic_request_id c' = ic_request_id c" and "ic_payload c' = ic_payload c"
    and "\<And>r. pr_slots t' h = Some (OsSent r) \<Longrightarrow>
      pr_slots t h = Some (OsSent r) \<or> wr_action r = WsPass \<or> IcSignal (ic_request_id c) r \<in> M"
  shows "call_known M t' h c'"
  unfolding call_known_def assms(3,4)
proof (intro conjI allI impI)
  show "\<exists>subj. IcEnter (ic_request_id c) subj (ic_payload c) \<in> M"
    using assms(1,2) unfolding call_known_def by blast
next
  fix r assume "pr_slots t' h = Some (OsSent r)"
  from assms(5) [OF this] assms(1,2) show "wr_action r = WsPass \<or> IcSignal (ic_request_id c) r \<in> M"
    unfolding call_known_def by blast
qed

definition intercept_keeps :: "intercept_event set \<Rightarrow> ws_remote_interceptor \<Rightarrow> bool" where
  "intercept_keeps L p \<longleftrightarrow> table_inv (ic_ids p) (wi_table p)
     \<and> length (pr_pending (wi_table p)) \<le> MAX_PENDING_INTERCEPTS
     \<and> (\<forall>h c. wi_calls p h = Some c \<longrightarrow> call_known L (wi_table p) h c)"

lemma keepsI:
  assumes "table_inv (ic_ids p) (wi_table p)" and "length (pr_pending (wi_table p)) \<le> MAX_PENDING_INTERCEPTS"
    and "\<And>h c. wi_calls p h = Some c \<Longrightarrow> call_known L (wi_table p) h c"
  shows "intercept_keeps L p"
  using assms by (simp add: intercept_keeps_def)

lemma keepsD:
  assumes "intercept_keeps L p"
  shows "table_inv (ic_ids p) (wi_table p)" "length (pr_pending (wi_table p)) \<le> MAX_PENDING_INTERCEPTS"
    "wi_calls p h = Some c \<Longrightarrow> call_known L (wi_table p) h c"
  using assms by (simp_all add: intercept_keeps_def)

text \<open>What a call may return after the events \<open>L\<close>: the payload untouched, or what an answer of the client
  under its request id asks for.\<close>

definition intercept_lawful :: "intercept_event set \<Rightarrow> intercept_return \<Rightarrow> bool" where
  "intercept_lawful L y \<longleftrightarrow> (case y of (rid, r, payload') \<Rightarrow>
     \<exists>subj payload. IcEnter rid subj payload \<in> L
       \<and> (r = Pass \<and> payload' = payload
          \<or> (\<exists>reply. IcSignal rid reply \<in> L \<and> action_result (wr_action reply) payload = (r, payload'))))"

lemma length_reg_insert: "length (reg_insert k v xs) \<le> Suc (length xs)"
  by (induction xs) auto

lemma insert_slots:
  "pr_slots (reply_insert rid t) h = Some (OsSent r) \<Longrightarrow> pr_slots t h = Some (OsSent r)"
  by (auto simp: reply_insert_def Let_def oneshot_put_def split: if_splits option.splits)

lemma remove_slots:
  "pr_slots (reply_remove v rid t) h = Some (OsSent r) \<Longrightarrow>
   pr_slots t h = Some (OsSent r) \<or> v = OsSent r \<and> map_of (pr_pending t) rid = Some h"
  by (auto simp: reply_remove_def oneshot_put_def split: if_splits option.splits)

lemma remove_pending: "length (pr_pending (reply_remove v rid t)) \<le> length (pr_pending t)"
  by (auto simp: reply_remove_def split: option.splits)

lemma drop_simps [simp]:
  "pr_pending (receiver_drop h t) = pr_pending t" "pr_slots (receiver_drop h t) = (pr_slots t)(h := None)"
  by (simp_all add: receiver_drop_def)

lemma upd_ids: "map_option g \<circ> (m(h := x)) = (map_option g \<circ> m)(h := map_option g x)"
  by auto

lemma leave_keeps:
  assumes "intercept_keeps L p" and "wi_calls p h = Some c" and "armed \<or> pr_slots (wi_table p) h \<noteq> Some OsEmpty"
  shows "intercept_keeps L (intercept_leave armed h c p)"
proof -
  define t where "t = (if armed then pending_guard_drop (ic_request_id c) (wi_table p) else wi_table p)"
  have i: "table_inv (ic_ids p) (wi_table p)" "ic_ids p h = Some (ic_request_id c)"
    using keepsD(1) [OF assms(1)] assms(2) by simp_all
  have t: "table_inv (ic_ids p) t" "pr_slots t h \<noteq> Some OsEmpty" "length (pr_pending t) \<le> length (pr_pending (wi_table p))"
    using i table_remove [OF i(1), of OsClosed] removed_not_empty [OF i(1) _ i(2), of OsClosed] assms(3) remove_pending
    by (auto simp: t_def pending_guard_drop_def split: if_splits)
  have s: "pr_slots t k = Some (OsSent r) \<Longrightarrow> pr_slots (wi_table p) k = Some (OsSent r)" for k r
    by (auto simp: t_def pending_guard_drop_def dest!: remove_slots split: if_splits)
  have "intercept_leave armed h c p = p\<lparr>wi_table := receiver_drop h t, wi_calls := (wi_calls p)(h := None)\<rparr>"
    by (simp add: intercept_leave_def t_def)
  moreover have "call_known L (receiver_drop h t) k d" if "wi_calls p k = Some d" "k \<noteq> h" for k d
    using that s by (intro call_known_mono [OF keepsD(3) [OF assms(1) that(1)]]) auto
  ultimately show ?thesis
    using t(3) keepsD(2) [OF assms(1)] table_drop [OF t(1,2)]
    by (intro keepsI) (simp_all add: upd_ids split: if_splits)
qed

lemma keeps_mono:
  assumes "intercept_keeps L p" and "L \<subseteq> M"
  shows "intercept_keeps M p"
proof (rule keepsI)
  fix h c assume "wi_calls p h = Some c"
  from call_known_mono [OF keepsD(3) [OF assms(1) this] assms(2) refl refl] show "call_known M (wi_table p) h c" by simp
qed (use keepsD [OF assms(1)] in simp_all)

lemma keeps_enter:
  assumes "intercept_keeps L p" and "intercept_enter encode b64 rid subj payload p = (os, p')"
  shows "intercept_keeps (insert (IcEnter rid subj payload) L) p' \<and> set os \<subseteq> {(rid, Pass, payload)}"
proof (cases "length (pr_pending (wi_table p)) \<ge> MAX_PENDING_INTERCEPTS")
  case True
  with assms show ?thesis by (auto simp: intercept_enter_def Let_def intro: keeps_mono)
next
  case False
  define h where "h = pr_next (wi_table p)"
  define c where "c ph = \<lparr>ic_request_id = rid, ic_payload = payload, ic_phase = ph\<rparr>" for ph
  define q where "q ph = p\<lparr>wi_table := reply_insert rid (wi_table p), wi_calls := (wi_calls p)(h \<mapsto> c ph)\<rparr>" for ph
  have "length (pr_pending (reply_insert rid (wi_table p))) \<le> MAX_PENDING_INTERCEPTS"
    using False length_reg_insert [of rid "pr_next (wi_table p)" "pr_pending (wi_table p)"]
    by (simp add: reply_insert_def Let_def)
  moreover have "call_known (insert (IcEnter rid subj payload) L) (reply_insert rid (wi_table p)) h (c ph)" for ph
    by (auto simp: call_known_def c_def h_def reply_insert_def Let_def)
  moreover have "call_known (insert (IcEnter rid subj payload) L) (reply_insert rid (wi_table p)) k d"
    if "wi_calls p k = Some d" for k d
    by (intro call_known_mono [OF keepsD(3) [OF assms(1) that]]) (auto dest: insert_slots)
  moreover have "table_inv ((ic_ids p)(h \<mapsto> rid)) (reply_insert rid (wi_table p))"
    using table_insert [OF keepsD(1) [OF assms(1)], of rid] by (simp add: h_def)
  ultimately have q: "intercept_keeps (insert (IcEnter rid subj payload) L) (q ph)" for ph
    by (intro keepsI) (auto simp: q_def upd_ids c_def split: if_splits)
  show ?thesis
  proof (cases "encode (InterceptFrame rid subj (b64 payload))")
    case (Inr s)
    with False assms(2) have "p' = q (Queueing s)" "os = []"
      by (auto simp: intercept_enter_def Let_def q_def c_def h_def)
    with q show ?thesis by simp
  next
    case (Inl e)
    have "intercept_leave True h (c Awaiting) (q Awaiting) = intercept_leave True h (c Awaiting) (p\<lparr>wi_table := reply_insert rid (wi_table p)\<rparr>)"
      if "wi_calls p h = None" using that by (simp add: intercept_leave_def q_def fun_upd_idem)
    moreover have "wi_calls p h = None"
      using keepsD(1) [OF assms(1)] by (auto simp: table_inv_def h_def dom_def)
    ultimately have "p' = intercept_leave True h (c Awaiting) (q Awaiting)" "os = [(rid, Pass, payload)]"
      using Inl False assms(2) by (simp_all add: intercept_enter_def Let_def c_def h_def)
    with leave_keeps [OF q [of Awaiting], of h "c Awaiting" True] show ?thesis by (simp add: q_def)
  qed
qed

lemma lawful_pass: "IcEnter rid subj pl \<in> L \<Longrightarrow> intercept_lawful L (rid, Pass, pl)"
  unfolding intercept_lawful_def by blast

lemma lawful_reply:
  "IcEnter rid subj pl \<in> L \<Longrightarrow> IcSignal rid reply \<in> L \<Longrightarrow>
   intercept_lawful L (rid, action_result (wr_action reply) pl)"
  unfolding intercept_lawful_def by (cases "action_result (wr_action reply) pl") blast

lemma pass_lawful:
  assumes "intercept_keeps L p" and "wi_calls p h = Some c"
  shows "intercept_lawful L (ic_request_id c, Pass, ic_payload c)"
proof -
  obtain subj where "IcEnter (ic_request_id c) subj (ic_payload c) \<in> L"
    using keepsD(3) [OF assms] by (auto simp: call_known_def)
  then show ?thesis by (rule lawful_pass)
qed

lemma sent_lawful:
  assumes "intercept_keeps L p" and "wi_calls p h = Some c" and "pr_slots (wi_table p) h = Some (OsSent reply)"
  shows "intercept_lawful L (ic_request_id c, action_result (wr_action reply) (ic_payload c))"
proof -
  obtain subj where "IcEnter (ic_request_id c) subj (ic_payload c) \<in> L"
    using keepsD(3) [OF assms(1,2)] by (auto simp: call_known_def)
  moreover have "wr_action reply = WsPass \<or> IcSignal (ic_request_id c) reply \<in> L"
    using keepsD(3) [OF assms(1,2)] assms(3) by (auto simp: call_known_def)
  ultimately show ?thesis
    using lawful_pass lawful_reply by auto
qed

lemma keeps_queued:
  assumes "intercept_keeps L p" and "intercept_queued h ok p = (os, p')"
  shows "intercept_keeps L p' \<and> (\<forall>y \<in> set os. intercept_lawful L y)"
proof (cases "wi_calls p h")
  case (Some c)
  have "intercept_keeps L (p\<lparr>wi_calls := (wi_calls p)(h \<mapsto> c\<lparr>ic_phase := Awaiting\<rparr>)\<rparr>)"
  proof (intro keepsI)
    fix k d assume k: "wi_calls (p\<lparr>wi_calls := (wi_calls p)(h \<mapsto> c\<lparr>ic_phase := Awaiting\<rparr>)\<rparr>) k = Some d"
    then obtain d' where d': "wi_calls p k = Some d'" "ic_request_id d = ic_request_id d'" "ic_payload d = ic_payload d'"
      using Some by (auto split: if_splits)
    from call_known_mono [OF keepsD(3) [OF assms(1) d'(1)] subset_refl d'(2,3)]
    show "call_known L (wi_table (p\<lparr>wi_calls := (wi_calls p)(h \<mapsto> c\<lparr>ic_phase := Awaiting\<rparr>)\<rparr>)) k d" by simp
  qed (use keepsD(1,2) [OF assms(1)] Some in \<open>simp_all add: upd_ids fun_upd_idem\<close>)
  with Some assms leave_keeps [OF assms(1) Some, of True] pass_lawful [OF assms(1) Some] show ?thesis
    by (auto simp: intercept_queued_def split: call_phase.splits if_splits)
qed (use assms in \<open>auto simp: intercept_queued_def\<close>)

lemma keeps_ready:
  assumes "intercept_keeps L p" and "intercept_ready h time_up p = (os, p')"
  shows "intercept_keeps L p' \<and> (\<forall>y \<in> set os. intercept_lawful L y)"
proof (cases "wi_calls p h")
  case (Some c)
  note l = pass_lawful [OF assms(1) Some] sent_lawful [OF assms(1) Some] leave_keeps [OF assms(1) Some]
  obtain v where v: "pr_slots (wi_table p) h = Some v"
  proof -
    have "h \<in> dom (ic_ids p)" using Some by auto
    then have "h \<in> dom (pr_slots (wi_table p))"
      using keepsD(1) [OF assms(1)] unfolding table_inv_def by blast
    then show ?thesis using that by blast
  qed
  show ?thesis
  proof (cases "ic_phase c")
    case Awaiting
    note r = assms(2) [unfolded intercept_ready_def Some option.case Awaiting call_phase.case v]
    show ?thesis
    proof (cases v)
      case OsEmpty
      with r l(1) l(3) [of True] assms(1) show ?thesis by (cases time_up) auto
    next
      case (OsSent reply)
      with r v l(2) [of reply] l(3) [of False] show ?thesis by (cases "action_result (wr_action reply) (ic_payload c)") auto
    next
      case OsClosed
      with r l(1) l(3) [of True] show ?thesis by auto
    qed
  qed (use assms Some in \<open>simp add: intercept_ready_def\<close>)
qed (use assms in \<open>auto simp: intercept_ready_def\<close>)

lemma keeps_abort: "intercept_keeps L p \<Longrightarrow> intercept_keeps L (intercept_abort h p)"
  by (auto simp: intercept_abort_def leave_keeps split: option.splits)

lemma keeps_signal:
  assumes "intercept_keeps L p"
  shows "intercept_keeps (insert (IcSignal rid reply) L) (snd (intercept_signal rid reply p))"
proof -
  note i = keepsD(1) [OF assms]
  have "ic_request_id c = rid" if "map_of (pr_pending (wi_table p)) rid = Some h" "wi_calls p h = Some c" for h c
  proof -
    have "ic_ids p h = Some rid" using i that(1) unfolding table_inv_def by blast
    with that(2) show ?thesis by simp
  qed
  then have "call_known (insert (IcSignal rid reply) L) (reply_remove (OsSent reply) rid (wi_table p)) h c"
    if "wi_calls p h = Some c" for h c
    using that by (intro call_known_mono [OF keepsD(3) [OF assms that]]) (auto dest!: remove_slots)
  with table_remove [OF i, of "OsSent reply" rid] order_trans [OF remove_pending keepsD(2) [OF assms]]
  show ?thesis by (intro keepsI) (simp_all add: intercept_signal_def)
qed

lemma keeps_cancel:
  assumes "intercept_keeps L p"
  shows "intercept_keeps L (ws_interceptor_cancel_all reason p)"
proof -
  note t = table_drain [OF keepsD(1) [OF assms], of "\<lparr>wr_action = WsPass, wr_error = Some reason\<rparr>"]
  have "call_known L (reply_drain \<lparr>wr_action = WsPass, wr_error = Some reason\<rparr> (wi_table p)) h c"
    if "wi_calls p h = Some c" for h c
    using t by (intro call_known_mono [OF keepsD(3) [OF assms that]]) (auto split: if_splits)
  with t show ?thesis by (intro keepsI) (simp_all add: ws_interceptor_cancel_all_def)
qed

interpretation icpt: event_machine "intercept_step encode b64" "\<lambda>p. \<exists>pat tmo. p = ws_interceptor_with_timeout tmo (ws_interceptor_new pat)"
  intercept_keeps intercept_lawful
proof unfold_locales
  fix p :: ws_remote_interceptor
  assume "\<exists>pat tmo. p = ws_interceptor_with_timeout tmo (ws_interceptor_new pat)"
  then show "intercept_keeps {} p"
    by (auto simp: intercept_keeps_def ws_interceptor_with_timeout_def ws_interceptor_new_def new_reply_table_def table_inv_def)
next
  fix L p l os p'
  assume "intercept_keeps L p" and "intercept_step encode b64 l p = (os, p')"
  then show "intercept_keeps (insert l L) p'"
    by (cases l) (auto dest: keeps_enter keeps_queued keeps_ready intro: keeps_signal keeps_mono
        [OF keeps_abort] keeps_mono [OF keeps_cancel] keeps_mono)
next
  fix L p l os p' y
  assume "intercept_keeps L p" and "intercept_step encode b64 l p = (os, p')" and "y \<in> set os"
  then show "intercept_lawful (insert l L) y"
    by (cases l) (auto 4 4 simp: intercept_lawful_def dest: keeps_enter keeps_queued keeps_ready)
qed (auto simp: intercept_lawful_def)

section \<open>Calls of a remote channel\<close>

abbreviation dc_ids :: "ws_remote_channel \<Rightarrow> nat \<rightharpoonup> string" where
  "dc_ids p \<equiv> map_option dc_request_id \<circ> wc_calls p"

text \<open>A success in a oneshot was sent by the client under the id of the call.\<close>

definition success_known :: "deliver_event set \<Rightarrow> (nat \<rightharpoonup> string) \<Rightarrow> ws_delivery_reply reply_table \<Rightarrow> bool" where
  "success_known L f t \<longleftrightarrow> (\<forall>h reply. pr_slots t h = Some (OsSent reply) \<and> wd_success reply \<longrightarrow>
     (\<exists>rid. f h = Some rid \<and> DcSignal rid reply \<in> L))"

definition deliver_keeps :: "deliver_event set \<Rightarrow> ws_remote_channel \<Rightarrow> bool" where
  "deliver_keeps L p \<longleftrightarrow> table_inv (dc_ids p) (wc_table p) \<and> success_known L (dc_ids p) (wc_table p)"

definition deliver_lawful :: "deliver_event set \<Rightarrow> deliver_return \<Rightarrow> bool" where
  "deliver_lawful L y \<longleftrightarrow> (case y of (rid, res) \<Rightarrow>
     case res of
       Inl e \<Rightarrow> (\<forall>m. e \<noteq> DeliveryPermanent m)
     | Inr receipt \<Rightarrow> (\<exists>reply. DcSignal rid reply \<in> L \<and> wd_success reply))"

lemma known_insert:
  "table_inv f t \<Longrightarrow> success_known L f t \<Longrightarrow> L \<subseteq> M \<Longrightarrow> success_known M (f(pr_next t \<mapsto> rid)) (reply_insert rid t)"
  unfolding success_known_def by (fastforce dest!: insert_slots simp: table_inv_def)

lemma known_remove:
  assumes "table_inv f t" and "success_known L f t" and "L \<subseteq> M" and "\<And>r. v = OsSent r \<Longrightarrow> wd_success r \<Longrightarrow> DcSignal rid r \<in> M"
  shows "success_known M f (reply_remove v rid t)"
  unfolding success_known_def
proof (intro allI impI)
  fix h reply assume a: "pr_slots (reply_remove v rid t) h = Some (OsSent reply) \<and> wd_success reply"
  from a consider "pr_slots t h = Some (OsSent reply)" | "v = OsSent reply" "map_of (pr_pending t) rid = Some h"
    using remove_slots by fastforce
  then show "\<exists>rid. f h = Some rid \<and> DcSignal rid reply \<in> M"
  proof cases
    case 1
    with assms(2,3) a show ?thesis unfolding success_known_def by blast
  next
    case 2
    moreover have "f h = Some rid" using assms(1) 2(2) unfolding table_inv_def by blast
    ultimately show ?thesis using a assms(4) by blast
  qed
qed

lemma known_drop: "success_known L f t \<Longrightarrow> success_known L (f(h := None)) (receiver_drop h t)"
  by (auto simp: success_known_def)

lemma known_mono: "success_known L f t \<Longrightarrow> L \<subseteq> M \<Longrightarrow> success_known M f t"
  unfolding success_known_def by blast

lemma deliver_leave_keeps:
  assumes "deliver_keeps L p" and "wc_calls p h = Some c" and "removing \<or> pr_slots (wc_table p) h \<noteq> Some OsEmpty"
  shows "deliver_keeps L (deliver_leave removing h c p)"
proof -
  define t where "t = (if removing then reply_remove OsClosed (dc_request_id c) (wc_table p) else wc_table p)"
  have i: "table_inv (dc_ids p) (wc_table p)" "dc_ids p h = Some (dc_request_id c)" "success_known L (dc_ids p) (wc_table p)"
    using assms(1,2) by (simp_all add: deliver_keeps_def)
  have "table_inv (dc_ids p) t \<and> pr_slots t h \<noteq> Some OsEmpty \<and> success_known L (dc_ids p) t"
    using i table_remove [OF i(1), of OsClosed] removed_not_empty [OF i(1) _ i(2), of OsClosed] assms(3)
      known_remove [OF i(1,3) subset_refl, of OsClosed]
    by (cases removing) (simp_all add: t_def)
  then show ?thesis
    using table_drop [of "dc_ids p" t h] known_drop [of L "dc_ids p" t h]
    by (simp add: deliver_keeps_def deliver_leave_def upd_ids flip: t_def)
qed

lemma deliver_mono: "deliver_keeps L p \<Longrightarrow> L \<subseteq> M \<Longrightarrow> deliver_keeps M p"
  by (auto simp: deliver_keeps_def intro: known_mono)

lemma deliver_keeps_enter:
  assumes "deliver_keeps L p" and "deliver_enter encode b64 rid subj event start p = (os, p')"
  shows "deliver_keeps L p' \<and> (\<forall>y \<in> set os. deliver_lawful L y)"
proof -
  define h where "h = pr_next (wc_table p)"
  define c where "c ph = \<lparr>dc_request_id = rid, dc_start = start, dc_phase = ph\<rparr>" for ph
  define q where "q ph = p\<lparr>wc_table := reply_insert rid (wc_table p), wc_calls := (wc_calls p)(h \<mapsto> c ph)\<rparr>" for ph
  have i: "table_inv (dc_ids p) (wc_table p)" "success_known L (dc_ids p) (wc_table p)"
    using assms(1) by (simp_all add: deliver_keeps_def)
  have q: "deliver_keeps L (q ph)" for ph
    using table_insert [OF i(1), of rid] known_insert [OF i subset_refl, of rid]
    by (simp add: deliver_keeps_def q_def upd_ids c_def h_def)
  show ?thesis
  proof (cases "encode (DeliverFrame rid (wc_channel_type p) subj (b64 event))")
    case (Inr s)
    with assms(2) have "p' = q (Queueing s)" "os = []"
      by (auto simp: deliver_enter_def Let_def q_def c_def h_def)
    with q show ?thesis by simp
  next
    case (Inl e)
    have "wc_calls p h = None"
      using i(1) by (auto simp: table_inv_def h_def dom_def)
    then have "deliver_leave True h (c Awaiting) (q Awaiting) = deliver_leave True h (c Awaiting) (p\<lparr>wc_table := reply_insert rid (wc_table p)\<rparr>)"
      by (simp add: deliver_leave_def q_def fun_upd_idem)
    with Inl assms(2) have "p' = deliver_leave True h (c Awaiting) (q Awaiting)" "os = [(rid, Inl (DeliveryFailed (''encode deliver frame: '' @ e)))]"
      by (simp_all add: deliver_enter_def Let_def c_def h_def)
    with deliver_leave_keeps [OF q [of Awaiting], of h "c Awaiting" True] show ?thesis
      by (simp add: q_def deliver_lawful_def)
  qed
qed

lemma deliver_keeps_queued:
  assumes "deliver_keeps L p" and "deliver_queued h ok p = (os, p')"
  shows "deliver_keeps L p' \<and> (\<forall>y \<in> set os. deliver_lawful L y)"
proof (cases "wc_calls p h")
  case (Some c)
  have "dc_ids (p\<lparr>wc_calls := (wc_calls p)(h \<mapsto> c\<lparr>dc_phase := Awaiting\<rparr>)\<rparr>) = dc_ids p"
    using Some by (auto simp: upd_ids)
  then have "deliver_keeps L (p\<lparr>wc_calls := (wc_calls p)(h \<mapsto> c\<lparr>dc_phase := Awaiting\<rparr>)\<rparr>)"
    using assms(1) by (simp add: deliver_keeps_def)
  with Some assms deliver_leave_keeps [OF assms(1) Some, of True] show ?thesis
    by (auto simp: deliver_queued_def deliver_lawful_def split: call_phase.splits if_splits)
qed (use assms in \<open>auto simp: deliver_queued_def\<close>)

lemma deliver_keeps_ready:
  assumes "deliver_keeps L p" and "deliver_ready h time_up now p = (os, p')"
  shows "deliver_keeps L p' \<and> (\<forall>y \<in> set os. deliver_lawful L y)"
proof (cases "wc_calls p h")
  case (Some c)
  note l = deliver_leave_keeps [OF assms(1) Some]
  show ?thesis
  proof (cases "dc_phase c")
    case Awaiting
    note r = assms(2) [unfolded deliver_ready_def Some option.case Awaiting call_phase.case]
    consider (empty) "pr_slots (wc_table p) h = None \<or> pr_slots (wc_table p) h = Some OsEmpty"
      | (sent) reply where "pr_slots (wc_table p) h = Some (OsSent reply)" | (closed) "pr_slots (wc_table p) h = Some OsClosed"
      by (metis oneshot.exhaust option.exhaust)
    then show ?thesis
    proof cases
      case empty
      with r l [of True] assms(1) show ?thesis by (cases time_up) (auto simp: deliver_lawful_def)
    next
      case sent
      moreover have "\<exists>reply. DcSignal (dc_request_id c) reply \<in> L \<and> wd_success reply" if "wd_success reply"
        using assms(1) sent that Some by (fastforce simp: deliver_keeps_def success_known_def)
      ultimately show ?thesis
        using r l [of False] by (auto simp: deliver_lawful_def reply_receipt_def)
    next
      case closed
      with r l [of False] show ?thesis by (auto simp: deliver_lawful_def)
    qed
  qed (use assms Some in \<open>simp add: deliver_ready_def\<close>)
qed (use assms in \<open>auto simp: deliver_ready_def\<close>)

lemma deliver_keeps_signal:
  "deliver_keeps L p \<Longrightarrow> deliver_keeps (insert (DcSignal rid reply) L) (snd (deliver_signal rid reply p))"
  using table_remove [of "dc_ids p" "wc_table p" "OsSent reply" rid]
    known_remove [of "dc_ids p" "wc_table p" L "insert (DcSignal rid reply) L" "OsSent reply" rid]
  by (auto simp: deliver_keeps_def deliver_signal_def)

lemma deliver_keeps_cancel: "deliver_keeps L p \<Longrightarrow> deliver_keeps L (ws_channel_cancel_all reason p)"
  using table_drain [of "dc_ids p" "wc_table p" "\<lparr>wd_success = False, wd_error = Some reason\<rparr>"]
  by (auto simp: deliver_keeps_def ws_channel_cancel_all_def success_known_def split: if_splits)

lemma deliver_lawful_mono: "deliver_lawful L y \<Longrightarrow> L \<subseteq> M \<Longrightarrow> deliver_lawful M y"
  unfolding deliver_lawful_def by (auto split: prod.splits sum.splits)

lemma deliver_step_keeps:
  assumes "deliver_keeps L p" and "deliver_step encode b64 l p = (os, p')"
  shows "deliver_keeps (insert l L) p' \<and> (\<forall>y \<in> set os. deliver_lawful (insert l L) y)"
proof -
  have m: "deliver_keeps L p' \<and> (\<forall>y \<in> set os. deliver_lawful L y) \<Longrightarrow> ?thesis"
    using deliver_mono [of L p' "insert l L"] deliver_lawful_mono [of L _ "insert l L"] by blast
  show ?thesis
  proof (cases l)
    case (DcEnter rid subj event start)
    with assms m show ?thesis by (simp add: deliver_keeps_enter)
  next
    case (DcQueued h ok)
    with assms m show ?thesis by (simp add: deliver_keeps_queued)
  next
    case (DcReady h time_up now)
    with assms m show ?thesis by (simp add: deliver_keeps_ready)
  next
    case (DcSignal rid reply)
    with assms deliver_keeps_signal [OF assms(1), of rid reply] show ?thesis by auto
  next
    case (DcCancelAll reason)
    with assms m deliver_keeps_cancel [OF assms(1)] show ?thesis by auto
  qed
qed

interpretation dlv: event_machine "deliver_step encode b64" "\<lambda>p. \<exists>ty tmo. p = ws_channel_with_timeout tmo (ws_channel_new ty)"
  deliver_keeps deliver_lawful
proof unfold_locales
  fix p :: ws_remote_channel
  assume "\<exists>ty tmo. p = ws_channel_with_timeout tmo (ws_channel_new ty)"
  then show "deliver_keeps {} p"
    by (auto simp: deliver_keeps_def ws_channel_with_timeout_def ws_channel_new_def success_known_def)
      (simp_all add: new_reply_table_def table_inv_def)
qed (use deliver_step_keeps deliver_lawful_mono in blast)+

section \<open>Properties\<close>

text \<open>C30. A remote interceptor fails open. Over any interleaving of calls, answers, timeouts, aborts, closed
  queues and cancellations, a call returns its payload unchanged with \<open>Pass\<close>, or exactly what the client
  answered under the request id of that call; nothing else drops or changes an event.\<close>

theorem ws_intercept_fails_open:
  assumes "run_steps (intercept_step encode b64) evs (ws_interceptor_with_timeout tmo (ws_interceptor_new pat)) = (os, p)"
    and "(rid, r, payload') \<in> set os"
  shows "\<exists>subj payload. IcEnter rid subj payload \<in> set evs
    \<and> (r = Pass \<and> payload' = payload
       \<or> (\<exists>reply. IcSignal rid reply \<in> set evs \<and> action_result (wr_action reply) payload = (r, payload')))"
proof -
  have "intercept_lawful (set evs) (rid, r, payload')"
    using icpt.run_lawful [OF _ assms(1)] assms(2) by blast
  then show ?thesis by (simp add: intercept_lawful_def)
qed

definition demo_intercepts :: "intercept_event list" where
  "demo_intercepts =
     [IcEnter ''r1'' ''a.b'' [1], IcEnter ''r2'' ''a.b'' [2], IcQueued 0 True, IcQueued 1 True,
      IcSignal ''r2'' \<lparr>wr_action = WsModify [9], wr_error = None\<rparr>, IcReady 1 False, IcCancelAll ''gone'', IcReady 0 False]"

lemma demo_intercepts_run:
  "fst (run_steps (intercept_step (\<lambda>_. Inr ''f'') (\<lambda>_. ''b'')) demo_intercepts (ws_interceptor_with_timeout 5 (ws_interceptor_new ''a.>'')))
     = [(''r2'', Modified, [9]), (''r1'', Pass, [1])]"
  by (simp add: demo_intercepts_def ws_interceptor_with_timeout_def ws_interceptor_new_def new_reply_table_def
      intercept_enter_def MAX_PENDING_INTERCEPTS_def reply_insert_def intercept_queued_def intercept_signal_def
      intercept_ready_def reply_remove_def oneshot_put_def intercept_leave_def receiver_drop_def
      ws_interceptor_cancel_all_def reply_drain_def Let_def)

theorem ws_intercept_fails_open_witness:
  "\<exists>reply. IcSignal ''r2'' reply \<in> set demo_intercepts \<and> action_result (wr_action reply) [2] = (Modified, [9])"
proof -
  obtain os p where r: "run_steps (intercept_step (\<lambda>_. Inr ''f'') (\<lambda>_. ''b'')) demo_intercepts
      (ws_interceptor_with_timeout 5 (ws_interceptor_new ''a.>'')) = (os, p)" by (rule prod.exhaust)
  then have "(''r2'', Modified, [9]) \<in> set os" using demo_intercepts_run by simp
  from ws_intercept_fails_open [OF r this] show ?thesis by (auto simp: demo_intercepts_def)
qed

text \<open>C31. The pending map of a remote interceptor holds exactly the calls in flight that are unanswered, at
  most 1024 of them, whatever happened before; so nothing leaks. And no call is stuck: once its frame is
  queued, it returns at its timeout and is gone.\<close>

theorem ws_intercept_pending_exact:
  assumes "run_steps (intercept_step encode b64) evs (ws_interceptor_with_timeout tmo (ws_interceptor_new pat)) = (os, p)"
  shows "length (pr_pending (wi_table p)) \<le> 1024 \<and> distinct (map fst (pr_pending (wi_table p)))
    \<and> (\<forall>rid h. map_of (pr_pending (wi_table p)) rid = Some h \<longleftrightarrow>
          (\<exists>c. wi_calls p h = Some c \<and> ic_request_id c = rid \<and> pr_slots (wi_table p) h = Some OsEmpty))
    \<and> (\<forall>h c. wi_calls p h = Some c \<longrightarrow>
          (\<exists>r payload p'. intercept_ready h True (snd (intercept_queued h True p)) = ([(ic_request_id c, r, payload)], p')
             \<and> wi_calls p' h = None))"
proof -
  from icpt.run_lawful [OF _ assms] have k: "intercept_keeps (set evs) p" by blast
  note t = keepsD(1) [OF k, unfolded table_inv_def]
  have "\<exists>r payload p'. intercept_ready h True (snd (intercept_queued h True p)) = ([(ic_request_id c, r, payload)], p')
      \<and> wi_calls p' h = None" if c: "wi_calls p h = Some c" for h c
  proof -
    obtain c' where q: "wi_calls (snd (intercept_queued h True p)) h = Some c'" "ic_phase c' = Awaiting"
        "ic_request_id c' = ic_request_id c"
      using c by (cases "ic_phase c") (auto simp: intercept_queued_def)
    show ?thesis
      using q by (auto simp: intercept_ready_def intercept_leave_def split: option.splits oneshot.splits prod.splits)
  qed
  with t keepsD(2) [OF k] show ?thesis by (auto simp: MAX_PENDING_INTERCEPTS_def simp del: map_of_eq_Some_iff)
qed

theorem ws_intercept_pending_exact_witness:
  "\<exists>r payload. fst (intercept_ready 0 True (snd (intercept_queued 0 True (snd (run_steps (intercept_step (\<lambda>_. Inr ''f'') (\<lambda>_. ''b''))
      [IcEnter ''r1'' ''a.b'' [1]] (ws_interceptor_with_timeout 5 (ws_interceptor_new ''a.>'')))))))
     = [(''r1'', r, payload)]"
proof -
  obtain os p where r: "run_steps (intercept_step (\<lambda>_. Inr ''f'') (\<lambda>_. ''b'')) [IcEnter ''r1'' ''a.b'' [1]]
      (ws_interceptor_with_timeout 5 (ws_interceptor_new ''a.>'')) = (os, p)" by (rule prod.exhaust)
  then have "wi_calls p 0 = Some \<lparr>ic_request_id = ''r1'', ic_payload = [1], ic_phase = Queueing ''f''\<rparr>"
    by (auto simp: ws_interceptor_with_timeout_def ws_interceptor_new_def new_reply_table_def intercept_enter_def
        MAX_PENDING_INTERCEPTS_def reply_insert_def Let_def)
  with ws_intercept_pending_exact [OF r] r show ?thesis by fastforce
qed

text \<open>C32. A delivery over a WebSocket succeeds only when the client acknowledged it under the request id of
  that delivery. Every other end, also the loss of the connection, is an error that the retry task counts
  as transient.\<close>

theorem ws_delivery_acknowledged:
  assumes "run_steps (deliver_step encode b64) evs (ws_channel_with_timeout tmo (ws_channel_new ty)) = (os, p)"
    and "(rid, res) \<in> set os"
  shows "(\<forall>receipt. res = Inr receipt \<longrightarrow> (\<exists>reply. DcSignal rid reply \<in> set evs \<and> wd_success reply))
    \<and> (outcome_of_delivery res = Inr () \<or> (\<exists>m. outcome_of_delivery res = Inl (Transient m)))"
proof -
  have "deliver_lawful (set evs) (rid, res)"
    using dlv.run_lawful [OF _ assms(1)] assms(2) by blast
  then show ?thesis
    by (auto simp: deliver_lawful_def outcome_of_delivery_def split: sum.splits delivery_error.splits)
qed

definition demo_deliveries :: "deliver_event list" where
  "demo_deliveries =
     [DcEnter ''d1'' ''a.b'' [1] 5000, DcEnter ''d2'' ''a.b'' [2] 6000, DcQueued 0 True, DcQueued 1 True,
      DcSignal ''d1'' \<lparr>wd_success = True, wd_error = None\<rparr>, DcReady 0 False (9000, 9000), DcReady 1 True (0, 0)]"

lemma demo_duration: "duration_debug 30000000000 = ''30s''"
  by (simp add: duration_debug_def decimal_text_def show_nat.simps digit_char_def char_of_def bit_0)

lemma demo_deliveries_run:
  "fst (run_steps (deliver_step (\<lambda>_. Inr ''f'') (\<lambda>_. ''b'')) demo_deliveries (ws_channel_with_timeout 30000000000 (ws_channel_new ''t'')))
     = [(''d1'', Inr \<lparr>delivered_at = 0, latency_us = 4\<rparr>),
        (''d2'', Inl (DeliveryFailed ''remote delivery timed out after 30s''))]"
  by (simp add: demo_deliveries_def ws_channel_with_timeout_def ws_channel_new_def new_reply_table_def
      deliver_enter_def reply_insert_def deliver_queued_def deliver_signal_def deliver_ready_def reply_remove_def
      oneshot_put_def deliver_leave_def receiver_drop_def reply_receipt_def Let_def as_millis_def demo_duration)

theorem ws_delivery_acknowledged_witness:
  "\<exists>reply. DcSignal ''d1'' reply \<in> set demo_deliveries \<and> wd_success reply"
proof -
  obtain os p where r: "run_steps (deliver_step (\<lambda>_. Inr ''f'') (\<lambda>_. ''b'')) demo_deliveries
      (ws_channel_with_timeout 30000000000 (ws_channel_new ''t'')) = (os, p)" by (rule prod.exhaust)
  then have "(''d1'', Inr \<lparr>delivered_at = 0, latency_us = 4\<rparr>) \<in> set os" using demo_deliveries_run by simp
  from ws_delivery_acknowledged [OF r this] show ?thesis by blast
qed

end
