(* ===== verification/Ws_Transport.thy ===== *)
theory Ws_Transport
  imports Ws_Remote
begin

text \<open>
  The WebSocket transport (\<open>transport/ws.rs\<close>): the operations a client may ask for, the loop that
  serves a connection and the cleanup when it ends. A connection owns its subscriptions, the delivery
  channels and interceptors it registered, and the queue of outgoing frames. The proxies are shared
  with the bus, so they live in a store and are known by their address; their own steps and the
  forwarder tasks are inputs of the connection like the frames of the client. The socket, JSON and
  base64 are parameters.
\<close>

section \<open>Data\<close>

definition MAX_SUBSCRIPTIONS_PER_CONNECTION :: nat where "MAX_SUBSCRIPTIONS_PER_CONNECTION = 64"
definition MAX_INTERCEPTORS_PER_CONNECTION :: nat where "MAX_INTERCEPTORS_PER_CONNECTION = 16"
definition MAX_CHANNEL_TYPES_PER_CONNECTION :: nat where "MAX_CHANNEL_TYPES_PER_CONNECTION = 16"
definition MAX_CHANNEL_TYPE_NAME_LENGTH :: nat where "MAX_CHANNEL_TYPE_NAME_LENGTH = 128"
definition RESERVED_CHANNEL_TYPE_NAMES :: "string list" where
  "RESERVED_CHANNEL_TYPE_NAMES = [''webhook'', ''websocket'', ''in_process'', []]"
definition MAX_FRAME_SIZE :: nat where "MAX_FRAME_SIZE = 2097152"
definition FORWARD_CAPACITY :: nat where "FORWARD_CAPACITY = 256"

datatype wire_intercept_action = WirePass | WireDrop | WireModify string

datatype client_operation =
    Publish string string "string option"
  | Subscribe string u32 "string option"
  | Unsubscribe string "string option"
  | Request string string u64 "string option"
  | RegisterChannelType string "string option"
  | DeliverResult string bool "string option"
  | RegisterInterceptor string u32 "u64 option" "string option"
  | InterceptResult string wire_intercept_action

datatype server_message =
    SmEvent string string "string option" string
  | SmPublished u64 "string option"
  | SmReplyResult string "string option"
  | SmSubscribed string "string option"
  | SmError string "string option"
  | SmChannelRegistered string "string option"
  | SmDeliver string string string string
  | SmInterceptorRegistered string "string option"
  | SmIntercept string string string

definition default_timeout_ms :: u64 where "default_timeout_ms = DEFAULT_TIMEOUT_MS"

record connection_subscription =
  cs_pattern :: string

record registered_remote_channel =
  rc_channel_type :: string
  rc_proxy :: nat

record registered_remote_interceptor =
  rri_pattern :: string
  rri_bus_id :: string
  rri_proxy :: nat

text \<open>The three maps are association lists without repeated keys, in an order that stands for the one
  of the \<open>HashMap\<close>; a forwarder task is known by its subscription and receives from a channel.\<close>

record ('s, 'j, 'tx, 'i, 'w) ws_conn =
  wsc_bus :: "('s, 'j, 'tx, 'i, 'w) engine"
  wsc_subscriptions :: "(string \<times> connection_subscription) list"
  wsc_remote_channels :: "(string \<times> registered_remote_channel) list"
  wsc_remote_interceptors :: "(string \<times> registered_remote_interceptor) list"
  wsc_forwarders :: "(string \<times> 'tx) list"
  wsc_forward :: "string list"
  wsc_channel_store :: "nat \<rightharpoonup> ws_remote_channel"
  wsc_interceptor_store :: "nat \<rightharpoonup> ws_remote_interceptor"
  wsc_next_proxy :: nat

record ('s, 'j, 'tx, 'i, 'w) ws_env =
  wse_bus :: "('s, 'j, 'tx, 'i, 'w) engine_env"
  wse_wait :: "'tx \<Rightarrow> duration \<Rightarrow> ('s, 'j, 'tx, 'i, 'w) engine \<Rightarrow> recv_outcome \<times> ('s, 'j, 'tx, 'i, 'w) engine"
  wse_parse :: "string \<Rightarrow> string + client_operation"
  wse_encode :: "server_message \<Rightarrow> string option"
  wse_frame :: "ws_frame \<Rightarrow> string + string"
  wse_b64_encode :: "bytes \<Rightarrow> string"
  wse_b64_decode :: "string \<Rightarrow> string + bytes"
  wse_send :: "string \<Rightarrow> 'w \<Rightarrow> (string + unit) \<times> 'w"
  wse_channel :: "nat \<Rightarrow> ('j, 'w) delivery_channel"
  wse_interceptor :: "nat \<Rightarrow> 'i"
  wse_auth_open :: bool
  wse_dev_mode :: bool

abbreviation wsc_world :: "('s, 'j, 'tx, 'i, 'w) ws_conn \<Rightarrow> 'w" where
  "wsc_world st \<equiv> en_world (wsc_bus st)"

section \<open>Sending and checks\<close>

definition ws_send ::
  "('s, 'j, 'tx, 'i, 'w) ws_env \<Rightarrow> string \<Rightarrow> ('s, 'j, 'tx, 'i, 'w) ws_conn
   \<Rightarrow> (event_bus_error + unit) \<times> ('s, 'j, 'tx, 'i, 'w) ws_conn" where
  "ws_send E text st =
     (case wse_send E text (wsc_world st) of
        (r, w) \<Rightarrow> (map_err (\<lambda>e. Internal (''WebSocket send failed: '' @ e)) r,
                   st\<lparr>wsc_bus := (wsc_bus st)\<lparr>en_world := w\<rparr>\<rparr>))"

text \<open>\<open>if let Ok(json) = to_string(&msg) { ws_send(sender, json).await?; }\<close>\<close>

definition ws_respond ::
  "('s, 'j, 'tx, 'i, 'w) ws_env \<Rightarrow> server_message \<Rightarrow> ('s, 'j, 'tx, 'i, 'w) ws_conn
   \<Rightarrow> (event_bus_error + unit) \<times> ('s, 'j, 'tx, 'i, 'w) ws_conn" where
  "ws_respond E msg st = (case wse_encode E msg of None \<Rightarrow> (Inr (), st) | Some json \<Rightarrow> ws_send E json st)"

definition ws_decode_payload :: "('s, 'j, 'tx, 'i, 'w) ws_env \<Rightarrow> string \<Rightarrow> event_bus_error + bytes" where
  "ws_decode_payload E payload =
     map_err (\<lambda>msg. if contains_str msg ''exceeds limit'' then PayloadTooLarge msg else Internal msg)
       (validate_and_decode_payload (wse_b64_decode E) payload)"

definition refuse_if_open :: "('s, 'j, 'tx, 'i, 'w) ws_env \<Rightarrow> string \<Rightarrow> event_bus_error + unit" where
  "refuse_if_open E op_name =
     (if wse_auth_open E \<and> \<not> wse_dev_mode E then
        Inl (Internal (op_name @ '' requires a real Authenticator (or WebSocketServer::unsafe_allow_ws_dev_mode() for tests) ''
          @ [CHR 0xE2, CHR 0x80, CHR 0x94] @ '' AUTH_REQUIRED''))
      else Inr ())"

text \<open>On UTF-8 bytes: the ASCII controls, the controls U+0080 to U+009F, and Unicode white space.\<close>

definition has_control_or_space :: "string \<Rightarrow> bool" where
  "has_control_or_space s \<longleftrightarrow>
     list_ex (\<lambda>c. of_char c < (0x20 :: nat) \<or> of_char c = (0x7F :: nat)) s
     \<or> list_ex (\<lambda>n. contains_str s [CHR 0xC2, char_of (n :: nat)]) [0x80..<0xA0]
     \<or> list_ex (contains_str s) unicode_white_space"

definition validate_channel_type :: "string \<Rightarrow> event_bus_error + unit" where
  "validate_channel_type channel_type =
     (if channel_type = [] then Inl (InvalidSubject ''channel_type must not be empty'')
      else if length channel_type > MAX_CHANNEL_TYPE_NAME_LENGTH then
        Inl (InvalidSubject (''channel_type length '' @ show_nat (length channel_type) @ '' exceeds maximum ''
          @ show_nat MAX_CHANNEL_TYPE_NAME_LENGTH))
      else if list_ex (\<lambda>c. c = CHR 0x00) channel_type \<or> has_control_or_space channel_type then
        Inl (InvalidSubject ''channel_type contains control characters or whitespace'')
      else if channel_type \<in> set RESERVED_CHANNEL_TYPE_NAMES then
        Inl (InvalidSubject (''channel_type '' @ quoted channel_type @ '' is reserved''))
      else Inr ())"

section \<open>Operations of a client\<close>

definition ws_publish ::
  "('s, 'j, 'tx, 'i, 'w) ws_env \<Rightarrow> string \<Rightarrow> string \<Rightarrow> string option \<Rightarrow> ('s, 'j, 'tx, 'i, 'w) ws_conn
   \<Rightarrow> (event_bus_error + unit) \<times> ('s, 'j, 'tx, 'i, 'w) ws_conn" where
  "ws_publish E subj payload correlation_id st =
     (case ws_decode_payload E payload of
        Inl e \<Rightarrow> (Inl e, st)
      | Inr decoded \<Rightarrow>
          (case bus_publish (wse_bus E) None subj decoded (wsc_bus st) of
             (Inl e, en) \<Rightarrow> (Inl e, st\<lparr>wsc_bus := en\<rparr>)
           | (Inr seq, en) \<Rightarrow> ws_respond E (SmPublished seq correlation_id) (st\<lparr>wsc_bus := en\<rparr>)))"

definition ws_subscribe_opts :: "u32 \<Rightarrow> 'j subscribe_opts" where
  "ws_subscribe_opts prio =
     \<lparr>so_priority = prio, so_mode = Async, so_channel = WebSocket, so_timeout = from_secs 5, so_filter = None\<rparr>"

definition ws_subscribe ::
  "('s, 'j, 'tx, 'i, 'w) ws_env \<Rightarrow> string \<Rightarrow> u32 \<Rightarrow> string option \<Rightarrow> ('s, 'j, 'tx, 'i, 'w) ws_conn
   \<Rightarrow> (event_bus_error + unit) \<times> ('s, 'j, 'tx, 'i, 'w) ws_conn" where
  "ws_subscribe E pat prio correlation_id st =
     (case validate_remote_pattern pat of
        Inl e \<Rightarrow> (Inl (InvalidSubject (remote_pattern_error_text e)), st)
      | Inr _ \<Rightarrow>
        if length (wsc_subscriptions st) \<ge> MAX_SUBSCRIPTIONS_PER_CONNECTION then
          (Inl (Internal (''Subscription limit reached ('' @ show_nat MAX_SUBSCRIPTIONS_PER_CONNECTION
             @ '' max per connection)'')), st)
        else
          (case bus_subscribe (wse_bus E) pat (ws_subscribe_opts prio) (wsc_bus st) of
             (Inl e, en) \<Rightarrow> (Inl e, st\<lparr>wsc_bus := en\<rparr>)
           | (Inr sub, en) \<Rightarrow>
               ws_respond E (SmSubscribed (sub_id sub) correlation_id)
                 (st\<lparr>wsc_bus := en,
                     wsc_forwarders := wsc_forwarders st @ [(sub_id sub, sub_rx sub)],
                     wsc_subscriptions := reg_insert (sub_id sub) \<lparr>cs_pattern = pat\<rparr> (wsc_subscriptions st)\<rparr>)))"

definition abort_forwarder :: "string \<Rightarrow> ('s, 'j, 'tx, 'i, 'w) ws_conn \<Rightarrow> ('s, 'j, 'tx, 'i, 'w) ws_conn" where
  "abort_forwarder i st = st\<lparr>wsc_forwarders := filter (\<lambda>p. fst p \<noteq> i) (wsc_forwarders st)\<rparr>"

definition on_interceptor ::
  "(ws_remote_interceptor \<Rightarrow> ws_remote_interceptor) \<Rightarrow> nat \<Rightarrow> ('s, 'j, 'tx, 'i, 'w) ws_conn
   \<Rightarrow> ('s, 'j, 'tx, 'i, 'w) ws_conn" where
  "on_interceptor f h st =
     st\<lparr>wsc_interceptor_store := (wsc_interceptor_store st)(h := map_option f (wsc_interceptor_store st h))\<rparr>"

definition on_channel ::
  "(ws_remote_channel \<Rightarrow> ws_remote_channel) \<Rightarrow> nat \<Rightarrow> ('s, 'j, 'tx, 'i, 'w) ws_conn
   \<Rightarrow> ('s, 'j, 'tx, 'i, 'w) ws_conn" where
  "on_channel f h st =
     st\<lparr>wsc_channel_store := (wsc_channel_store st)(h := map_option f (wsc_channel_store st h))\<rparr>"

definition ws_unsubscribe ::
  "string \<Rightarrow> ('s, 'j, 'tx, 'i, 'w) ws_conn \<Rightarrow> (event_bus_error + unit) \<times> ('s, 'j, 'tx, 'i, 'w) ws_conn" where
  "ws_unsubscribe i st =
     (case map_of (wsc_subscriptions st) i of
        Some conn_sub \<Rightarrow>
          (let st = abort_forwarder i
                 (st\<lparr>wsc_subscriptions := filter (\<lambda>p. fst p \<noteq> i) (wsc_subscriptions st)\<rparr>) in
           case bus_unsubscribe i (wsc_bus st) of (r, en) \<Rightarrow> (r, st\<lparr>wsc_bus := en\<rparr>))
      | None \<Rightarrow>
          (case map_of (wsc_remote_interceptors st) i of
             Some entry \<Rightarrow>
               (let st = on_interceptor (ws_interceptor_cancel_all ''interceptor unregistered'') (rri_proxy entry)
                      (st\<lparr>wsc_remote_interceptors := filter (\<lambda>p. fst p \<noteq> i) (wsc_remote_interceptors st)\<rparr>) in
                case bus_unsubscribe (rri_bus_id entry) (wsc_bus st) of (r, en) \<Rightarrow> (r, st\<lparr>wsc_bus := en\<rparr>))
           | None \<Rightarrow> (Inr (), st)))"

definition ws_request ::
  "('s, 'j, 'tx, 'i, 'w) ws_env \<Rightarrow> string \<Rightarrow> string \<Rightarrow> u64 \<Rightarrow> string option \<Rightarrow> ('s, 'j, 'tx, 'i, 'w) ws_conn
   \<Rightarrow> (event_bus_error + unit) \<times> ('s, 'j, 'tx, 'i, 'w) ws_conn" where
  "ws_request E subj payload timeout_ms correlation_id st =
     (case ws_decode_payload E payload of
        Inl e \<Rightarrow> (Inl e, st)
      | Inr decoded \<Rightarrow>
          (case request (wse_bus E) (wse_wait E) None subj decoded (from_millis timeout_ms) (wsc_bus st) of
             (Inr reply, en) \<Rightarrow>
               ws_respond E (SmReplyResult (wse_b64_encode E reply) correlation_id) (st\<lparr>wsc_bus := en\<rparr>)
           | (Inl e, en) \<Rightarrow> ws_respond E (SmError (event_bus_error_text e) correlation_id) (st\<lparr>wsc_bus := en\<rparr>)))"

definition ws_register_channel_type ::
  "('s, 'j, 'tx, 'i, 'w) ws_env \<Rightarrow> string \<Rightarrow> string option \<Rightarrow> ('s, 'j, 'tx, 'i, 'w) ws_conn
   \<Rightarrow> (event_bus_error + unit) \<times> ('s, 'j, 'tx, 'i, 'w) ws_conn" where
  "ws_register_channel_type E channel_type correlation_id st =
     (case andthen (refuse_if_open E ''register_channel_type'') (\<lambda>_. validate_channel_type channel_type) of
        Inl e \<Rightarrow> (Inl e, st)
      | Inr _ \<Rightarrow>
        if length (wsc_remote_channels st) \<ge> MAX_CHANNEL_TYPES_PER_CONNECTION then
          (Inl (Internal (''channel type limit reached ('' @ show_nat MAX_CHANNEL_TYPES_PER_CONNECTION
             @ '' max per WS connection)'')), st)
        else if map_of (wsc_remote_channels st) channel_type \<noteq> None then
          (Inl (InvalidSubject (''channel type '' @ quoted channel_type @ '' is already registered on this connection'')), st)
        else
          let h = wsc_next_proxy st;
              st = st\<lparr>wsc_channel_store := (wsc_channel_store st)(h \<mapsto> ws_channel_new channel_type),
                      wsc_next_proxy := Suc h\<rparr> in
          case bus_register_channel_type channel_type (wse_channel E h) (wsc_bus st) of
            (Inl e, en) \<Rightarrow> (Inl e, st\<lparr>wsc_bus := en\<rparr>)
          | (Inr _, en) \<Rightarrow>
              ws_respond E (SmChannelRegistered channel_type correlation_id)
                (st\<lparr>wsc_bus := en,
                    wsc_remote_channels := reg_insert channel_type \<lparr>rc_channel_type = channel_type, rc_proxy = h\<rparr>
                      (wsc_remote_channels st)\<rparr>))"

text \<open>Routing an answer to the first proxy that waits for it.\<close>

fun signal_first :: "('p \<Rightarrow> bool \<times> 'p) \<Rightarrow> nat list \<Rightarrow> (nat \<rightharpoonup> 'p) \<Rightarrow> bool \<times> (nat \<rightharpoonup> 'p)" where
  "signal_first signal [] store = (False, store)"
| "signal_first signal (h # hs) store =
     (case store h of
        None \<Rightarrow> signal_first signal hs store
      | Some p \<Rightarrow> (case signal p of (signaled, p') \<Rightarrow>
          if signaled then (True, store(h \<mapsto> p')) else signal_first signal hs store))"

definition ws_deliver_result ::
  "string \<Rightarrow> bool \<Rightarrow> string option \<Rightarrow> ('s, 'j, 'tx, 'i, 'w) ws_conn
   \<Rightarrow> (event_bus_error + unit) \<times> ('s, 'j, 'tx, 'i, 'w) ws_conn" where
  "ws_deliver_result rid success err st =
     (Inr (), st\<lparr>wsc_channel_store := snd (signal_first (deliver_signal rid \<lparr>wd_success = success, wd_error = err\<rparr>)
        (map (rc_proxy \<circ> snd) (wsc_remote_channels st)) (wsc_channel_store st))\<rparr>)"

definition proxy_timeout :: "duration option \<Rightarrow> duration option" where
  "proxy_timeout engine_timeout =
     map_option (\<lambda>d. max d (from_millis 100)) (map_option (\<lambda>d. d - from_millis 250) engine_timeout)"

definition ws_register_interceptor ::
  "('s, 'j, 'tx, 'i, 'w) ws_env \<Rightarrow> string \<Rightarrow> u32 \<Rightarrow> u64 option \<Rightarrow> string option \<Rightarrow> ('s, 'j, 'tx, 'i, 'w) ws_conn
   \<Rightarrow> (event_bus_error + unit) \<times> ('s, 'j, 'tx, 'i, 'w) ws_conn" where
  "ws_register_interceptor E pat prio timeout_ms correlation_id st =
     (case andthen (refuse_if_open E ''register_interceptor'')
             (\<lambda>_. map_err (\<lambda>e. InvalidSubject (remote_pattern_error_text e)) (validate_remote_pattern pat)) of
        Inl e \<Rightarrow> (Inl e, st)
      | Inr _ \<Rightarrow>
        let effective_priority = clamp_remote_interceptor_priority prio;
            clamped_timeout_ms = clamp_remote_interceptor_timeout timeout_ms in
        if length (wsc_remote_interceptors st) \<ge> MAX_INTERCEPTORS_PER_CONNECTION then
          (Inl (Internal (''interceptor limit reached ('' @ show_nat MAX_INTERCEPTORS_PER_CONNECTION
             @ '' max per WS connection)'')), st)
        else
          let engine_timeout = map_option from_millis clamped_timeout_ms;
              proxy = (case proxy_timeout engine_timeout of
                         None \<Rightarrow> ws_interceptor_new pat
                       | Some t \<Rightarrow> ws_interceptor_with_timeout t (ws_interceptor_new pat));
              h = wsc_next_proxy st;
              st = st\<lparr>wsc_interceptor_store := (wsc_interceptor_store st)(h \<mapsto> proxy), wsc_next_proxy := Suc h\<rparr> in
          case bus_intercept (wse_bus E) pat effective_priority (wse_interceptor E h) engine_timeout (wsc_bus st) of
            (Inl e, en) \<Rightarrow> (Inl e, st\<lparr>wsc_bus := en\<rparr>)
          | (Inr bus_id, en) \<Rightarrow>
              ws_respond E (SmInterceptorRegistered bus_id correlation_id)
                (st\<lparr>wsc_bus := en,
                    wsc_remote_interceptors := reg_insert bus_id \<lparr>rri_pattern = pat, rri_bus_id = bus_id, rri_proxy = h\<rparr>
                      (wsc_remote_interceptors st)\<rparr>))"

definition wire_action :: "('s, 'j, 'tx, 'i, 'w) ws_env \<Rightarrow> wire_intercept_action \<Rightarrow> ws_intercept_action option" where
  "wire_action E action =
     (case action of
        WirePass \<Rightarrow> Some WsPass
      | WireDrop \<Rightarrow> Some WsDrop
      | WireModify payload \<Rightarrow>
          (case wse_b64_decode E payload of Inr b \<Rightarrow> Some (WsModify b) | Inl _ \<Rightarrow> None))"

definition ws_intercept_result ::
  "('s, 'j, 'tx, 'i, 'w) ws_env \<Rightarrow> string \<Rightarrow> wire_intercept_action \<Rightarrow> ('s, 'j, 'tx, 'i, 'w) ws_conn
   \<Rightarrow> (event_bus_error + unit) \<times> ('s, 'j, 'tx, 'i, 'w) ws_conn" where
  "ws_intercept_result E rid action st =
     (case wire_action E action of
        None \<Rightarrow> (Inr (), st)
      | Some parsed_action \<Rightarrow>
          (Inr (), st\<lparr>wsc_interceptor_store :=
             snd (signal_first (intercept_signal rid \<lparr>wr_action = parsed_action, wr_error = None\<rparr>)
               (map (rri_proxy \<circ> snd) (wsc_remote_interceptors st)) (wsc_interceptor_store st))\<rparr>))"

fun handle_operation ::
  "('s, 'j, 'tx, 'i, 'w) ws_env \<Rightarrow> client_operation \<Rightarrow> ('s, 'j, 'tx, 'i, 'w) ws_conn
   \<Rightarrow> (event_bus_error + unit) \<times> ('s, 'j, 'tx, 'i, 'w) ws_conn" where
  "handle_operation E (Publish subj payload cid) st = ws_publish E subj payload cid st"
| "handle_operation E (Subscribe pat prio cid) st = ws_subscribe E pat prio cid st"
| "handle_operation E (Unsubscribe i cid) st = ws_unsubscribe i st"
| "handle_operation E (Request subj payload timeout_ms cid) st = ws_request E subj payload timeout_ms cid st"
| "handle_operation E (RegisterChannelType ty cid) st = ws_register_channel_type E ty cid st"
| "handle_operation E (DeliverResult rid success err) st = ws_deliver_result rid success err st"
| "handle_operation E (RegisterInterceptor pat prio timeout_ms cid) st = ws_register_interceptor E pat prio timeout_ms cid st"
| "handle_operation E (InterceptResult rid action) st = ws_intercept_result E rid action st"

section \<open>Serving a connection\<close>

text \<open>What the loop sees, one at a time: what the socket yields, a queued frame that can be written, and
  between them the other tasks: a forwarder that received an event, and the steps of the proxies.\<close>

datatype ws_input =
    SocketText string
  | SocketInvalidUtf8
  | SocketOther
  | SocketClose
  | SocketError
  | SocketEnd
  | QueuedFrame
  | ForwarderEvent string dispatched_event
  | InterceptorCall nat intercept_event
  | ChannelCall nat deliver_event

text \<open>A forwarder task turns an event into a frame; it waits while the queue is full.\<close>

definition forward_event ::
  "('s, 'j, 'tx, 'i, 'w) ws_env \<Rightarrow> string \<Rightarrow> dispatched_event \<Rightarrow> ('s, 'j, 'tx, 'i, 'w) ws_conn
   \<Rightarrow> ('s, 'j, 'tx, 'i, 'w) ws_conn" where
  "forward_event E i event st =
     (if map_of (wsc_forwarders st) i = None \<or> length (wsc_forward st) \<ge> FORWARD_CAPACITY then st
      else case wse_encode E (SmEvent (de_subject event) (wse_b64_encode E (de_payload event)) (de_reply_subject event) i) of
        None \<Rightarrow> st
      | Some json \<Rightarrow> st\<lparr>wsc_forward := wsc_forward st @ [json]\<rparr>)"

text \<open>The frame that a step of a proxy puts on the queue.\<close>

definition intercept_frames :: "intercept_event \<Rightarrow> ws_remote_interceptor \<Rightarrow> string list" where
  "intercept_frames ev p =
     (case ev of
        IcQueued k True \<Rightarrow>
          (case wi_calls p k of
             Some c \<Rightarrow> (case ic_phase c of Queueing s \<Rightarrow> [s] | Awaiting \<Rightarrow> [])
           | None \<Rightarrow> [])
      | _ \<Rightarrow> [])"

definition deliver_frames :: "deliver_event \<Rightarrow> ws_remote_channel \<Rightarrow> string list" where
  "deliver_frames ev p =
     (case ev of
        DcQueued k True \<Rightarrow>
          (case wc_calls p k of
             Some c \<Rightarrow> (case dc_phase c of Queueing s \<Rightarrow> [s] | Awaiting \<Rightarrow> [])
           | None \<Rightarrow> [])
      | _ \<Rightarrow> [])"

text \<open>Answers and cancellations reach a proxy through the connection only.\<close>

fun intercept_task_event :: "intercept_event \<Rightarrow> bool" where
  "intercept_task_event (IcSignal _ _) = False"
| "intercept_task_event (IcCancelAll _) = False"
| "intercept_task_event _ = True"

fun deliver_task_event :: "deliver_event \<Rightarrow> bool" where
  "deliver_task_event (DcSignal _ _) = False"
| "deliver_task_event (DcCancelAll _) = False"
| "deliver_task_event _ = True"

definition interceptor_call ::
  "('s, 'j, 'tx, 'i, 'w) ws_env \<Rightarrow> nat \<Rightarrow> intercept_event \<Rightarrow> ('s, 'j, 'tx, 'i, 'w) ws_conn
   \<Rightarrow> ('s, 'j, 'tx, 'i, 'w) ws_conn" where
  "interceptor_call E h ev st =
     (case wsc_interceptor_store st h of
        None \<Rightarrow> st
      | Some p \<Rightarrow>
          if intercept_task_event ev \<and> length (wsc_forward st @ intercept_frames ev p) \<le> FORWARD_CAPACITY then
            st\<lparr>wsc_interceptor_store := (wsc_interceptor_store st)
                 (h \<mapsto> snd (intercept_step (wse_frame E) (wse_b64_encode E) ev p)),
               wsc_forward := wsc_forward st @ intercept_frames ev p\<rparr>
          else st)"

definition channel_call ::
  "('s, 'j, 'tx, 'i, 'w) ws_env \<Rightarrow> nat \<Rightarrow> deliver_event \<Rightarrow> ('s, 'j, 'tx, 'i, 'w) ws_conn
   \<Rightarrow> ('s, 'j, 'tx, 'i, 'w) ws_conn" where
  "channel_call E h ev st =
     (case wsc_channel_store st h of
        None \<Rightarrow> st
      | Some p \<Rightarrow>
          if deliver_task_event ev \<and> length (wsc_forward st @ deliver_frames ev p) \<le> FORWARD_CAPACITY then
            st\<lparr>wsc_channel_store := (wsc_channel_store st)
                 (h \<mapsto> snd (deliver_step (wse_frame E) (wse_b64_encode E) ev p)),
               wsc_forward := wsc_forward st @ deliver_frames ev p\<rparr>
          else st)"

text \<open>One text frame: its size, its parse, the operation, and an error message when something failed.
  That the error message could not be sent is ignored.\<close>

definition ws_text_frame ::
  "('s, 'j, 'tx, 'i, 'w) ws_env \<Rightarrow> string \<Rightarrow> ('s, 'j, 'tx, 'i, 'w) ws_conn \<Rightarrow> ('s, 'j, 'tx, 'i, 'w) ws_conn" where
  "ws_text_frame E text st =
     (if length text > MAX_FRAME_SIZE then
        snd (ws_respond E (SmError (''Message too large (max '' @ show_nat MAX_FRAME_SIZE @ '' bytes)'') None) st)
      else
        (case wse_parse E text of
           Inr op \<Rightarrow>
             (case handle_operation E op st of
                (Inr _, st) \<Rightarrow> st
              | (Inl e, st) \<Rightarrow> snd (ws_respond E (SmError (event_bus_error_text e) None) st))
         | Inl e \<Rightarrow> snd (ws_respond E (SmError (''Invalid operation: '' @ e) None) st)))"

text \<open>One turn of the loop; the flag says whether it goes on.\<close>

fun serve_step ::
  "('s, 'j, 'tx, 'i, 'w) ws_env \<Rightarrow> ws_input \<Rightarrow> ('s, 'j, 'tx, 'i, 'w) ws_conn \<Rightarrow> bool \<times> ('s, 'j, 'tx, 'i, 'w) ws_conn" where
  "serve_step E (SocketText text) st = (True, ws_text_frame E text st)"
| "serve_step E SocketInvalidUtf8 st = (True, st)"
| "serve_step E SocketOther st = (True, st)"
| "serve_step E SocketClose st = (False, st)"
| "serve_step E SocketError st = (False, st)"
| "serve_step E SocketEnd st = (False, st)"
| "serve_step E QueuedFrame st =
     (case wsc_forward st of
        [] \<Rightarrow> (True, st)
      | json # rest \<Rightarrow>
          (case ws_send E json (st\<lparr>wsc_forward := rest\<rparr>) of
             (Inr _, st) \<Rightarrow> (True, st)
           | (Inl _, st) \<Rightarrow> (False, st)))"
| "serve_step E (ForwarderEvent i event) st = (True, forward_event E i event st)"
| "serve_step E (InterceptorCall h ev) st = (True, interceptor_call E h ev st)"
| "serve_step E (ChannelCall h ev) st = (True, channel_call E h ev st)"

fun serve_loop ::
  "('s, 'j, 'tx, 'i, 'w) ws_env \<Rightarrow> ws_input list \<Rightarrow> ('s, 'j, 'tx, 'i, 'w) ws_conn \<Rightarrow> ('s, 'j, 'tx, 'i, 'w) ws_conn" where
  "serve_loop E [] st = st"
| "serve_loop E (x # xs) st =
     (case serve_step E x st of (going, st) \<Rightarrow> if going then serve_loop E xs st else st)"

definition accept_connection :: "('s, 'j, 'tx, 'i, 'w) engine \<Rightarrow> ('s, 'j, 'tx, 'i, 'w) ws_conn" where
  "accept_connection en =
     \<lparr>wsc_bus = en, wsc_subscriptions = [], wsc_remote_channels = [], wsc_remote_interceptors = [],
      wsc_forwarders = [], wsc_forward = [], wsc_channel_store = Map.empty, wsc_interceptor_store = Map.empty,
      wsc_next_proxy = 0\<rparr>"

section \<open>The end of a connection\<close>

definition drop_subscription :: "string \<Rightarrow> ('s, 'j, 'tx, 'i, 'w) ws_conn \<Rightarrow> ('s, 'j, 'tx, 'i, 'w) ws_conn" where
  "drop_subscription i st =
     (let st = (case map_of (wsc_subscriptions st) i of
                  None \<Rightarrow> st
                | Some _ \<Rightarrow> abort_forwarder i
                    (st\<lparr>wsc_subscriptions := filter (\<lambda>p. fst p \<noteq> i) (wsc_subscriptions st)\<rparr>)) in
      st\<lparr>wsc_bus := snd (bus_unsubscribe i (wsc_bus st))\<rparr>)"

definition drop_subscriptions :: "('s, 'j, 'tx, 'i, 'w) ws_conn \<Rightarrow> ('s, 'j, 'tx, 'i, 'w) ws_conn" where
  "drop_subscriptions st = fold drop_subscription (map fst (wsc_subscriptions st)) st"

definition cancel_channels :: "('s, 'j, 'tx, 'i, 'w) ws_conn \<Rightarrow> ('s, 'j, 'tx, 'i, 'w) ws_conn" where
  "cancel_channels st =
     fold (on_channel (ws_channel_cancel_all ''WebSocket connection closed''))
       (map (rc_proxy \<circ> snd) (wsc_remote_channels st)) st"

definition drop_interceptors :: "('s, 'j, 'tx, 'i, 'w) ws_conn \<Rightarrow> ('s, 'j, 'tx, 'i, 'w) ws_conn" where
  "drop_interceptors st =
     fold (on_interceptor (ws_interceptor_cancel_all ''WebSocket connection closed''))
       (map (rri_proxy \<circ> snd) (wsc_remote_interceptors st))
       (st\<lparr>wsc_bus := fold (\<lambda>i en. snd (bus_unsubscribe i en)) (map fst (wsc_remote_interceptors st)) (wsc_bus st)\<rparr>)"

definition disconnect_cleanup :: "('s, 'j, 'tx, 'i, 'w) ws_conn \<Rightarrow> ('s, 'j, 'tx, 'i, 'w) ws_conn" where
  "disconnect_cleanup st = drop_interceptors (cancel_channels (drop_subscriptions st))"

definition serve_connection ::
  "('s, 'j, 'tx, 'i, 'w) ws_env \<Rightarrow> ws_input list \<Rightarrow> ('s, 'j, 'tx, 'i, 'w) engine \<Rightarrow> ('s, 'j, 'tx, 'i, 'w) ws_conn" where
  "serve_connection E inputs en = disconnect_cleanup (serve_loop E inputs (accept_connection en))"

text \<open>The headers of the upgrade request whose value is text, the later of two of the same name; a rejected
  client is not served.\<close>

definition captured_headers :: "(string \<times> string option) list \<Rightarrow> (string \<rightharpoonup> string)" where
  "captured_headers hs =
     fold (\<lambda>(name, v) m. case v of None \<Rightarrow> m | Some v \<Rightarrow> m(name \<mapsto> v)) hs Map.empty"

definition ws_connection_task ::
  "('s, 'j, 'tx, 'i, 'w) ws_env \<Rightarrow> ((string \<rightharpoonup> string) \<Rightarrow> string + unit) \<Rightarrow> (string \<times> string option) list
   \<Rightarrow> ws_input list \<Rightarrow> ('s, 'j, 'tx, 'i, 'w) engine \<Rightarrow> ('s, 'j, 'tx, 'i, 'w) engine" where
  "ws_connection_task E authenticate hs inputs en =
     (case authenticate (captured_headers hs) of
        Inl _ \<Rightarrow> en
      | Inr _ \<Rightarrow> wsc_bus (serve_connection E inputs en))"

end
