(* ===== verification/Ws_Registry.thy ===== *)
theory Ws_Registry
  imports Ws_Transport
begin

text \<open>
  What a WebSocket connection keeps true of the bus while it is served, and what it leaves behind. Its
  registrations are exactly the subscriptions and interceptors in its maps, on top of what was there
  when it was accepted; they are capped, none of them can match a reply subject, and the cleanup takes
  all of them away again.
\<close>

section \<open>Registrations on top of a state\<close>

text \<open>The dispatch state \<open>s\<close> is \<open>s0\<close>, whose ids are in \<open>U\<close>, with subscriptions \<open>S\<close> and interceptors \<open>T\<close> added.\<close>

definition on_top :: "string set \<Rightarrow> ('j, 'tx, 'i) dispatch_state \<Rightarrow> string set \<Rightarrow> string set \<Rightarrow> ('j, 'tx, 'i) dispatch_state \<Rightarrow> bool" where
  "on_top U s0 S T s \<longleftrightarrow> finite S \<and> finite T \<and> S \<inter> T = {} \<and> (S \<union> T) \<inter> U = {} \<and> index_wf (ds_index s)
     \<and> (\<exists>M. index_entries (ds_index s) = index_entries (ds_index s0) + M \<and> image_mset entry_id M = mset_set (S \<union> T)
          \<and> (\<forall>e. e \<in># M \<longrightarrow> concrete_first (subject_pattern e) \<and> (entry_id e \<in> T \<longrightarrow> 100 \<le> priority e)))
     \<and> (\<forall>k. k \<notin> S \<longrightarrow> ds_senders s k = ds_senders s0 k) \<and> (\<forall>k. k \<notin> T \<longrightarrow> ds_interceptors s k = ds_interceptors s0 k)"

definition ids_within :: "string set \<Rightarrow> ('j, 'tx, 'i) dispatch_state \<Rightarrow> bool" where
  "ids_within U s \<longleftrightarrow> index_wf (ds_index s) \<and> entry_id ` set_mset (index_entries (ds_index s)) \<subseteq> U
     \<and> dom (ds_senders s) \<subseteq> U \<and> dom (ds_interceptors s) \<subseteq> U"

lemma ready_ids: "ready_engine used en \<longleftrightarrow> ids_within (used (en_world en)) (en_state en)"
  by (simp add: ready_engine_def ids_within_def)

lemma on_top_entries:
  assumes "on_top U s0 S T s"
  obtains M where "index_entries (ds_index s) = index_entries (ds_index s0) + M" "image_mset entry_id M = mset_set (S \<union> T)"
    "\<forall>e. e \<in># M \<longrightarrow> concrete_first (subject_pattern e) \<and> (entry_id e \<in> T \<longrightarrow> 100 \<le> priority e)"
    "entry_id ` set_mset M = S \<union> T"
proof -
  obtain M where M: "index_entries (ds_index s) = index_entries (ds_index s0) + M \<and> image_mset entry_id M = mset_set (S \<union> T)
      \<and> (\<forall>e. e \<in># M \<longrightarrow> concrete_first (subject_pattern e) \<and> (entry_id e \<in> T \<longrightarrow> 100 \<le> priority e))"
    using assms unfolding on_top_def by blast
  then have "set_mset (image_mset entry_id M) = set_mset (mset_set (S \<union> T))" by simp
  then have "entry_id ` set_mset M = S \<union> T" using assms by (simp add: on_top_def)
  with M that show thesis by blast
qed

lemma on_top_other:
  assumes "on_top U s0 S T s"
  shows "dom (ds_senders s) \<subseteq> S \<union> dom (ds_senders s0)" "dom (ds_interceptors s) \<subseteq> T \<union> dom (ds_interceptors s0)"
  using assms unfolding on_top_def dom_def by force+

lemma on_top_refl: "ids_within U s \<Longrightarrow> on_top U s {} {} s"
  by (auto simp: on_top_def ids_within_def intro!: exI [of _ "{#}"])

lemma on_top_empty: "on_top U s0 {} {} s \<Longrightarrow> same_routes s0 s"
  by (auto simp: on_top_def same_routes_def)

lemma on_top_same: "on_top U s0 S T s \<Longrightarrow> same_routes s s' \<Longrightarrow> on_top U s0 S T s'"
  by (auto simp: on_top_def same_routes_def)

lemma on_top_subscribe:
  assumes "on_top U s0 S T s" and "i \<notin> S \<union> T \<union> U" and "index_wf ix"
    and "index_entries ix = add_mset e (index_entries (ds_index s))" and "entry_id e = i" and "concrete_first (subject_pattern e)"
  shows "on_top U s0 (insert i S) T (s\<lparr>ds_index := ix, ds_senders := (ds_senders s)(i \<mapsto> tx)\<rparr>)"
proof -
  obtain M where M: "index_entries (ds_index s) = index_entries (ds_index s0) + M" "image_mset entry_id M = mset_set (S \<union> T)"
      "\<forall>e. e \<in># M \<longrightarrow> concrete_first (subject_pattern e) \<and> (entry_id e \<in> T \<longrightarrow> 100 \<le> priority e)"
    using assms(1) by (auto simp: on_top_def)
  have "image_mset entry_id (add_mset e M) = mset_set (insert i S \<union> T)"
    using M(2) assms(1,2,5) by (simp add: on_top_def)
  then show ?thesis
    using assms M by (auto simp: on_top_def intro!: exI [of _ "add_mset e M"])
qed

lemma on_top_intercept:
  assumes "on_top U s0 S T s" and "i \<notin> S \<union> T \<union> U" and "index_wf ix"
    and "index_entries ix = add_mset e (index_entries (ds_index s))" and "entry_id e = i" and "concrete_first (subject_pattern e)"
    and "100 \<le> priority e"
  shows "on_top U s0 S (insert i T) (s\<lparr>ds_index := ix, ds_interceptors := (ds_interceptors s)(i \<mapsto> ic)\<rparr>)"
proof -
  obtain M where M: "index_entries (ds_index s) = index_entries (ds_index s0) + M" "image_mset entry_id M = mset_set (S \<union> T)"
      "\<forall>e. e \<in># M \<longrightarrow> concrete_first (subject_pattern e) \<and> (entry_id e \<in> T \<longrightarrow> 100 \<le> priority e)"
    using assms(1) by (auto simp: on_top_def)
  have "image_mset entry_id (add_mset e M) = mset_set (S \<union> insert i T)"
    using M(2) assms(1,2,5) by (simp add: on_top_def)
  moreover have "entry_id x \<noteq> i" if "x \<in># M" for x
  proof -
    have "entry_id x \<in># image_mset entry_id M" using that by simp
    then show ?thesis using M(2) assms(1,2) by (auto simp: on_top_def)
  qed
  ultimately show ?thesis
    using assms M by (auto simp: on_top_def intro!: exI [of _ "add_mset e M"])
qed

lemma on_top_unsubscribe:
  assumes "on_top U s0 S T (en_state en)" and "ids_within U s0" and "i \<notin> U"
  shows "on_top U s0 (S - {i}) (T - {i}) (en_state (snd (bus_unsubscribe i en)))"
proof -
  let ?s = "en_state en"
  obtain M where M: "index_entries (ds_index ?s) = index_entries (ds_index s0) + M" "image_mset entry_id M = mset_set (S \<union> T)"
      "\<forall>e. e \<in># M \<longrightarrow> concrete_first (subject_pattern e) \<and> (entry_id e \<in> T \<longrightarrow> 100 \<le> priority e)"
    using assms(1) by (auto simp: on_top_def)
  have w: "index_wf (ds_index ?s)" and f: "finite (S \<union> T)" using assms(1) by (auto simp: on_top_def)
  have "i \<notin> entry_id ` set_mset (index_entries (ds_index s0))" using assms(2,3) by (auto simp: ids_within_def)
  then have "index_entries (index_unsubscribe (ds_index ?s) i) = index_entries (ds_index s0) + filter_mset (\<lambda>e. entry_id e \<noteq> i) M"
    using ix.unsub_law(2) [OF w, of i] M(1) filter_mset_fresh by simp
  moreover have "image_mset entry_id (filter_mset (\<lambda>e. entry_id e \<noteq> i) M) = mset_set (S - {i} \<union> (T - {i}))"
  proof -
    have "image_mset entry_id (filter_mset (\<lambda>e. entry_id e \<noteq> i) M) = filter_mset (\<lambda>k. k \<noteq> i) (image_mset entry_id M)"
      by (simp add: filter_mset_image_mset)
    also have "\<dots> = mset_set {k \<in> S \<union> T. k \<noteq> i}" using M(2) f by simp
    also have "{k \<in> S \<union> T. k \<noteq> i} = S - {i} \<union> (T - {i})" by auto
    finally show ?thesis .
  qed
  moreover have "ds_senders s0 i = None" "ds_interceptors s0 i = None" using assms(2,3) by (auto simp: ids_within_def)
  ultimately show ?thesis
    using assms(1) M(3) ix.unsub_law(1) [OF w, of i]
    by (auto simp: on_top_def bus_unsubscribe_def engine_unsubscribe_def Let_def
        intro!: exI [of _ "filter_mset (\<lambda>e. entry_id e \<noteq> i) M"])
qed

section \<open>The invariant of a connection\<close>

abbreviation sub_keys :: "('s, 'j, 'tx, 'i, 'w) ws_conn \<Rightarrow> string list" where
  "sub_keys st \<equiv> map fst (wsc_subscriptions st)"

abbreviation int_keys :: "('s, 'j, 'tx, 'i, 'w) ws_conn \<Rightarrow> string list" where
  "int_keys st \<equiv> map fst (wsc_remote_interceptors st)"

definition ws_inv :: "('w \<Rightarrow> string set) \<Rightarrow> ('s, 'j, 'tx, 'i, 'w) engine \<Rightarrow> ('s, 'j, 'tx, 'i, 'w) ws_conn \<Rightarrow> bool" where
  "ws_inv used en0 st \<longleftrightarrow>
     on_top (used (en_world en0)) (en_state en0) (set (sub_keys st)) (set (int_keys st)) (en_state (wsc_bus st))
     \<and> set (sub_keys st) \<union> set (int_keys st) \<subseteq> used (wsc_world st) \<and> used (en_world en0) \<subseteq> used (wsc_world st)
     \<and> distinct (sub_keys st) \<and> distinct (int_keys st) \<and> distinct (map fst (wsc_remote_channels st))
     \<and> length (wsc_subscriptions st) \<le> 64 \<and> length (wsc_remote_interceptors st) \<le> 16 \<and> length (wsc_remote_channels st) \<le> 16
     \<and> set (map fst (wsc_forwarders st)) = set (sub_keys st)
     \<and> (\<forall>(i, entry) \<in> set (wsc_remote_interceptors st). rri_bus_id entry = i)"

text \<open>Two states of a connection with the same registrations.\<close>

definition same_conn :: "('s, 'j, 'tx, 'i, 'w) ws_conn \<Rightarrow> ('s, 'j, 'tx, 'i, 'w) ws_conn \<Rightarrow> bool" where
  "same_conn st st' \<longleftrightarrow> same_routes (en_state (wsc_bus st)) (en_state (wsc_bus st'))
     \<and> wsc_subscriptions st' = wsc_subscriptions st \<and> wsc_remote_interceptors st' = wsc_remote_interceptors st
     \<and> wsc_remote_channels st' = wsc_remote_channels st \<and> wsc_forwarders st' = wsc_forwarders st"

lemma inv_same_conn:
  "ws_inv used en0 st \<Longrightarrow> same_conn st st' \<Longrightarrow> used (wsc_world st) \<subseteq> used (wsc_world st') \<Longrightarrow> ws_inv used en0 st'"
  by (auto simp: ws_inv_def same_conn_def intro: on_top_same)

lemma same_conn_refl: "index_wf (ds_index (en_state (wsc_bus st))) \<Longrightarrow> same_conn st st"
  by (simp add: same_conn_def same_routes_def)

lemma inv_wf: "ws_inv used en0 st \<Longrightarrow> index_wf (ds_index (en_state (wsc_bus st)))"
  by (simp add: ws_inv_def on_top_def)

section \<open>Operations keep the invariant\<close>

locale ws_ids = growing_ids "wse_bus E" used + token_ids "wse_bus E"
  for E :: "('s, 'j, 'tx, 'i, 'w) ws_env" and used :: "'w \<Rightarrow> string set" +
  assumes send_used: "used w \<subseteq> used (snd (wse_send E s w))"
    and wait_state: "en_state (snd (wse_wait E tx d en)) = en_state en"
    and wait_used: "used (en_world en) \<subseteq> used (en_world (snd (wse_wait E tx d en)))"
begin

lemma send_same:
  assumes "ws_inv used en0 st" and "ws_send E s st = (r, st')"
  shows "ws_inv used en0 st'"
proof (rule inv_same_conn [OF assms(1)])
  show "same_conn st st'"
    using assms inv_wf [OF assms(1)] by (auto simp: ws_send_def same_conn_def same_routes_def split: prod.splits)
  show "used (wsc_world st) \<subseteq> used (wsc_world st')"
    using assms(2) send_used [of "wsc_world st" s] by (auto simp: ws_send_def split: prod.splits)
qed

lemma respond_same: "ws_inv used en0 st \<Longrightarrow> ws_respond E msg st = (r, st') \<Longrightarrow> ws_inv used en0 st'"
  by (auto simp: ws_respond_def split: option.splits intro: send_same)

lemma respond_inv: "ws_inv used en0 st \<Longrightarrow> ws_inv used en0 (snd (ws_respond E msg st))"
  by (cases "ws_respond E msg st") (simp add: respond_same)

text \<open>An engine that differs in store, counters and world only.\<close>

lemma bus_same:
  assumes "ws_inv used en0 st" and "same_routes (en_state (wsc_bus st)) (en_state en')"
    and "used (wsc_world st) \<subseteq> used (en_world en')"
  shows "ws_inv used en0 (st\<lparr>wsc_bus := en'\<rparr>)"
  using assms by (intro inv_same_conn [OF assms(1)]) (simp_all add: same_conn_def)

lemma same_state_routes: "index_wf (ds_index s) \<Longrightarrow> s' = s \<Longrightarrow> same_routes s s'"
  by (simp add: same_routes_def)

lemma publish_keeps:
  assumes "ws_inv used en0 st" and "bus_publish (wse_bus E) None subj p (wsc_bus st) = (r, en')"
  shows "ws_inv used en0 (st\<lparr>wsc_bus := en'\<rparr>)"
proof (rule bus_same [OF assms(1)])
  have "en_state en' = en_state (wsc_bus st) \<and> used (wsc_world st) \<subseteq> used (en_world en')"
    using assms(2) by (auto simp: bus_publish_def publish_def split: if_splits dest: publish_stateD publish_used subsetD)
  then show "same_routes (en_state (wsc_bus st)) (en_state en')" "used (wsc_world st) \<subseteq> used (en_world en')"
    using inv_wf [OF assms(1)] by (simp_all add: same_routes_def)
qed

lemma ws_publish_keeps:
  assumes "ws_inv used en0 st" and "ws_publish E subj payload cid st = (r, st')"
  shows "ws_inv used en0 st'"
proof (cases "ws_decode_payload E payload")
  case (Inr decoded)
  obtain q en where q: "bus_publish (wse_bus E) None subj decoded (wsc_bus st) = (q, en)" by (rule prod.exhaust)
  with Inr assms(2) publish_keeps [OF assms(1) q] respond_same [OF publish_keeps [OF assms(1) q]] show ?thesis
    by (cases q) (auto simp: ws_publish_def)
qed (use assms in \<open>auto simp: ws_publish_def\<close>)

lemma inv_ids_within:
  assumes "ws_inv used en0 st" and "ready_engine used en0"
  shows "ids_within (used (wsc_world st)) (en_state (wsc_bus st))"
proof -
  let ?s = "en_state (wsc_bus st)" and ?z = "en_state en0" and ?U = "used (wsc_world st)"
  have o: "on_top (used (en_world en0)) ?z (set (sub_keys st)) (set (int_keys st)) ?s"
    and u: "set (sub_keys st) \<subseteq> ?U" "set (int_keys st) \<subseteq> ?U" "used (en_world en0) \<subseteq> ?U"
    using assms(1) by (auto simp: ws_inv_def)
  have i0: "entry_id ` set_mset (index_entries (ds_index ?z)) \<subseteq> ?U" "dom (ds_senders ?z) \<subseteq> ?U" "dom (ds_interceptors ?z) \<subseteq> ?U"
    using assms(2) u(3) order_trans unfolding ready_ids ids_within_def by blast+
  obtain M where M: "index_entries (ds_index ?s) = index_entries (ds_index ?z) + M"
    "entry_id ` set_mset M = set (sub_keys st) \<union> set (int_keys st)"
    by (rule on_top_entries [OF o])
  have "entry_id ` set_mset (index_entries (ds_index ?s)) \<subseteq> ?U"
    unfolding M(1) set_mset_union image_Un M(2) by (intro Un_least u i0)
  moreover have "dom (ds_senders ?s) \<subseteq> ?U" "dom (ds_interceptors ?s) \<subseteq> ?U"
    by (rule order_trans [OF on_top_other(1) [OF o]], intro Un_least u i0)
      (rule order_trans [OF on_top_other(2) [OF o]], intro Un_least u i0)
  ultimately show ?thesis
    using inv_wf [OF assms(1)] by (simp add: ids_within_def)
qed

lemma request_keeps:
  assumes "ws_inv used en0 st" and "ready_engine used en0"
    and "request (wse_bus E) (wse_wait E) None subj p tmo (wsc_bus st) = (r, en')"
  shows "ws_inv used en0 (st\<lparr>wsc_bus := en'\<rparr>)"
proof (rule bus_same [OF assms(1)])
  let ?en = "wsc_bus st"
  obtain rs en1 where s: "request_subscribe (wse_bus E) ?en = (rs, en1)" by (rule prod.exhaust)
  have i: "ids_within (used (en_world ?en)) (en_state ?en)"
    by (rule inv_ids_within [OF assms(1,2)])
  have u: "used (en_world ?en) \<subseteq> used (en_world en1) \<and> (\<forall>rsj k tx. rs = Inr (rsj, k, tx) \<longrightarrow> k \<notin> used (en_world ?en))"
    using s by (auto simp: request_subscribe_def Let_def split: prod.splits sum.splits dest!: ulid_fresh channelD)
  then have f: "\<And>rsj k tx. rs = Inr (rsj, k, tx) \<Longrightarrow> k \<notin> entry_id ` set_mset (index_entries (ds_index (en_state ?en)))
      \<and> ds_senders (en_state ?en) k = None \<and> ds_interceptors (en_state ?en) k = None"
    using i by (fastforce simp: ids_within_def)
  from request_restores [OF token_ids_axioms inv_wf [OF assms(1)] s f wait_state assms(3)]
  show "same_routes (en_state ?en) (en_state en')" by (simp add: same_routes_def)
  obtain rsj k tx where rs: "rs = Inr (rsj, k, tx)"
    using request_subscribe_ok [OF inv_wf [OF assms(1)]] s by auto
  obtain pr en2 where p: "publish_event (wse_bus E) None subj p (Some rsj) en1 = (pr, en2)" by (rule prod.exhaust)
  obtain o3 en3 where w: "wse_wait E tx tmo en2 = (o3, en3)" by (rule prod.exhaust)
  have "used (en_world en1) \<subseteq> used (en_world en2)" "used (en_world en2) \<subseteq> used (en_world en3)"
    using publish_used [OF p] wait_used [of en2 tx tmo] w by simp_all
  moreover have "en_world en' = en_world en2 \<or> en_world en' = en_world en3"
    using assms(3) s p w rs
    by (auto simp: request_def engine_unsubscribe_def Let_def split: sum.splits recv_outcome.splits)
  ultimately show "used (en_world ?en) \<subseteq> used (en_world en')" using u by (metis order_trans)
qed

lemma ws_request_keeps:
  assumes "ws_inv used en0 st" and "ready_engine used en0" and "ws_request E subj payload tms cid st = (r, st')"
  shows "ws_inv used en0 st'"
proof (cases "ws_decode_payload E payload")
  case (Inr decoded)
  obtain q en where q: "request (wse_bus E) (wse_wait E) None subj decoded (from_millis tms) (wsc_bus st) = (q, en)"
    by (rule prod.exhaust)
  with Inr assms(3) respond_same [OF request_keeps [OF assms(1,2) q]] show ?thesis
    by (cases q) (auto simp: ws_request_def)
qed (use assms in \<open>auto simp: ws_request_def\<close>)

lemma fresh_key:
  assumes "ws_inv used en0 st" and "i \<notin> used (wsc_world st)"
  shows "i \<notin> set (sub_keys st)" "i \<notin> set (int_keys st)" "i \<notin> used (en_world en0)"
  using assms by (auto simp: ws_inv_def)

lemma set_reg_insert: "set (map fst (reg_insert k v xs)) = insert k (set (map fst xs))"
  by (rule keys_reg_insert)

lemma reg_insert_fresh: "k \<notin> set (map fst xs) \<Longrightarrow> reg_insert k v xs = xs @ [(k, v)]"
  by (induction xs) auto

lemma ws_subscribe_keeps:
  assumes "ws_inv used en0 st" and "ws_subscribe E pat prio cid st = (r, st')"
  shows "ws_inv used en0 st'"
proof (cases "validate_remote_pattern pat = Inr () \<and> length (wsc_subscriptions st) < 64")
  case False
  with assms show ?thesis
    by (auto simp: ws_subscribe_def MAX_SUBSCRIPTIONS_PER_CONNECTION_def split: sum.splits)
next
  case True
  obtain b en where b: "bus_subscribe (wse_bus E) pat (ws_subscribe_opts prio) (wsc_bus st) = (b, en)"
    by (rule prod.exhaust)
  note eff = subscribe_effect [OF b inv_wf [OF assms(1)]]
  show ?thesis
  proof (cases b)
    case (Inl e)
    with eff have "same_routes (en_state (wsc_bus st)) (en_state en)" "used (wsc_world st) \<subseteq> used (en_world en)"
      using inv_wf [OF assms(1)] by (simp_all add: same_routes_def)
    from bus_same [OF assms(1) this] show ?thesis
      using assms(2) b Inl True by (auto simp: ws_subscribe_def MAX_SUBSCRIPTIONS_PER_CONNECTION_def)
  next
    case (Inr sub)
    let ?i = "sub_id sub"
    define st1 where "st1 = st\<lparr>wsc_bus := en, wsc_forwarders := wsc_forwarders st @ [(?i, sub_rx sub)],
        wsc_subscriptions := reg_insert ?i \<lparr>cs_pattern = pat\<rparr> (wsc_subscriptions st)\<rparr>"
    have i: "?i \<notin> used (wsc_world st)" "used (en_world en) = insert ?i (used (wsc_world st))"
      using eff Inr by simp_all
    obtain ix e where e: "en_state en = (en_state (wsc_bus st))\<lparr>ds_index := ix,
          ds_senders := (ds_senders (en_state (wsc_bus st)))(?i \<mapsto> sub_rx sub)\<rparr>" "index_wf ix"
        "index_entries ix = add_mset e (index_entries (ds_index (en_state (wsc_bus st))))" "entry_id e = ?i" "subject_pattern e = pat"
      using eff Inr by auto
    note f = fresh_key [OF assms(1) i(1)]
    have "on_top (used (en_world en0)) (en_state en0) (insert ?i (set (sub_keys st))) (set (int_keys st)) (en_state en)"
      unfolding e(1)
    proof (rule on_top_subscribe [OF _ _ e(2,3,4)])
      show "concrete_first (subject_pattern e)" using validate_remote_ok True e(5) by auto
    qed (use assms(1) f in \<open>auto simp: ws_inv_def\<close>)
    then have "ws_inv used en0 st1"
      using assms(1) i f True by (auto simp: ws_inv_def st1_def reg_insert_fresh)
    from respond_same [OF this] show ?thesis
      using assms(2) b Inr True by (auto simp: ws_subscribe_def MAX_SUBSCRIPTIONS_PER_CONNECTION_def st1_def)
  qed
qed

lemma bus_unsubscribe_simps:
  "fst (bus_unsubscribe i en) = Inr ()" "en_world (snd (bus_unsubscribe i en)) = en_world en"
  by (simp_all add: bus_unsubscribe_def engine_unsubscribe_def Let_def)

lemma own_key:
  assumes "ws_inv used en0 st" and "i \<in> set (sub_keys st) \<union> set (int_keys st)"
  shows "i \<notin> used (en_world en0)"
  using assms unfolding ws_inv_def on_top_def by blast

lemma keys_filter: "map fst (filter (\<lambda>p. fst p \<noteq> i) xs) = filter (\<lambda>k. k \<noteq> i) (map fst xs)"
  by (simp add: filter_map comp_def)

lemma drop_subscription_keeps:
  assumes "ws_inv used en0 st" and "ready_engine used en0" and "i \<in> set (sub_keys st)"
  shows "ws_inv used en0 (drop_subscription i st) \<and> sub_keys (drop_subscription i st) = filter (\<lambda>k. k \<noteq> i) (sub_keys st)
    \<and> wsc_remote_interceptors (drop_subscription i st) = wsc_remote_interceptors st"
proof -
  obtain c where c: "map_of (wsc_subscriptions st) i = Some c" using assms(3) by (metis map_of_eq_None_iff not_Some_eq set_map)
  have d: "drop_subscription i st = st\<lparr>wsc_subscriptions := filter (\<lambda>p. fst p \<noteq> i) (wsc_subscriptions st),
      wsc_forwarders := filter (\<lambda>p. fst p \<noteq> i) (wsc_forwarders st), wsc_bus := snd (bus_unsubscribe i (wsc_bus st))\<rparr>"
    using c by (simp add: drop_subscription_def abort_forwarder_def Let_def)
  have "i \<notin> set (int_keys st)"
    using assms(1,3) unfolding ws_inv_def on_top_def by blast
  then have "on_top (used (en_world en0)) (en_state en0) (set (sub_keys st) - {i}) (set (int_keys st)) (en_state (snd (bus_unsubscribe i (wsc_bus st))))"
    using on_top_unsubscribe [of _ _ "set (sub_keys st)" "set (int_keys st)" "wsc_bus st" i] assms(1,2) own_key [OF assms(1)] assms(3)
    by (simp add: ws_inv_def ready_ids)
  moreover have "{k \<in> A. k \<noteq> i} = A - {i}" for A :: "string set" by auto
  ultimately show ?thesis
    using assms(1) order_trans [OF length_filter_le, of "wsc_subscriptions st" 64 "\<lambda>p. fst p \<noteq> i"]
    unfolding d by (auto simp: ws_inv_def bus_unsubscribe_simps keys_filter distinct_map_filter)
qed

lemma drop_interceptor_keeps:
  assumes "ws_inv used en0 st" and "ready_engine used en0" and "i \<in> set (int_keys st)"
    and "wsc_bus st' = snd (bus_unsubscribe i (wsc_bus st))"
    and "wsc_remote_interceptors st' = filter (\<lambda>p. fst p \<noteq> i) (wsc_remote_interceptors st)"
    and "wsc_subscriptions st' = wsc_subscriptions st" and "wsc_remote_channels st' = wsc_remote_channels st"
    and "wsc_forwarders st' = wsc_forwarders st"
  shows "ws_inv used en0 st'"
proof -
  have "i \<notin> set (sub_keys st)"
    using assms(1,3) unfolding ws_inv_def on_top_def by blast
  then have "on_top (used (en_world en0)) (en_state en0) (set (sub_keys st)) (set (int_keys st) - {i}) (en_state (snd (bus_unsubscribe i (wsc_bus st))))"
    using on_top_unsubscribe [of _ _ "set (sub_keys st)" "set (int_keys st)" "wsc_bus st" i] assms(1,2) own_key [OF assms(1)] assms(3)
    by (simp add: ws_inv_def ready_ids)
  moreover have "{k \<in> A. k \<noteq> i} = A - {i}" for A :: "string set" by auto
  ultimately show ?thesis
    using assms(1) order_trans [OF length_filter_le, of "wsc_remote_interceptors st" 16 "\<lambda>p. fst p \<noteq> i"]
    unfolding ws_inv_def assms(4-8) by (auto simp: bus_unsubscribe_simps keys_filter distinct_map_filter)
qed

lemma ws_unsubscribe_keeps:
  assumes "ws_inv used en0 st" and "ready_engine used en0" and "ws_unsubscribe i st = (r, st')"
  shows "ws_inv used en0 st'"
proof (cases "map_of (wsc_subscriptions st) i")
  case (Some c)
  have "i \<in> set (sub_keys st)" using Some by (force dest: map_of_SomeD)
  moreover have "st' = drop_subscription i st"
    using assms(3) Some by (auto simp: ws_unsubscribe_def drop_subscription_def abort_forwarder_def Let_def split: prod.splits)
  ultimately show ?thesis using drop_subscription_keeps [OF assms(1,2)] by blast
next
  case None
  show ?thesis
  proof (cases "map_of (wsc_remote_interceptors st) i")
    case (Some entry)
    then have m: "(i, entry) \<in> set (wsc_remote_interceptors st)" by (rule map_of_SomeD)
    have "\<forall>(i, entry) \<in> set (wsc_remote_interceptors st). rri_bus_id entry = i"
      using assms(1) by (simp add: ws_inv_def)
    with m have i: "i \<in> set (int_keys st)" "rri_bus_id entry = i" by force+
    obtain q en where q: "bus_unsubscribe i (wsc_bus st) = (q, en)" by (rule prod.exhaust)
    show ?thesis
      by (rule drop_interceptor_keeps [OF assms(1,2) i(1)])
        (use assms(3) None Some i(2) q in \<open>auto simp: ws_unsubscribe_def on_interceptor_def Let_def\<close>)
  qed (use assms(1,3) None in \<open>simp add: ws_unsubscribe_def\<close>)
qed

text \<open>Steps that touch proxies, the queue or the registry of channels only.\<close>

lemma quiet_keeps:
  assumes "ws_inv used en0 st" and "en_state (wsc_bus st') = en_state (wsc_bus st)" and "wsc_world st' = wsc_world st"
    and "wsc_subscriptions st' = wsc_subscriptions st" and "wsc_remote_interceptors st' = wsc_remote_interceptors st"
    and "wsc_remote_channels st' = wsc_remote_channels st" and "wsc_forwarders st' = wsc_forwarders st"
  shows "ws_inv used en0 st'"
  using assms by (intro inv_same_conn [OF assms(1)]) (simp_all add: same_conn_def same_routes_def inv_wf [OF assms(1)])

lemma ws_register_channel_type_keeps:
  assumes "ws_inv used en0 st" and "ws_register_channel_type E ty cid st = (r, st')"
  shows "ws_inv used en0 st'"
proof (cases "andthen (refuse_if_open E ''register_channel_type'') (\<lambda>_. validate_channel_type ty) = Inr ()
    \<and> length (wsc_remote_channels st) < 16 \<and> map_of (wsc_remote_channels st) ty = None")
  case False
  with assms show ?thesis
    by (auto simp: ws_register_channel_type_def MAX_CHANNEL_TYPES_PER_CONNECTION_def split: sum.splits if_splits)
next
  case True
  define h where "h = wsc_next_proxy st"
  define st1 where "st1 = st\<lparr>wsc_channel_store := (wsc_channel_store st)(h \<mapsto> ws_channel_new ty), wsc_next_proxy := Suc h,
      wsc_bus := snd (bus_register_channel_type ty (wse_channel E h) (wsc_bus st)),
      wsc_remote_channels := reg_insert ty \<lparr>rc_channel_type = ty, rc_proxy = h\<rparr> (wsc_remote_channels st)\<rparr>"
  have k: "ty \<notin> set (map fst (wsc_remote_channels st))" using True by (simp add: map_of_eq_None_iff)
  have "ws_inv used en0 st1"
    using assms(1) True k by (auto simp: ws_inv_def st1_def bus_register_channel_type_def reg_insert_fresh)
  from respond_same [OF this] show ?thesis
    using assms(2) True
    by (auto simp: ws_register_channel_type_def MAX_CHANNEL_TYPES_PER_CONNECTION_def st1_def h_def Let_def bus_register_channel_type_def)
qed

lemma ws_register_interceptor_keeps:
  assumes "ws_inv used en0 st" and "ws_register_interceptor E pat prio tms cid st = (r, st')"
  shows "ws_inv used en0 st'"
proof (cases "refuse_if_open E ''register_interceptor'' = Inr () \<and> validate_remote_pattern pat = Inr ()
    \<and> length (wsc_remote_interceptors st) < 16")
  case False
  with assms show ?thesis
    by (auto simp: ws_register_interceptor_def MAX_INTERCEPTORS_PER_CONNECTION_def Let_def andthen_def map_err_def
        split: sum.splits if_splits)
next
  case True
  define tmo where "tmo = map_option from_millis (clamp_remote_interceptor_timeout tms)"
  define h where "h = wsc_next_proxy st"
  define store where "store = (wsc_interceptor_store st)(h \<mapsto>
      (case proxy_timeout tmo of None \<Rightarrow> ws_interceptor_new pat | Some t \<Rightarrow> ws_interceptor_with_timeout t (ws_interceptor_new pat)))"
  obtain b en where b: "bus_intercept (wse_bus E) pat (clamp_remote_interceptor_priority prio) (wse_interceptor E h) tmo (wsc_bus st) = (b, en)"
    by (rule prod.exhaust)
  note eff = intercept_effect [OF b inv_wf [OF assms(1)]]
  note defs = ws_register_interceptor_def MAX_INTERCEPTORS_PER_CONNECTION_def Let_def
  show ?thesis
  proof (cases b)
    case (Inl e)
    with eff have "same_routes (en_state (wsc_bus st)) (en_state en)" "used (wsc_world st) \<subseteq> used (en_world en)"
      using inv_wf [OF assms(1)] by (simp_all add: same_routes_def)
    from quiet_keeps [OF bus_same [OF assms(1) this], of st'] show ?thesis
      using assms(2) b Inl True by (simp add: defs flip: tmo_def h_def) auto
  next
    case (Inr i)
    define st1 where "st1 = st\<lparr>wsc_interceptor_store := store, wsc_next_proxy := Suc h, wsc_bus := en,
        wsc_remote_interceptors := reg_insert i \<lparr>rri_pattern = pat, rri_bus_id = i, rri_proxy = h\<rparr> (wsc_remote_interceptors st)\<rparr>"
    have i: "i \<notin> used (wsc_world st)" "used (en_world en) = insert i (used (wsc_world st))"
      using eff Inr by simp_all
    obtain ix e where e: "en_state en = (en_state (wsc_bus st))\<lparr>ds_index := ix,
          ds_interceptors := (ds_interceptors (en_state (wsc_bus st)))(i \<mapsto> wse_interceptor E h)\<rparr>" "index_wf ix"
        "index_entries ix = add_mset e (index_entries (ds_index (en_state (wsc_bus st))))" "entry_id e = i" "subject_pattern e = pat"
        "priority e = clamp_remote_interceptor_priority prio"
      using eff Inr by auto
    note f = fresh_key [OF assms(1) i(1)]
    have "on_top (used (en_world en0)) (en_state en0) (set (sub_keys st)) (insert i (set (int_keys st))) (en_state en)"
      unfolding e(1)
    proof (rule on_top_intercept [OF _ _ e(2,3,4)])
      show "concrete_first (subject_pattern e)" using validate_remote_ok True e(5) by auto
      show "100 \<le> priority e"
        by (simp add: e(6) clamp_remote_interceptor_priority_def MIN_REMOTE_INTERCEPTOR_PRIORITY_def)
    qed (use assms(1) f in \<open>auto simp: ws_inv_def\<close>)
    then have "ws_inv used en0 st1"
      using assms(1) i f True by (auto simp: ws_inv_def st1_def reg_insert_fresh)
    from respond_same [OF this] show ?thesis
      using assms(2) b Inr True by (simp add: defs st1_def store_def flip: tmo_def h_def)
  qed
qed

lemma handle_operation_keeps:
  assumes "ws_inv used en0 st" and "ready_engine used en0" and "handle_operation E op st = (r, st')"
  shows "ws_inv used en0 st'"
proof (cases op)
  case Publish
  with assms show ?thesis by (auto dest: ws_publish_keeps)
next
  case Subscribe
  with assms show ?thesis by (auto dest: ws_subscribe_keeps)
next
  case Unsubscribe
  with assms show ?thesis by (auto dest: ws_unsubscribe_keeps)
next
  case Request
  with assms show ?thesis by (auto dest: ws_request_keeps)
next
  case RegisterChannelType
  with assms show ?thesis by (auto dest: ws_register_channel_type_keeps)
next
  case RegisterInterceptor
  with assms show ?thesis by (auto dest: ws_register_interceptor_keeps)
next
  case (DeliverResult rid success err)
  with assms show ?thesis by (intro quiet_keeps [OF assms(1)]) (auto simp: ws_deliver_result_def)
next
  case (InterceptResult rid action)
  with assms show ?thesis
    by (intro quiet_keeps [OF assms(1)]) (auto simp: ws_intercept_result_def split: option.splits)
qed

lemma serve_step_keeps:
  assumes "ws_inv used en0 st" and "ready_engine used en0" and "serve_step E x st = (going, st')"
  shows "ws_inv used en0 st'"
proof (cases x)
  case (SocketText msg)

  show ?thesis
  proof (cases "length msg > MAX_FRAME_SIZE")
    case True
    with SocketText assms respond_inv [OF assms(1)] show ?thesis by (auto simp: ws_text_frame_def)
  next
    case False
    show ?thesis
    proof (cases "wse_parse E msg")
      case (Inl e)
      with False SocketText assms respond_inv [OF assms(1)] show ?thesis by (auto simp: ws_text_frame_def)
    next
      case (Inr op)
      obtain r st1 where h: "handle_operation E op st = (r, st1)" by (rule prod.exhaust)
      note k = handle_operation_keeps [OF assms(1,2) h]
      with Inr False SocketText assms(3) h respond_inv [OF k] show ?thesis
        by (cases r) (auto simp: ws_text_frame_def)
    qed
  qed
next
  case QueuedFrame
  show ?thesis
  proof (cases "wsc_forward st")
    case (Cons json rest)
    have "ws_inv used en0 (st\<lparr>wsc_forward := rest\<rparr>)" by (rule quiet_keeps [OF assms(1)]) simp_all
    from send_same [OF this] assms(3) QueuedFrame Cons show ?thesis by (auto split: prod.splits sum.splits)
  qed (use assms QueuedFrame in simp)
next
  case (ForwarderEvent i event)
  with assms show ?thesis
    by (intro quiet_keeps [OF assms(1)]) (auto simp: forward_event_def split: option.splits)
next
  case (InterceptorCall h ev)
  with assms show ?thesis
    by (intro quiet_keeps [OF assms(1)]) (auto simp: interceptor_call_def split: option.splits)
next
  case (ChannelCall h ev)
  with assms show ?thesis
    by (intro quiet_keeps [OF assms(1)]) (auto simp: channel_call_def split: option.splits)
qed (use assms in auto)

lemma serve_loop_keeps:
  "ws_inv used en0 st \<Longrightarrow> ready_engine used en0 \<Longrightarrow> ws_inv used en0 (serve_loop E xs st)"
proof (induction xs arbitrary: st)
  case (Cons x xs)
  obtain going st1 where s: "serve_step E x st = (going, st1)" by (rule prod.exhaust)
  from Cons.IH [OF serve_step_keeps [OF Cons.prems s] Cons.prems(2)] serve_step_keeps [OF Cons.prems s] s
  show ?case by simp
qed simp

lemma accept_inv: "ready_engine used en0 \<Longrightarrow> ws_inv used en0 (accept_connection en0)"
  by (simp add: ws_inv_def accept_connection_def ready_ids on_top_refl)

lemma served_inv: "ready_engine used en0 \<Longrightarrow> ws_inv used en0 (serve_loop E inputs (accept_connection en0))"
  by (intro serve_loop_keeps accept_inv)

end

section \<open>The cleanup\<close>

lemma fold_keeps_fields:
  assumes "\<And>x st. x \<in> set xs \<Longrightarrow> g (f x st) = g st"
  shows "g (fold f xs st) = g st"
  using assms by (induction xs arbitrary: st) auto

context ws_ids
begin

lemma drop_subscriptions_keeps:
  "ws_inv used en0 st \<Longrightarrow> ready_engine used en0 \<Longrightarrow> sub_keys st = ks \<Longrightarrow>
   ws_inv used en0 (fold drop_subscription ks st) \<and> wsc_subscriptions (fold drop_subscription ks st) = []
     \<and> wsc_remote_interceptors (fold drop_subscription ks st) = wsc_remote_interceptors st"
proof (induction ks arbitrary: st)
  case (Cons k ks)
  have "k \<in> set (sub_keys st)" using Cons.prems(3) by simp
  note d = drop_subscription_keeps [OF Cons.prems(1,2) this]
  have "distinct (k # ks)" using Cons.prems(1,3) by (metis ws_inv_def)
  then have "filter (\<lambda>k'. k' \<noteq> k) (sub_keys st) = ks" using Cons.prems(3) by (auto simp: filter_id_conv)
  then have "sub_keys (drop_subscription k st) = ks" using d by simp
  from Cons.IH [OF _ Cons.prems(2) this] d show ?case by simp
qed auto

lemma cancel_channels_keeps:
  assumes "ws_inv used en0 st"
  shows "ws_inv used en0 (cancel_channels st) \<and> wsc_subscriptions (cancel_channels st) = wsc_subscriptions st
    \<and> wsc_remote_interceptors (cancel_channels st) = wsc_remote_interceptors st"
proof -
  have f: "wsc_bus (cancel_channels st) = wsc_bus st" "wsc_subscriptions (cancel_channels st) = wsc_subscriptions st"
    "wsc_remote_interceptors (cancel_channels st) = wsc_remote_interceptors st"
    "wsc_remote_channels (cancel_channels st) = wsc_remote_channels st" "wsc_forwarders (cancel_channels st) = wsc_forwarders st"
    unfolding cancel_channels_def by (rule fold_keeps_fields, simp add: on_channel_def)+
  show ?thesis using quiet_keeps [OF assms, of "cancel_channels st"] f by simp
qed

lemma unsubscribe_all:
  "on_top U s0 {} (set ks) (en_state en) \<Longrightarrow> ids_within U s0 \<Longrightarrow> set ks \<inter> U = {} \<Longrightarrow> distinct ks \<Longrightarrow>
   on_top U s0 {} {} (en_state (fold (\<lambda>i en. snd (bus_unsubscribe i en)) ks en))"
proof (induction ks arbitrary: en)
  case (Cons k ks)
  have "on_top U s0 ({} - {k}) (set (k # ks) - {k}) (en_state (snd (bus_unsubscribe k en)))"
    using on_top_unsubscribe [OF Cons.prems(1,2), of k] Cons.prems(3) by simp
  with Cons.IH [of "snd (bus_unsubscribe k en)"] Cons.prems show ?case by simp
qed simp

lemma drop_interceptors_fields:
  "wsc_bus (drop_interceptors st) = fold (\<lambda>i en. snd (bus_unsubscribe i en)) (int_keys st) (wsc_bus st)"
  "wsc_subscriptions (drop_interceptors st) = wsc_subscriptions st" "wsc_forwarders (drop_interceptors st) = wsc_forwarders st"
  "wsc_channel_store (drop_interceptors st) = wsc_channel_store st"
  unfolding drop_interceptors_def by (rule trans [OF fold_keeps_fields], simp add: on_interceptor_def, simp)+

text \<open>Once cancelled, a proxy stays without pending calls while others are cancelled.\<close>

lemma cancelled_interceptors:
  "h \<in> set hs \<or> (\<forall>p. wsc_interceptor_store st h = Some p \<longrightarrow> pr_pending (wi_table p) = []) \<Longrightarrow>
   wsc_interceptor_store (fold (on_interceptor (ws_interceptor_cancel_all r)) hs st) h = Some p \<Longrightarrow> pr_pending (wi_table p) = []"
proof (induction hs arbitrary: st)
  case (Cons k hs)
  show ?case
  proof (rule Cons.IH)
    show "h \<in> set hs \<or> (\<forall>p. wsc_interceptor_store (on_interceptor (ws_interceptor_cancel_all r) k st) h = Some p
        \<longrightarrow> pr_pending (wi_table p) = [])"
      using Cons.prems(1) by (auto simp: on_interceptor_def ws_interceptor_cancel_all_def reply_drain_def)
  qed (use Cons.prems(2) in simp)
qed simp

lemma cancelled_channels:
  "h \<in> set hs \<or> (\<forall>p. wsc_channel_store st h = Some p \<longrightarrow> pr_pending (wc_table p) = []) \<Longrightarrow>
   wsc_channel_store (fold (on_channel (ws_channel_cancel_all r)) hs st) h = Some p \<Longrightarrow> pr_pending (wc_table p) = []"
proof (induction hs arbitrary: st)
  case (Cons k hs)
  show ?case
  proof (rule Cons.IH)
    show "h \<in> set hs \<or> (\<forall>p. wsc_channel_store (on_channel (ws_channel_cancel_all r) k st) h = Some p
        \<longrightarrow> pr_pending (wc_table p) = [])"
      using Cons.prems(1) by (auto simp: on_channel_def ws_channel_cancel_all_def reply_drain_def)
  qed (use Cons.prems(2) in simp)
qed simp

lemma cleanup_effect:
  assumes "ws_inv used en0 st" and "ready_engine used en0"
  shows "same_routes (en_state en0) (en_state (wsc_bus (disconnect_cleanup st)))
    \<and> wsc_subscriptions (disconnect_cleanup st) = [] \<and> wsc_forwarders (disconnect_cleanup st) = []"
proof -
  let ?st1 = "cancel_channels (drop_subscriptions st)"
  have k: "ws_inv used en0 ?st1" "wsc_subscriptions ?st1 = []"
    using drop_subscriptions_keeps [OF assms refl] cancel_channels_keeps [of en0 "drop_subscriptions st"]
    by (simp_all add: drop_subscriptions_def)
  have "on_top (used (en_world en0)) (en_state en0) {} (set (int_keys ?st1)) (en_state (wsc_bus ?st1))"
    and d: "distinct (int_keys ?st1)" "wsc_forwarders ?st1 = []"
    using k by (simp_all add: ws_inv_def)
  moreover have "set (int_keys ?st1) \<inter> used (en_world en0) = {}"
    using own_key [OF k(1)] by auto
  ultimately have "on_top (used (en_world en0)) (en_state en0) {} {} (en_state (wsc_bus (disconnect_cleanup st)))"
    unfolding disconnect_cleanup_def drop_interceptors_fields using assms(2) by (intro unsubscribe_all) (simp_all add: ready_ids)
  then show ?thesis
    using on_top_empty k(2) d(2) by (simp add: disconnect_cleanup_def drop_interceptors_fields)
qed

end

lemma unsubscribe_registry: "en_registry (snd (bus_unsubscribe i en)) = en_registry en"
  by (simp add: bus_unsubscribe_def engine_unsubscribe_def Let_def)

lemma drop_interceptors_registry: "en_registry (wsc_bus (drop_interceptors st)) = en_registry (wsc_bus st)"
  unfolding drop_interceptors_def
  by (rule trans [OF fold_keeps_fields [where g = "\<lambda>st. en_registry (wsc_bus st)"]], simp add: on_interceptor_def)
    (simp add: fold_keeps_fields [where g = en_registry] unsubscribe_registry)

lemma cancel_channels_registry: "en_registry (wsc_bus (cancel_channels st)) = en_registry (wsc_bus st)"
  unfolding cancel_channels_def
  by (rule fold_keeps_fields [where g = "\<lambda>st. en_registry (wsc_bus st)"]) (simp add: on_channel_def)

lemma drop_subscriptions_registry: "en_registry (wsc_bus (drop_subscriptions st)) = en_registry (wsc_bus st)"
  unfolding drop_subscriptions_def
  by (rule fold_keeps_fields [where g = "\<lambda>st. en_registry (wsc_bus st)"])
    (simp add: drop_subscription_def abort_forwarder_def unsubscribe_registry Let_def split: option.splits)

lemma cleanup_registry: "en_registry (wsc_bus (disconnect_cleanup st)) = en_registry (wsc_bus st)"
  by (simp add: disconnect_cleanup_def drop_interceptors_registry cancel_channels_registry drop_subscriptions_registry)

lemma drop_subscriptions_maps:
  "wsc_remote_channels (drop_subscriptions st) = wsc_remote_channels st"
  "wsc_remote_interceptors (drop_subscriptions st) = wsc_remote_interceptors st"
  unfolding drop_subscriptions_def
  by (rule fold_keeps_fields, simp add: drop_subscription_def abort_forwarder_def Let_def split: option.splits)+

lemma cancel_channels_maps:
  "wsc_remote_channels (cancel_channels st) = wsc_remote_channels st"
  "wsc_remote_interceptors (cancel_channels st) = wsc_remote_interceptors st"
  unfolding cancel_channels_def by (rule fold_keeps_fields, simp add: on_channel_def)+

section \<open>The proxies and the maps\<close>

text \<open>The parts of a connection that sending and the calls on the bus leave alone.\<close>

definition own_parts :: "('s, 'j, 'tx, 'i, 'w) ws_conn \<Rightarrow> (nat \<rightharpoonup> ws_remote_interceptor)
    \<times> (string \<times> registered_remote_interceptor) list \<times> (string \<times> registered_remote_channel) list" where
  "own_parts st = (wsc_interceptor_store st, wsc_remote_interceptors st, wsc_remote_channels st)"

lemma own_parts_upd [simp]:
  "own_parts (st\<lparr>wsc_bus := en\<rparr>) = own_parts st" "own_parts (st\<lparr>wsc_forward := q\<rparr>) = own_parts st"
  "own_parts (st\<lparr>wsc_forwarders := fs\<rparr>) = own_parts st" "own_parts (st\<lparr>wsc_subscriptions := su\<rparr>) = own_parts st"
  "own_parts (st\<lparr>wsc_channel_store := cs\<rparr>) = own_parts st" "own_parts (st\<lparr>wsc_next_proxy := n\<rparr>) = own_parts st"
  by (simp_all add: own_parts_def)

lemma own_send: "ws_send E s st = (r, st') \<Longrightarrow> own_parts st' = own_parts st"
  by (auto simp: ws_send_def split: prod.splits)

lemma own_respond: "ws_respond E m st = (r, st') \<Longrightarrow> own_parts st' = own_parts st"
  by (auto simp: ws_respond_def split: option.splits dest: own_send)

lemma own_respondD [simp]: "own_parts (snd (ws_respond E m st)) = own_parts st"
  by (cases "ws_respond E m st") (simp add: own_respond)

lemma own_publish: "ws_publish E subj p cid st = (r, st') \<Longrightarrow> own_parts st' = own_parts st"
  by (auto simp: ws_publish_def split: sum.splits prod.splits dest!: own_respond)

lemma own_subscribe: "ws_subscribe E pat prio cid st = (r, st') \<Longrightarrow> own_parts st' = own_parts st"
  by (auto simp: ws_subscribe_def split: sum.splits prod.splits if_splits dest!: own_respond)

lemma own_request: "ws_request E subj p tms cid st = (r, st') \<Longrightarrow> own_parts st' = own_parts st"
  by (auto simp: ws_request_def split: sum.splits prod.splits dest!: own_respond)

lemma own_deliver_result: "ws_deliver_result rid ok err st = (r, st') \<Longrightarrow> own_parts st' = own_parts st"
  by (auto simp: ws_deliver_result_def)

definition proxies_ok :: "('s, 'j, 'tx, 'i, 'w) ws_conn \<Rightarrow> bool" where
  "proxies_ok st \<longleftrightarrow> (\<forall>h p. wsc_interceptor_store st h = Some p \<longrightarrow> intercept_keeps UNIV p)"

lemma proxies_own: "own_parts st' = own_parts st \<Longrightarrow> proxies_ok st \<Longrightarrow> proxies_ok st'"
  by (simp add: proxies_ok_def own_parts_def)

lemma signal_first_keeps:
  "\<forall>h p. store h = Some p \<longrightarrow> P p \<Longrightarrow> (\<And>p. P p \<Longrightarrow> P (snd (signal p))) \<Longrightarrow>
   snd (signal_first signal hs store) h = Some p \<Longrightarrow> P p"
  by (induction signal hs store rule: signal_first.induct) (fastforce split: option.splits prod.splits if_splits)+

lemma proxy_new_ok: "intercept_keeps UNIV (case t of None \<Rightarrow> ws_interceptor_new pat | Some t \<Rightarrow> ws_interceptor_with_timeout t (ws_interceptor_new pat))"
  by (cases t) (simp_all add: intercept_keeps_def ws_interceptor_new_def ws_interceptor_with_timeout_def
      new_reply_table_def table_inv_def)

lemma respond_store: "ws_respond E m st = (r, st') \<Longrightarrow> wsc_interceptor_store st' = wsc_interceptor_store st"
  using own_respond [of E m st r st'] by (simp add: own_parts_def)

lemma register_interceptor_store:
  assumes "ws_register_interceptor E pat prio tms cid st = (r, st')"
  shows "wsc_interceptor_store st' = wsc_interceptor_store st
    \<or> (\<exists>h t. wsc_interceptor_store st' = (wsc_interceptor_store st)(h \<mapsto>
         (case t of None \<Rightarrow> ws_interceptor_new pat | Some t \<Rightarrow> ws_interceptor_with_timeout t (ws_interceptor_new pat))))"
proof (cases "refuse_if_open E ''register_interceptor'' = Inr () \<and> validate_remote_pattern pat = Inr ()
    \<and> length (wsc_remote_interceptors st) < 16")
  case False
  with assms have "st' = st"
    by (auto simp: ws_register_interceptor_def MAX_INTERCEPTORS_PER_CONNECTION_def Let_def andthen_def map_err_def
        split: sum.splits if_splits)
  then show ?thesis by simp
next
  case True
  define tmo where "tmo = map_option from_millis (clamp_remote_interceptor_timeout tms)"
  define h where "h = wsc_next_proxy st"
  obtain b en where b: "bus_intercept (wse_bus E) pat (clamp_remote_interceptor_priority prio) (wse_interceptor E h) tmo (wsc_bus st) = (b, en)"
    by (rule prod.exhaust)
  define store where "store = (wsc_interceptor_store st)(h \<mapsto>
      (case proxy_timeout tmo of None \<Rightarrow> ws_interceptor_new pat | Some t \<Rightarrow> ws_interceptor_with_timeout t (ws_interceptor_new pat)))"
  note defs = ws_register_interceptor_def MAX_INTERCEPTORS_PER_CONNECTION_def Let_def
  have "wsc_interceptor_store st' = store"
  proof (cases b)
    case (Inl e)
    with assms b True show ?thesis by (simp add: defs flip: tmo_def h_def store_def) auto
  next
    case (Inr i)
    with assms b True have "\<exists>st1. ws_respond E (SmInterceptorRegistered i cid) st1 = (r, st') \<and> wsc_interceptor_store st1 = store"
      by (simp add: defs flip: tmo_def h_def store_def) (rule exI, erule conjI, simp)
    then show ?thesis using respond_store by blast
  qed
  then show ?thesis unfolding store_def by blast
qed

lemma proxies_operation:
  assumes "proxies_ok st" and "handle_operation E op st = (r, st')"
  shows "proxies_ok st'"
proof (cases op)
  case Unsubscribe
  with assms show ?thesis
    by (auto simp: ws_unsubscribe_def abort_forwarder_def on_interceptor_def proxies_ok_def Let_def keeps_cancel
        split: option.splits prod.splits if_splits)
next
  case (RegisterChannelType ty cid)
  with assms show ?thesis
    by (auto simp: ws_register_channel_type_def Let_def proxies_ok_def own_parts_def split: sum.splits prod.splits if_splits
        dest!: own_respond)
next
  case (RegisterInterceptor pat prio tms cid)
  with assms(2) have "ws_register_interceptor E pat prio tms cid st = (r, st')" by simp
  from register_interceptor_store [OF this] show ?thesis
  proof (elim disjE exE)
    fix h t
    assume "wsc_interceptor_store st' = (wsc_interceptor_store st)(h \<mapsto>
      (case t of None \<Rightarrow> ws_interceptor_new pat | Some t \<Rightarrow> ws_interceptor_with_timeout t (ws_interceptor_new pat)))"
    with assms(1) proxy_new_ok [of pat t] show ?thesis by (simp add: proxies_ok_def)
  qed (use assms(1) in \<open>simp add: proxies_ok_def\<close>)
next
  case (InterceptResult rid action)
  have "intercept_keeps UNIV (snd (intercept_signal rid reply p))" if "intercept_keeps UNIV p" for reply p
    using keeps_signal [OF that, of rid reply] by simp
  then have s: "intercept_keeps UNIV p" if "snd (signal_first (intercept_signal rid reply) hs (wsc_interceptor_store st)) h = Some p"
    for reply hs h p
    using signal_first_keeps [OF _ _ that, of "intercept_keeps UNIV"] assms(1) by (simp add: proxies_ok_def)
  show ?thesis
  proof (cases "wire_action E action")
    case (Some a)
    with InterceptResult assms(2) s show ?thesis by (auto simp: ws_intercept_result_def proxies_ok_def)
  qed (use assms InterceptResult in \<open>simp add: ws_intercept_result_def\<close>)
next
  case Publish
  with assms(2) show ?thesis by (auto dest!: own_publish intro: proxies_own [OF _ assms(1)])
next
  case Subscribe
  with assms(2) show ?thesis by (auto dest!: own_subscribe intro: proxies_own [OF _ assms(1)])
next
  case Request
  with assms(2) show ?thesis by (auto dest!: own_request intro: proxies_own [OF _ assms(1)])
next
  case DeliverResult
  with assms(2) show ?thesis by (auto dest!: own_deliver_result intro: proxies_own [OF _ assms(1)])
qed

lemma own_forward: "own_parts (forward_event E i ev st) = own_parts st"
  by (simp add: forward_event_def split: option.splits)

lemma own_channel_call: "own_parts (channel_call E h ev st) = own_parts st"
  by (simp add: channel_call_def split: option.splits)

lemma text_frame_parts:
  "own_parts (ws_text_frame E s st) = own_parts st
   \<or> (\<exists>op r st'. handle_operation E op st = (r, st') \<and> own_parts (ws_text_frame E s st) = own_parts st')"
proof (cases "wse_parse E s")
  case (Inr op)
  obtain r st1 where h: "handle_operation E op st = (r, st1)" by (rule prod.exhaust)
  with Inr show ?thesis by (cases r) (auto simp: ws_text_frame_def)
qed (simp add: ws_text_frame_def)

lemma proxies_step: "proxies_ok st \<Longrightarrow> proxies_ok (snd (serve_step E x st))"
proof (cases x)
  case (SocketText s)
  assume "proxies_ok st"
  with text_frame_parts [of E s st] SocketText show ?thesis
    by (auto intro: proxies_own dest: proxies_operation)
next
  case QueuedFrame
  assume "proxies_ok st"
  then show ?thesis
    by (rule proxies_own [rotated])
      (use QueuedFrame own_send in \<open>fastforce split: list.splits prod.splits sum.splits\<close>)
next
  case (InterceptorCall h ev)
  assume "proxies_ok st"
  moreover have "intercept_keeps UNIV (snd (intercept_step (wse_frame E) (wse_b64_encode E) ev p))"
    if "intercept_keeps UNIV p" for p
    using icpt.keeps_step [OF that, of "wse_frame E" "wse_b64_encode E" ev] by (metis insert_UNIV prod.collapse)
  ultimately show ?thesis
    using InterceptorCall by (auto simp: interceptor_call_def proxies_ok_def split: option.splits)
qed (auto intro: proxies_own [OF own_forward] proxies_own [OF own_channel_call])

lemma proxies_loop: "proxies_ok st \<Longrightarrow> proxies_ok (serve_loop E xs st)"
proof (induction xs arbitrary: st)
  case (Cons x xs)
  obtain going st1 where "serve_step E x st = (going, st1)" by (rule prod.exhaust)
  with proxies_step [OF Cons.prems, of E x] Cons.IH show ?case by auto
qed simp

text \<open>Under an open authenticator nothing sensitive is ever registered.\<close>

definition no_proxies :: "('s, 'j, 'tx, 'i, 'w) ws_conn \<Rightarrow> bool" where
  "no_proxies st \<longleftrightarrow> wsc_remote_interceptors st = [] \<and> wsc_remote_channels st = []"

lemma no_proxies_own: "own_parts st' = own_parts st \<Longrightarrow> no_proxies st \<Longrightarrow> no_proxies st'"
  by (simp add: no_proxies_def own_parts_def)

lemma no_proxies_operation:
  assumes "wse_auth_open E" and "\<not> wse_dev_mode E" and "no_proxies st" and "handle_operation E op st = (r, st')"
  shows "no_proxies st'"
proof (cases op)
  case Unsubscribe
  with assms(3,4) show ?thesis
    by (auto simp: ws_unsubscribe_def abort_forwarder_def no_proxies_def Let_def split: option.splits prod.splits)
next
  case RegisterChannelType
  with assms show ?thesis by (simp add: ws_register_channel_type_def refuse_if_open_def)
next
  case RegisterInterceptor
  with assms show ?thesis by (simp add: ws_register_interceptor_def refuse_if_open_def)
next
  case InterceptResult
  with assms(3,4) show ?thesis by (auto simp: ws_intercept_result_def no_proxies_def split: option.splits)
next
  case Publish
  with assms(4) show ?thesis by (auto dest!: own_publish intro: no_proxies_own [OF _ assms(3)])
next
  case Subscribe
  with assms(4) show ?thesis by (auto dest!: own_subscribe intro: no_proxies_own [OF _ assms(3)])
next
  case Request
  with assms(4) show ?thesis by (auto dest!: own_request intro: no_proxies_own [OF _ assms(3)])
next
  case DeliverResult
  with assms(4) show ?thesis by (auto dest!: own_deliver_result intro: no_proxies_own [OF _ assms(3)])
qed

lemma no_proxies_step:
  assumes "wse_auth_open E" and "\<not> wse_dev_mode E" and "no_proxies st"
  shows "no_proxies (snd (serve_step E x st))"
proof (cases x)
  case (SocketText s)
  with text_frame_parts [of E s st] no_proxies_operation [OF assms] assms(3) show ?thesis
    by (auto intro: no_proxies_own)
next
  case QueuedFrame
  show ?thesis
    by (rule no_proxies_own [OF _ assms(3)])
      (use QueuedFrame own_send in \<open>fastforce split: list.splits prod.splits sum.splits\<close>)
next
  case (InterceptorCall h ev)
  with assms(3) show ?thesis by (auto simp: interceptor_call_def no_proxies_def split: option.splits)
qed (use assms(3) in \<open>auto intro: no_proxies_own [OF own_forward] no_proxies_own [OF own_channel_call]\<close>)

lemma no_proxies_loop:
  "wse_auth_open E \<Longrightarrow> \<not> wse_dev_mode E \<Longrightarrow> no_proxies st \<Longrightarrow> no_proxies (serve_loop E xs st)"
proof (induction xs arbitrary: st)
  case (Cons x xs)
  obtain going st1 where "serve_step E x st = (going, st1)" by (rule prod.exhaust)
  with no_proxies_step [OF Cons.prems, of x] Cons show ?case by auto
qed simp

section \<open>Properties\<close>


text \<open>C29. What a connection can hold. At every moment it has at most 64 subscriptions, 16 interceptors and
  16 channel types, a forwarder task for each subscription and no other, none of its registrations can
  match a reply subject, its interceptors run at priority 100 or later, and no interceptor of it has
  more than 1024 calls waiting.\<close>

theorem ws_connection_bounded:
  assumes "ws_ids E used" and "ready_engine used en"
    and "st = serve_loop E inputs (accept_connection en)"
  shows "length (wsc_subscriptions st) \<le> 64 \<and> length (wsc_remote_interceptors st) \<le> 16 \<and> length (wsc_remote_channels st) \<le> 16
    \<and> set (map fst (wsc_forwarders st)) = set (sub_keys st)
    \<and> (\<forall>e subj. e \<in> set (index_lookup (ds_index (en_state (wsc_bus st))) subj) \<and> starts_with subj ''_reply.'' \<longrightarrow>
         entry_id e \<notin> set (sub_keys st) \<union> set (int_keys st))
    \<and> (\<forall>e. e \<in># index_entries (ds_index (en_state (wsc_bus st))) \<and> entry_id e \<in> set (int_keys st) \<longrightarrow> 100 \<le> priority e)
    \<and> (\<forall>h p. wsc_interceptor_store st h = Some p \<longrightarrow> length (pr_pending (wi_table p)) \<le> 1024)"
proof -
  have iv: "ws_inv used en st" using ws_ids.served_inv [OF assms(1,2)] assms(3) by simp
  have o: "on_top (used (en_world en)) (en_state en) (set (sub_keys st)) (set (int_keys st)) (en_state (wsc_bus st))"
    using iv by (simp add: ws_inv_def)
  obtain M where M: "index_entries (ds_index (en_state (wsc_bus st))) = index_entries (ds_index (en_state en)) + M"
    "\<forall>e. e \<in># M \<longrightarrow> concrete_first (subject_pattern e) \<and> (entry_id e \<in> set (int_keys st) \<longrightarrow> 100 \<le> priority e)"
    by (rule on_top_entries [OF o])
  have own: "e \<in># M" if "e \<in># index_entries (ds_index (en_state (wsc_bus st)))" "entry_id e \<in> set (sub_keys st) \<union> set (int_keys st)" for e
  proof -
    have "entry_id e \<notin> used (en_world en)" using ws_ids.own_key [OF assms(1) iv that(2)] .
    then have "e \<notin># index_entries (ds_index (en_state en))" using assms(2) by (auto simp: ready_engine_def)
    then show ?thesis using that(1) M(1) by simp
  qed
  have look: "e \<in># index_entries (ds_index (en_state (wsc_bus st))) \<and> pattern_matches (tokens_of (subject_pattern e)) (tokens_of subj)"
    if "e \<in> set (index_lookup (ds_index (en_state (wsc_bus st))) subj)" for e subj
  proof -
    have "e \<in># filter_mset (entry_matches subj) (index_entries (ds_index (en_state (wsc_bus st))))"
      using that ix.look_law [OF inv_wf [OF iv], of subj] by (metis set_mset_mset)
    then show ?thesis by (simp add: entry_matches_def)
  qed
  have "entry_id e \<notin> set (sub_keys st) \<union> set (int_keys st)"
    if "e \<in> set (index_lookup (ds_index (en_state (wsc_bus st))) subj)" "starts_with subj ''_reply.''" for e subj
    using look [OF that(1)] own M(2) concrete_not_reply [OF _ that(2)] by blast
  moreover have "100 \<le> priority e"
    if "e \<in># index_entries (ds_index (en_state (wsc_bus st)))" "entry_id e \<in> set (int_keys st)" for e
    using own [OF that(1)] that(2) M(2) by blast
  moreover have "proxies_ok st"
    unfolding assms(3) by (rule proxies_loop) (simp add: proxies_ok_def accept_connection_def)
  then have "length (pr_pending (wi_table p)) \<le> 1024" if "wsc_interceptor_store st h = Some p" for h p
    using that keepsD(2) [of UNIV p] by (simp add: proxies_ok_def MAX_PENDING_INTERCEPTS_def)
  ultimately show ?thesis using iv unfolding ws_inv_def by blast
qed

text \<open>C33. With an open authenticator and outside dev mode a client gets no interceptor and no delivery
  channel, whatever it sends: no event ever reaches it that it did not subscribe to, and none is held
  up by it.\<close>

theorem ws_open_auth_refused:
  assumes "wse_auth_open E" and "\<not> wse_dev_mode E"
  shows "wsc_remote_interceptors (serve_loop E inputs (accept_connection en)) = []
    \<and> wsc_remote_channels (serve_loop E inputs (accept_connection en)) = []"
  using no_proxies_loop [OF assms, of "accept_connection en" inputs] by (simp add: no_proxies_def accept_connection_def)

section \<open>A connection for concrete inputs\<close>

definition demo_ws_used :: "demo_world \<Rightarrow> string set" where
  "demo_ws_used w = (\<lambda>n. CHR ''u'' # unary_id n) ` {..< dw_fresh w}"

definition demo_ws :: "bool \<Rightarrow> (mem_store, string, nat, bytes \<Rightarrow> join_outcome, demo_world) ws_env" where
  "demo_ws open_auth =
     \<lparr>wse_bus = demo_env\<lparr>ee_ulid := (\<lambda>w. (CHR ''u'' # unary_id (dw_fresh w), w\<lparr>dw_fresh := Suc (dw_fresh w)\<rparr>)),
                         ee_channel := (\<lambda>n w. (7, w))\<rparr>,
      wse_wait = (\<lambda>tx d en. (RecvTimedOut, en)),
      wse_parse = (\<lambda>s. if s = ''s'' then Inr (Subscribe ''a.b'' 0 None)
        else if s = ''i'' then Inr (RegisterInterceptor ''a.b'' 0 None None) else Inl ''expected value''),
      wse_encode = (\<lambda>_. Some ''m''), wse_frame = (\<lambda>_. Inr ''f''), wse_b64_encode = (\<lambda>_. []),
      wse_b64_decode = (\<lambda>_. Inr []), wse_send = (\<lambda>_ w. (Inr (), w)), wse_channel = (\<lambda>h e s c w. (Inl NotReady, w)),
      wse_interceptor = (\<lambda>h p. Finished Pass p), wse_auth_open = open_auth, wse_dev_mode = False\<rparr>"

interpretation demo_conn: ws_ids "demo_ws b" demo_ws_used
  by unfold_locales
    (auto simp: demo_ws_def demo_ws_used_def demo_env_def one_token_def unary_id_def less_Suc_eq split: if_splits)

lemma demo_ws_ready: "ready_engine demo_ws_used (demo_engine [] [])"
  by (simp add: ready_engine_def demo_engine_def with_components_def ix.empty_law)

lemma demo_ws_trim: "str_trim ''a.b'' = ''a.b''"
  by (simp add: str_trim_def strip_front.simps unicode_white_space_def)

lemma demo_ws_subscribed: "sub_keys (serve_loop (demo_ws False) [SocketText ''s''] (accept_connection (demo_engine [] []))) = [''u'']"
  by (simp add: ws_text_frame_def MAX_FRAME_SIZE_def demo_ws_def ws_subscribe_def validate_remote_pattern_def
      MAX_REMOTE_PATTERN_LENGTH_def demo_ws_trim accept_connection_def MAX_SUBSCRIPTIONS_PER_CONNECTION_def bus_subscribe_def
      engine_subscribe_def validate_subject_def MAX_SUBJECT_LENGTH_def demo_engine_def with_components_def demo_env_def
      index_subscribe_def new_node_def MAX_SUBJECT_DEPTH_def ws_subscribe_opts_def ws_respond_def ws_send_def unary_id_def Let_def)


theorem ws_connection_bounded_witness:
  "set (map fst (wsc_forwarders (serve_loop (demo_ws False) [SocketText ''s''] (accept_connection (demo_engine [] []))))) = {''u''}"
proof -
  have "set (map fst (wsc_forwarders st)) = set (sub_keys st)"
    if "st = serve_loop (demo_ws False) [SocketText ''s''] (accept_connection (demo_engine [] []))" for st
    using ws_connection_bounded [OF demo_conn.ws_ids_axioms demo_ws_ready that] by (elim conjE)
  from this [OF refl] show ?thesis unfolding demo_ws_subscribed by simp
qed

theorem ws_open_auth_refused_witness:
  "wsc_remote_interceptors (serve_loop (demo_ws True) [SocketText ''i''] (accept_connection (demo_engine [] []))) = []"
  by (rule conjunct1 [OF ws_open_auth_refused]) (simp_all add: demo_ws_def)

end
