(* ===== verification/Agent_Types.thy ===== *)
theory Agent_Types
  imports Prelude
begin

text \<open>
  The data of the agent runtime (\<open>seidrum-agent-runtime/src/lib.rs\<close>): errors and their texts,
  channel identities and the session ids derived from them, tool calls and results, provider
  requests, turn records, outbound deliveries with their retry policy, and jobs. A
  \<open>serde_json::Value\<close> is a type variable. The adapters to the router and the tool dispatcher are
  at the end.
\<close>

section \<open>Errors\<close>

datatype runtime_error =
    Provider string
  | Tool string string
  | Store string
  | ToolNotRegistered string
  | IterationLimit nat

fun runtime_error_text :: "runtime_error \<Rightarrow> string" where
  "runtime_error_text (Provider e) = ''provider error: '' @ e"
| "runtime_error_text (Tool tool_name message) = ''tool `'' @ tool_name @ ''` failed: '' @ message"
| "runtime_error_text (Store e) = ''store error: '' @ e"
| "runtime_error_text (ToolNotRegistered n) = ''tool `'' @ n @ ''` is not registered''"
| "runtime_error_text (IterationLimit n) =
     ''provider did not return a final response within '' @ show_nat n @ '' iterations''"

section \<open>Turns, channels and tools\<close>

record turn_input =
  ti_session_id :: string
  ti_agent_id :: string
  ti_user_message :: string

datatype runtime_event = OutboundResponse string string string

record tool_result =
  tr_call_id :: string
  tr_tool_name :: string
  tr_content :: string
  tr_is_error :: bool

record turn_output =
  to_session_id :: string
  to_agent_id :: string
  to_final_text :: string
  to_events :: "runtime_event list"
  to_tool_results :: "tool_result list"

datatype channel_kind = Telegram | Other string

fun channel_kind_str :: "channel_kind \<Rightarrow> string" where
  "channel_kind_str Telegram = ''telegram''"
| "channel_kind_str (Other kind) = kind"

record channel_identity =
  ci_provider :: channel_kind
  ci_chat_id :: string
  ci_thread_id :: "string option"
  ci_user_id :: "string option"
  ci_message_id :: "string option"
  ci_correlation_id :: "string option"

definition session_id_of :: "channel_identity \<Rightarrow> string" where
  "session_id_of c =
     (let base = ''channel:'' @ channel_kind_str (ci_provider c) @ '':chat:'' @ ci_chat_id c in
      case ci_thread_id c of
        Some thread_id \<Rightarrow> if thread_id \<noteq> [] then base @ '':thread:'' @ thread_id else base
      | None \<Rightarrow> base)"

record channel_turn_input =
  ct_origin :: channel_identity
  ct_agent_id :: string
  ct_user_message :: string

record telegram_inbound_message =
  tm_chat_id :: string
  tm_thread_id :: "string option"
  tm_user_id :: "string option"
  tm_message_id :: string
  tm_correlation_id :: "string option"
  tm_text :: string

definition telegram_channel_identity :: "telegram_inbound_message \<Rightarrow> channel_identity" where
  "telegram_channel_identity m =
     \<lparr>ci_provider = Telegram, ci_chat_id = tm_chat_id m, ci_thread_id = tm_thread_id m, ci_user_id = tm_user_id m,
      ci_message_id = Some (tm_message_id m), ci_correlation_id = tm_correlation_id m\<rparr>"

definition into_channel_turn :: "string \<Rightarrow> telegram_inbound_message \<Rightarrow> channel_turn_input" where
  "into_channel_turn agent_id m =
     \<lparr>ct_origin = telegram_channel_identity m, ct_agent_id = agent_id, ct_user_message = tm_text m\<rparr>"

record 'j tool_call =
  tc_id :: string
  tc_name :: string
  tc_arguments :: 'j

record context_message =
  cm_role :: string
  cm_content :: string

record provider_request =
  pq_session_id :: string
  pq_agent_id :: string
  pq_messages :: "context_message list"
  pq_tool_results :: "tool_result list"

record 'j provider_response =
  pp_final_text :: "string option"
  pp_tool_calls :: "'j tool_call list"

definition response_final_text :: "string \<Rightarrow> 'j provider_response" where
  "response_final_text text = \<lparr>pp_final_text = Some text, pp_tool_calls = []\<rparr>"

definition response_tool_calls :: "'j tool_call list \<Rightarrow> 'j provider_response" where
  "response_tool_calls calls = \<lparr>pp_final_text = None, pp_tool_calls = calls\<rparr>"

definition default_max_tool_iterations :: nat where
  "default_max_tool_iterations = 4"

section \<open>Turn records\<close>

datatype 'j stored_turn_record =
    UserMessage (record_id: string) (sequence: u64) (rec_session_id: string) (rec_agent_id: string) string
  | AssistantToolCall (record_id: string) (sequence: u64) (rec_session_id: string) (rec_agent_id: string) string string 'j
  | ToolResultRecord (record_id: string) (sequence: u64) (rec_session_id: string) (rec_agent_id: string) string string string bool
  | AssistantMessage (record_id: string) (sequence: u64) (rec_session_id: string) (rec_agent_id: string) string

record 'j runtime_trace =
  rt_session_id :: string
  rt_agent_id :: string
  rt_records :: "'j stored_turn_record list"
  rt_outbound_events :: "runtime_event list"

fun outbound_of :: "'j stored_turn_record \<Rightarrow> runtime_event option" where
  "outbound_of (AssistantMessage _ _ session_id agent_id content) = Some (OutboundResponse session_id agent_id content)"
| "outbound_of _ = None"

definition build_trace :: "string \<Rightarrow> string \<Rightarrow> 'j stored_turn_record list \<Rightarrow> 'j runtime_trace" where
  "build_trace session_id agent_id records =
     \<lparr>rt_session_id = session_id, rt_agent_id = agent_id, rt_records = records,
      rt_outbound_events = List.map_filter outbound_of records\<rparr>"

section \<open>Jobs\<close>

record 'j job_definition =
  jd_job_id :: string
  jd_agent_id :: string
  jd_session_id :: "string option"
  jd_prompt :: string
  jd_schedule_spec :: "string option"
  jd_enabled :: bool
  jd_metadata :: 'j

datatype job_run_status = JobQueued | JobRunning | JobSucceeded | JobFailed | JobCancelled

record job_run_record =
  jr_run_id :: string
  jr_job_id :: string
  jr_session_id :: string
  jr_status :: job_run_status
  jr_started_sequence :: u64
  jr_completed_sequence :: "u64 option"
  jr_output_summary :: "string option"
  jr_final_text :: "string option"
  jr_error :: "string option"
  jr_trace_session_id :: string

section \<open>Outbound deliveries\<close>

datatype outbound_delivery_status = OdQueued | OdSent | OdFailed | OdRetryScheduled | OdCancelled

record outbound_delivery_record =
  od_delivery_id :: string
  od_session_id :: string
  od_channel_origin :: "channel_identity option"
  od_payload_text :: string
  od_status :: outbound_delivery_status
  od_attempt_count :: u32
  od_max_attempts :: u32
  od_retry_after :: "string option"
  od_last_error :: "string option"
  od_linked_runtime_event_id :: "string option"
  od_provider_message_id :: "string option"

definition outbound_queued ::
  "string \<Rightarrow> string \<Rightarrow> channel_identity option \<Rightarrow> string \<Rightarrow> string option \<Rightarrow> outbound_delivery_record" where
  "outbound_queued delivery_id session_id channel_origin payload_text linked =
     \<lparr>od_delivery_id = delivery_id, od_session_id = session_id, od_channel_origin = channel_origin,
      od_payload_text = payload_text, od_status = OdQueued, od_attempt_count = 0, od_max_attempts = 3,
      od_retry_after = None, od_last_error = None, od_linked_runtime_event_id = linked, od_provider_message_id = None\<rparr>"

definition with_max_attempts :: "u32 \<Rightarrow> outbound_delivery_record \<Rightarrow> outbound_delivery_record" where
  "with_max_attempts n d = d\<lparr>od_max_attempts := n\<rparr>"

definition mark_sent :: "string option \<Rightarrow> outbound_delivery_record \<Rightarrow> outbound_delivery_record" where
  "mark_sent provider_message_id d =
     d\<lparr>od_status := OdSent, od_attempt_count := od_attempt_count d + 1, od_retry_after := None,
       od_last_error := None, od_provider_message_id := provider_message_id\<rparr>"

definition mark_cancelled :: "string \<Rightarrow> outbound_delivery_record \<Rightarrow> outbound_delivery_record" where
  "mark_cancelled reason d = d\<lparr>od_status := OdCancelled, od_retry_after := None, od_last_error := Some reason\<rparr>"

record outbound_retry_policy =
  op_max_attempts :: u32
  op_backoff_schedule :: "string list"

definition slice_get :: "'a list \<Rightarrow> nat \<Rightarrow> 'a option" where
  "slice_get xs i = (if i < length xs then Some (xs ! i) else None)"

definition slice_last :: "'a list \<Rightarrow> 'a option" where
  "slice_last xs = (if xs = [] then None else Some (last xs))"

definition outbound_record_failure ::
  "outbound_retry_policy \<Rightarrow> string \<Rightarrow> outbound_delivery_record \<Rightarrow> outbound_delivery_record" where
  "outbound_record_failure policy err d =
     (let d = d\<lparr>od_attempt_count := od_attempt_count d + 1, od_last_error := Some err\<rparr>;
          max_attempts = min (od_max_attempts d) (op_max_attempts policy) in
      if od_attempt_count d \<ge> max_attempts then d\<lparr>od_status := OdFailed, od_retry_after := None\<rparr>
      else
        let backoff_index = unat (saturating_sub (od_attempt_count d) 1) in
        d\<lparr>od_status := OdRetryScheduled,
          od_retry_after := (case slice_get (op_backoff_schedule policy) backoff_index of
              Some s \<Rightarrow> Some s
            | None \<Rightarrow> slice_last (op_backoff_schedule policy))\<rparr>)"

section \<open>Adapters to the router and the dispatcher\<close>

record unified_tool_result =
  ut_tool_call_id :: string
  ut_content :: string
  ut_is_error :: bool

record 'c unified_message =
  um_role :: string
  um_content :: "string option"
  um_tool_calls :: "'c list option"
  um_tool_results :: "unified_tool_result list option"

text \<open>Of the call configuration only the three fields left open matter here; the tool schemas stay a
  type variable.\<close>

record ('c, 'ts, 'cfg) unified_llm_request =
  ul_agent_id :: string
  ul_messages :: "'c unified_message list"
  ul_system_prompt :: "string option"
  ul_tools :: "'ts list"
  ul_temperature :: "'cfg option"
  ul_max_tokens :: "u32 option"
  ul_top_p :: "'cfg option"
  ul_routing_strategy :: string
  ul_model_preferences :: "string list"
  ul_correlation_id :: "string option"
  ul_scope :: "string option"
  ul_user_id :: "string option"

definition provider_request_to_unified_llm_request ::
  "provider_request \<Rightarrow> ('c, 'ts, 'cfg) unified_llm_request" where
  "provider_request_to_unified_llm_request request =
     \<lparr>ul_agent_id = pq_agent_id request,
      ul_messages =
        map (\<lambda>m. \<lparr>um_role = cm_role m, um_content = Some (cm_content m), um_tool_calls = None, um_tool_results = None\<rparr>)
          (pq_messages request)
        @ map (\<lambda>r. \<lparr>um_role = ''tool'', um_content = Some (tr_content r), um_tool_calls = None,
              um_tool_results = Some [\<lparr>ut_tool_call_id = tr_call_id r, ut_content = tr_content r, ut_is_error = tr_is_error r\<rparr>]\<rparr>)
          (pq_tool_results request),
      ul_system_prompt = None, ul_tools = [], ul_temperature = None, ul_max_tokens = None, ul_top_p = None,
      ul_routing_strategy = ''runtime-boundary'', ul_model_preferences = [],
      ul_correlation_id = Some (pq_session_id request), ul_scope = None, ul_user_id = None\<rparr>"

record llm_tool_call =
  lt_id :: string
  lt_function_name :: string
  lt_arguments :: string

text \<open>The fields of \<open>LlmResponse\<close> that the adapter reads.\<close>

record llm_response =
  lr_content :: "string option"
  lr_tool_calls :: "llm_tool_call list option"

fun parse_tool_calls :: "(string \<Rightarrow> string + 'j) \<Rightarrow> llm_tool_call list \<Rightarrow> runtime_error + 'j tool_call list" where
  "parse_tool_calls parse [] = Inr []"
| "parse_tool_calls parse (call # calls) =
     andthen (map_err (\<lambda>e. Provider (''invalid tool arguments for call `'' @ lt_id call @ ''`: '' @ e))
                (parse (lt_arguments call))) (\<lambda>arguments.
     andthen (parse_tool_calls parse calls) (\<lambda>rest.
       Inr (\<lparr>tc_id = lt_id call, tc_name = lt_function_name call, tc_arguments = arguments\<rparr> # rest)))"

definition provider_response_try_from ::
  "(string \<Rightarrow> string + 'j) \<Rightarrow> llm_response \<Rightarrow> runtime_error + 'j provider_response" where
  "provider_response_try_from parse response =
     andthen (parse_tool_calls parse (case lr_tool_calls response of None \<Rightarrow> [] | Some calls \<Rightarrow> calls)) (\<lambda>tool_calls.
       Inr \<lparr>pp_final_text = lr_content response, pp_tool_calls = tool_calls\<rparr>)"

definition llm_router_complete ::
  "(string \<Rightarrow> string + 'j) \<Rightarrow> (('c, 'ts, 'cfg) unified_llm_request \<Rightarrow> 'w \<Rightarrow> (string + llm_response) \<times> 'w)
   \<Rightarrow> provider_request \<Rightarrow> 'w \<Rightarrow> (runtime_error + 'j provider_response) \<times> 'w" where
  "llm_router_complete parse complete_unified request w =
     (case complete_unified (provider_request_to_unified_llm_request request) w of
        (r, w) \<Rightarrow>
          (andthen (map_err (\<lambda>e. Provider (''llm router boundary failed: '' @ e)) r) (provider_response_try_from parse), w))"

record 'j tool_call_request =
  tq_tool_id :: string
  tq_plugin_id :: string
  tq_arguments :: 'j
  tq_correlation_id :: "string option"

record 'j tool_call_response =
  tp_tool_id :: string
  tp_result :: 'j
  tp_is_error :: bool

definition tool_call_to_dispatch_request :: "'j tool_call \<Rightarrow> 'j tool_call_request" where
  "tool_call_to_dispatch_request call =
     \<lparr>tq_tool_id = tc_name call, tq_plugin_id = [], tq_arguments = tc_arguments call, tq_correlation_id = Some (tc_id call)\<rparr>"

text \<open>A JSON string gives its text, every other value its rendering.\<close>

definition result_content_to_string :: "('j \<Rightarrow> string option) \<Rightarrow> ('j \<Rightarrow> string) \<Rightarrow> 'j \<Rightarrow> string" where
  "result_content_to_string as_str to_string v = (case as_str v of Some text \<Rightarrow> text | None \<Rightarrow> to_string v)"

definition tool_dispatch_execute ::
  "('j \<Rightarrow> string option) \<Rightarrow> ('j \<Rightarrow> string) \<Rightarrow> ('j tool_call_request \<Rightarrow> 'w \<Rightarrow> (string + 'j tool_call_response) \<times> 'w)
   \<Rightarrow> 'j tool_call \<Rightarrow> 'w \<Rightarrow> (runtime_error + tool_result) \<times> 'w" where
  "tool_dispatch_execute as_str to_string call_tool call w =
     (case call_tool (tool_call_to_dispatch_request call) w of
        (r, w) \<Rightarrow>
          (andthen (map_err (\<lambda>e. Tool (tc_name call) (''tool dispatch boundary failed: '' @ e)) r) (\<lambda>response.
             Inr \<lparr>tr_call_id = tc_id call, tr_tool_name = tc_name call,
                  tr_content = result_content_to_string as_str to_string (tp_result response),
                  tr_is_error = tp_is_error response\<rparr>), w))"

section \<open>Session ids\<close>

text \<open>The thread that counts: an empty one is none.\<close>

definition effective_thread :: "channel_identity \<Rightarrow> string option" where
  "effective_thread c = (case ci_thread_id c of Some t \<Rightarrow> if t = [] then None else Some t | None \<Rightarrow> None)"

lemma first_separator:
  "c \<notin> set a \<Longrightarrow> c \<notin> set a' \<Longrightarrow> a @ c # r = a' @ c # r' \<longleftrightarrow> a = a' \<and> r = r'"
proof (induction a arbitrary: a')
  case Nil
  then show ?case by (cases a') auto
next
  case (Cons x a)
  then show ?case by (cases a') auto
qed

lemma session_id_form:
  "session_id_of c = ''channel:'' @ channel_kind_str (ci_provider c) @ CHR '':'' # ''chat:'' @ ci_chat_id c
     @ (case effective_thread c of None \<Rightarrow> [] | Some t \<Rightarrow> CHR '':'' # ''thread:'' @ t)"
  by (auto simp: session_id_of_def effective_thread_def split: option.splits)

text \<open>Two channel identities whose provider names and chat ids hold no colon share a session
  exactly when provider name, chat and thread agree, an empty thread counting as none: conversations
  do not leak into each other.\<close>

theorem session_id_injective:
  assumes "CHR '':'' \<notin> set (channel_kind_str (ci_provider c))" and "CHR '':'' \<notin> set (channel_kind_str (ci_provider d))"
    and "CHR '':'' \<notin> set (ci_chat_id c)" and "CHR '':'' \<notin> set (ci_chat_id d)"
  shows "session_id_of c = session_id_of d \<longleftrightarrow>
    channel_kind_str (ci_provider c) = channel_kind_str (ci_provider d) \<and> ci_chat_id c = ci_chat_id d
    \<and> effective_thread c = effective_thread d"
proof -
  have no: "xs @ CHR '':'' # ys \<noteq> ci_chat_id c" "xs @ CHR '':'' # ys \<noteq> ci_chat_id d" for xs ys
    using assms(3,4) by (metis in_set_conv_decomp)+
  define tail where "tail = (\<lambda>x. case effective_thread x of None \<Rightarrow> [] | Some t \<Rightarrow> CHR '':'' # ''thread:'' @ t)"
  have "ci_chat_id c @ tail c = ci_chat_id d @ tail d \<longleftrightarrow> ci_chat_id c = ci_chat_id d \<and> effective_thread c = effective_thread d"
  proof (cases "effective_thread c"; cases "effective_thread d")
    fix s t assume "effective_thread c = Some s" and "effective_thread d = Some t"
    then show ?thesis using first_separator [OF assms(3,4)] by (simp add: tail_def)
  qed (use no no [symmetric] in \<open>simp_all add: tail_def\<close>)
  moreover have "session_id_of c = session_id_of d \<longleftrightarrow>
      channel_kind_str (ci_provider c) = channel_kind_str (ci_provider d) \<and> ci_chat_id c @ tail c = ci_chat_id d @ tail d"
    using first_separator [OF assms(1,2)] unfolding session_id_form tail_def by simp
  ultimately show ?thesis by simp
qed

definition demo_chat :: "string \<Rightarrow> string option \<Rightarrow> channel_identity" where
  "demo_chat chat thread =
     \<lparr>ci_provider = Telegram, ci_chat_id = chat, ci_thread_id = thread, ci_user_id = Some ''u'',
      ci_message_id = None, ci_correlation_id = None\<rparr>"

theorem session_id_injective_witness:
  "session_id_of (demo_chat ''1'' (Some ''2'')) \<noteq> session_id_of (demo_chat ''12'' None)
   \<and> session_id_of (demo_chat ''1'' (Some [])) = session_id_of (demo_chat ''1'' None)"
  using session_id_injective [of "demo_chat ''1'' (Some ''2'')" "demo_chat ''12'' None"]
    session_id_injective [of "demo_chat ''1'' (Some [])" "demo_chat ''1'' None"]
  by (simp add: demo_chat_def effective_thread_def)

text \<open>Without that condition the sessions of two conversations can be the same.\<close>

lemma session_id_collision:
  "session_id_of (demo_chat ''1:thread:2'' None) = session_id_of (demo_chat ''1'' (Some ''2''))"
  by (simp add: session_id_of_def demo_chat_def)

section \<open>Retries of outbound deliveries\<close>

lemma record_failure_limits [simp]:
  "od_max_attempts (outbound_record_failure policy e d) = od_max_attempts d"
  "od_attempt_count (outbound_record_failure policy e d) = od_attempt_count d + 1"
  "od_last_error (outbound_record_failure policy e d) = Some e"
  by (simp_all add: outbound_record_failure_def Let_def)

lemma fold_failure_max [simp]:
  "od_max_attempts (fold (outbound_record_failure policy) errs d) = od_max_attempts d"
  by (induction errs arbitrary: d) simp_all

lemma fold_failure_count:
  "od_attempt_count (fold (outbound_record_failure policy) errs d) = od_attempt_count d + of_nat (length errs)"
  by (induction errs arbitrary: d) (simp_all add: ac_simps)

lemma slice_get_or_last:
  "(case slice_get xs i of Some s \<Rightarrow> Some s | None \<Rightarrow> slice_last xs) =
     (if xs = [] then None else Some (xs ! min i (length xs - 1)))"
proof (cases "i < length xs")
  case False
  then have "min i (length xs - 1) = length xs - 1" by linarith
  with False show ?thesis by (simp add: slice_get_def slice_last_def last_conv_nth)
qed (auto simp: slice_get_def min_def)

text \<open>C40. A new delivery that keeps failing is rescheduled until its attempts reach the smaller of its
  own limit and that of the policy: before that it is waiting with the delay of its attempt in the
  schedule, or the last delay when the schedule is shorter; at the limit it is failed for good, and a
  limit of zero fails it at the first attempt.\<close>

theorem outbound_retries_bounded:
  assumes "od_attempt_count d = 0" and "errs \<noteq> []" and "length errs \<le> max 1 m"
    and "m = unat (min (od_max_attempts d) (op_max_attempts policy))"
  shows "let d' = fold (outbound_record_failure policy) errs d in
     unat (od_attempt_count d') = length errs \<and> od_last_error d' = Some (last errs) \<and>
     (if length errs < m
      then od_status d' = OdRetryScheduled
        \<and> od_retry_after d' = (if op_backoff_schedule policy = [] then None
            else Some (op_backoff_schedule policy ! min (length errs - 1) (length (op_backoff_schedule policy) - 1)))
      else od_status d' = OdFailed \<and> od_retry_after d' = None)"
proof -
  obtain pre e where e: "errs = pre @ [e]" using assms(2) by (cases errs rule: rev_cases) auto
  define d1 where "d1 = fold (outbound_record_failure policy) pre d"
  have "m < 2 ^ 32" using assms(4) unat_bound [of "min (od_max_attempts d) (op_max_attempts policy)"] by simp
  then have n: "unat (of_nat (length errs) :: u32) = length errs" using assms(3) by (simp add: unat_of_nat max_def split: if_splits)
  have c: "od_attempt_count d1 + 1 = of_nat (length errs)" "od_max_attempts d1 = od_max_attempts d"
    using assms(1) by (simp_all add: d1_def fold_failure_count e ac_simps)
  have lim: "min (od_max_attempts d) (op_max_attempts policy) \<le> of_nat (length errs) \<longleftrightarrow> m \<le> length errs"
    using n assms(4) by (simp add: word_le_nat_alt)
  have idx: "unat (saturating_sub (of_nat (length errs) :: u32) 1) = length errs - 1"
  proof -
    have "1 \<le> unat (of_nat (length errs) :: u32)" using n assms(2) by (simp add: Suc_leI)
    then show ?thesis using n by (simp add: saturating_sub_def word_le_nat_alt unat_sub)
  qed
  have "fold (outbound_record_failure policy) errs d = outbound_record_failure policy e d1"
    by (simp add: e d1_def)
  then show ?thesis
    using c n lim idx e assms(2)
    by (simp add: outbound_record_failure_def Let_def slice_get_or_last)
qed

definition demo_policy :: outbound_retry_policy where
  "demo_policy = \<lparr>op_max_attempts = 3, op_backoff_schedule = [''1s'', ''5s'']\<rparr>"

abbreviation demo_outbound :: outbound_delivery_record where
  "demo_outbound \<equiv> outbound_queued ''d'' ''s'' None ''hello'' None"

lemma demo_outbound_limit: "3 = unat (min (od_max_attempts demo_outbound) (op_max_attempts demo_policy))"
  by (simp add: demo_policy_def outbound_queued_def)

theorem outbound_retries_bounded_witness:
  "od_retry_after (fold (outbound_record_failure demo_policy) [''a'', ''b''] demo_outbound) = Some ''5s''
   \<and> od_status (fold (outbound_record_failure demo_policy) [''a'', ''b'', ''c''] demo_outbound) = OdFailed"
proof
  have c: "od_attempt_count demo_outbound = 0" by (simp add: outbound_queued_def)
  show "od_retry_after (fold (outbound_record_failure demo_policy) [''a'', ''b''] demo_outbound) = Some ''5s''"
    using outbound_retries_bounded [OF c _ _ demo_outbound_limit, of "[''a'', ''b'']"]
    by (simp add: Let_def demo_policy_def del: fold_simps)
  show "od_status (fold (outbound_record_failure demo_policy) [''a'', ''b'', ''c''] demo_outbound) = OdFailed"
    using outbound_retries_bounded [OF c _ _ demo_outbound_limit, of "[''a'', ''b'', ''c'']"]
    by (simp add: Let_def del: fold_simps)
qed

end
