(* ===== verification/Tool_Authorization.thy ===== *)
theory Tool_Authorization
  imports Agent_Types
begin

text \<open>
  Authorization of tool calls in the agent runtime: the rules of a boundary, decided in order, the
  executor that runs a tool only when it is allowed, and the executor that writes an audit record
  first. The contract \<open>audit_log\<close> is what the audited executor relies on in its store; the store in
  memory is an instance, the durable one another (in the theory of the durable store).
\<close>

section \<open>Decisions and rules\<close>

datatype tool_permission_decision = Allow | Deny string | RequireApproval string

record 'j tool_authorization_request =
  ta_call_id :: string
  ta_tool_name :: string
  ta_arguments :: 'j
  ta_session_id :: "string option"
  ta_channel_origin :: "channel_identity option"

record tool_authorization_context =
  tx_session_id :: "string option"
  tx_channel_origin :: "channel_identity option"

record tool_authorization_rule =
  tl_tool_name :: string
  tl_decision :: tool_permission_decision
  tl_channel_kind :: "channel_kind option"
  tl_user_id :: "string option"
  tl_session_id :: "string option"

definition rule_for_tool :: "string \<Rightarrow> tool_permission_decision \<Rightarrow> tool_authorization_rule" where
  "rule_for_tool tool_name decision =
     \<lparr>tl_tool_name = tool_name, tl_decision = decision, tl_channel_kind = None, tl_user_id = None, tl_session_id = None\<rparr>"

definition rule_with_channel_kind :: "channel_kind \<Rightarrow> tool_authorization_rule \<Rightarrow> tool_authorization_rule" where
  "rule_with_channel_kind k r = r\<lparr>tl_channel_kind := Some k\<rparr>"

definition rule_with_user_id :: "string \<Rightarrow> tool_authorization_rule \<Rightarrow> tool_authorization_rule" where
  "rule_with_user_id u r = r\<lparr>tl_user_id := Some u\<rparr>"

definition rule_with_session_id :: "string \<Rightarrow> tool_authorization_rule \<Rightarrow> tool_authorization_rule" where
  "rule_with_session_id s r = r\<lparr>tl_session_id := Some s\<rparr>"

definition rule_matches :: "tool_authorization_rule \<Rightarrow> string \<Rightarrow> tool_authorization_context \<Rightarrow> bool" where
  "rule_matches r tool_name context =
     (if tl_tool_name r \<noteq> tool_name then False
      else if (case tl_channel_kind r of None \<Rightarrow> False
               | Some expected \<Rightarrow> map_option ci_provider (tx_channel_origin context) \<noteq> Some expected) then False
      else if (case tl_user_id r of None \<Rightarrow> False
               | Some expected \<Rightarrow> Option.bind (tx_channel_origin context) ci_user_id \<noteq> Some expected) then False
      else if (case tl_session_id r of None \<Rightarrow> False
               | Some expected \<Rightarrow> tx_session_id context \<noteq> Some expected) then False
      else True)"

record rule_boundary =
  rb_rules :: "tool_authorization_rule list"
  rb_default_decision :: tool_permission_decision

definition default_deny :: "tool_authorization_rule list \<Rightarrow> rule_boundary" where
  "default_deny rules = \<lparr>rb_rules = rules, rb_default_decision = Deny ''no matching authorization rule''\<rparr>"

definition decision_for :: "rule_boundary \<Rightarrow> string \<Rightarrow> tool_authorization_context \<Rightarrow> tool_permission_decision" where
  "decision_for b tool_name context =
     (case find (\<lambda>rule. rule_matches rule tool_name context) (rb_rules b) of
        Some rule \<Rightarrow> tl_decision rule
      | None \<Rightarrow> rb_default_decision b)"

definition rule_authorize :: "rule_boundary \<Rightarrow> 'j tool_authorization_request \<Rightarrow> 'w \<Rightarrow> tool_permission_decision \<times> 'w" where
  "rule_authorize b request w =
     (decision_for b (ta_tool_name request)
        \<lparr>tx_session_id = ta_session_id request, tx_channel_origin = ta_channel_origin request\<rparr>, w)"

fun permission_decision_reason :: "tool_permission_decision \<Rightarrow> string option" where
  "permission_decision_reason Allow = None"
| "permission_decision_reason (Deny reason) = Some reason"
| "permission_decision_reason (RequireApproval reason) = Some reason"

section \<open>Secure execution\<close>

type_synonym ('j, 'w) tool_executor = "'j tool_call \<Rightarrow> 'w \<Rightarrow> (runtime_error + tool_result) \<times> 'w"

definition authorization_request ::
  "'j tool_call \<Rightarrow> string option \<Rightarrow> channel_identity option \<Rightarrow> 'j tool_authorization_request" where
  "authorization_request call session origin =
     \<lparr>ta_call_id = tc_id call, ta_tool_name = tc_name call, ta_arguments = tc_arguments call,
      ta_session_id = session, ta_channel_origin = origin\<rparr>"

definition refusal :: "'j tool_call \<Rightarrow> string \<Rightarrow> tool_result" where
  "refusal call content = \<lparr>tr_call_id = tc_id call, tr_tool_name = tc_name call, tr_content = content, tr_is_error = True\<rparr>"

fun run_decision :: "('j, 'w) tool_executor \<Rightarrow> tool_permission_decision \<Rightarrow> ('j, 'w) tool_executor" where
  "run_decision inner Allow call w = inner call w"
| "run_decision inner (Deny reason) call w = (Inr (refusal call (''tool authorization denied: '' @ reason)), w)"
| "run_decision inner (RequireApproval reason) call w =
     (Inr (refusal call (''tool authorization requires approval: '' @ reason)), w)"

definition secure_execute ::
  "('j, 'w) tool_executor \<Rightarrow> ('j tool_authorization_request \<Rightarrow> 'w \<Rightarrow> tool_permission_decision \<times> 'w)
   \<Rightarrow> string option \<Rightarrow> channel_identity option \<Rightarrow> ('j, 'w) tool_executor" where
  "secure_execute inner authorize session origin call w =
     (case authorize (authorization_request call session origin) w of
        (decision, w) \<Rightarrow> run_decision inner decision call w)"

section \<open>Audits\<close>

record audit_record =
  ad_audit_id :: string
  ad_sequence :: u64
  ad_decision :: tool_permission_decision
  ad_tool_name :: string
  ad_call_id :: string
  ad_session_id :: "string option"
  ad_channel_origin :: "channel_identity option"
  ad_reason :: "string option"

definition audit_new :: "string \<Rightarrow> u64 \<Rightarrow> tool_permission_decision \<Rightarrow> 'j tool_authorization_request \<Rightarrow> audit_record" where
  "audit_new i seq decision request =
     \<lparr>ad_audit_id = i, ad_sequence = seq, ad_decision = decision, ad_tool_name = ta_tool_name request,
      ad_call_id = ta_call_id request, ad_session_id = ta_session_id request,
      ad_channel_origin = ta_channel_origin request, ad_reason = permission_decision_reason decision\<rparr>"

record 'w audit_store =
  au_append :: "audit_record \<Rightarrow> 'w \<Rightarrow> (runtime_error + unit) \<times> 'w"
  au_list :: "'w \<Rightarrow> runtime_error + audit_record list"

definition audits_for_session :: "'w audit_store \<Rightarrow> string \<Rightarrow> 'w \<Rightarrow> runtime_error + audit_record list" where
  "audits_for_session S session_id w =
     andthen (au_list S w) (\<lambda>rs. Inr (filter (\<lambda>r. ad_session_id r = Some session_id) rs))"

definition audits_for_tool :: "'w audit_store \<Rightarrow> string \<Rightarrow> 'w \<Rightarrow> runtime_error + audit_record list" where
  "audits_for_tool S tool_name w =
     andthen (au_list S w) (\<lambda>rs. Inr (filter (\<lambda>r. ad_tool_name r = tool_name) rs))"

definition append_inspection_authorization_audit :: "'w audit_store \<Rightarrow> audit_record \<Rightarrow> 'w \<Rightarrow> (runtime_error + unit) \<times> 'w" where
  "append_inspection_authorization_audit S r w = au_append S r w"

definition audited_execute ::
  "('w \<Rightarrow> string \<times> 'w) \<Rightarrow> ('j, 'w) tool_executor
   \<Rightarrow> ('j tool_authorization_request \<Rightarrow> 'w \<Rightarrow> tool_permission_decision \<times> 'w) \<Rightarrow> 'w audit_store
   \<Rightarrow> string option \<Rightarrow> channel_identity option \<Rightarrow> ('j, 'w) tool_executor" where
  "audited_execute new_id inner authorize S session origin call w =
     (let request = authorization_request call session origin in
      case authorize request w of (decision, w) \<Rightarrow>
      (case au_list S w of
         Inl e \<Rightarrow> (Inl e, w)
       | Inr audits \<Rightarrow>
           (case new_id w of (i, w) \<Rightarrow>
           (case au_append S (audit_new i (of_nat (length audits) + 1) decision request) w of
              (Inl e, w) \<Rightarrow> (Inl e, w)
            | (Inr _, w) \<Rightarrow> run_decision inner decision call w))))"

text \<open>The audit store in memory: a vector behind a lock, which a panic elsewhere poisons. The world is
  the store and whatever else there is.\<close>

record mem_audits =
  ma_inner :: "audit_record list"
  ma_poisoned :: bool

definition mem_audit_store :: "(mem_audits \<times> 'v) audit_store" where
  "mem_audit_store =
     \<lparr>au_append = (\<lambda>record w.
        if ma_poisoned (fst w) then (Inl (Store ''in-memory audit store lock poisoned''), w)
        else (Inr (), ((fst w)\<lparr>ma_inner := ma_inner (fst w) @ [record]\<rparr>, snd w))),
      au_list = (\<lambda>w.
        if ma_poisoned (fst w) then Inl (Store ''in-memory audit store lock poisoned'')
        else Inr (sort_key ad_sequence (ma_inner (fst w))))\<rparr>"

section \<open>The contract of an audit store\<close>

locale audit_log =
  fixes S :: "'w audit_store" and new_id :: "'w \<Rightarrow> string \<times> 'w" and view :: "'w \<Rightarrow> audit_record list" and ok :: "'w \<Rightarrow> bool"
  assumes append_ok: "au_append S r w = (Inr (), w') \<Longrightarrow> ok w' \<Longrightarrow> view w' = view w @ [r]"
    and append_err: "au_append S r w = (Inl e, w') \<Longrightarrow> view w' = view w"
    and list_ok: "au_list S w = Inr rs \<Longrightarrow> mset rs = mset (view w)"
    and id_frame: "view (snd (new_id w)) = view w"
begin

lemma list_length: "au_list S w = Inr rs \<Longrightarrow> length rs = length (view w)"
  by (metis list_ok size_mset)

lemma audited_cases:
  assumes "authorize (authorization_request call session origin) w = (decision, w1)"
  shows "(\<exists>e w2. audited_execute new_id inner authorize S session origin call w = (Inl e, w2) \<and> view w2 = view w1)
    \<or> (\<exists>i w2. (ok w2 \<longrightarrow> view w2 = view w1 @ [audit_new i (of_nat (length (view w1)) + 1) decision (authorization_request call session origin)])
        \<and> audited_execute new_id inner authorize S session origin call w = run_decision inner decision call w2)"
proof (cases "au_list S w1")
  case (Inl e)
  with assms show ?thesis by (auto simp: audited_execute_def Let_def)
next
  case (Inr audits)
  obtain i w2 where i: "new_id w1 = (i, w2)" by (rule prod.exhaust)
  let ?r = "audit_new i (of_nat (length audits) + 1) decision (authorization_request call session origin)"
  obtain r w3 where r: "au_append S ?r w2 = (r, w3)" by (rule prod.exhaust)
  have v: "view w2 = view w1" using id_frame [of w1] i by simp
  show ?thesis
  proof (cases r)
    case (Inl e)
    then show ?thesis
      using assms Inr i r v append_err [of ?r w2 e w3] by (auto simp: audited_execute_def Let_def)
  next
    case ok: (Inr u)
    then have "ok w3 \<longrightarrow> view w3 = view w1 @ [?r]" using append_ok [of ?r w2 w3] r v by simp
    then show ?thesis
      using assms Inr i r ok list_length [OF Inr] by (auto simp: audited_execute_def Let_def)
  qed
qed

end

interpretation mem_audit: audit_log mem_audit_store "\<lambda>w. (fst (f (snd w)), fst w, snd (f (snd w)))" "\<lambda>w. ma_inner (fst w)" "\<lambda>_. True"
  by unfold_locales (auto simp: mem_audit_store_def split: if_splits)

section \<open>Properties\<close>

lemma find_first:
  "find P xs = Some x \<longleftrightarrow> (\<exists>i < length xs. xs ! i = x \<and> P x \<and> (\<forall>j < i. \<not> P (xs ! j)))"
  by (auto simp: find_Some_iff)

lemma rule_matches_name: "rule_matches r n c \<Longrightarrow> tl_tool_name r = n"
  by (auto simp: rule_matches_def split: if_splits)

text \<open>The first matching rule allows the call, or none matches and the default does.\<close>

definition allowed :: "rule_boundary \<Rightarrow> string \<Rightarrow> tool_authorization_context \<Rightarrow> bool" where
  "allowed b tool_name context \<longleftrightarrow>
     (\<exists>i < length (rb_rules b). rule_matches (rb_rules b ! i) tool_name context
        \<and> (\<forall>j < i. \<not> rule_matches (rb_rules b ! j) tool_name context) \<and> tl_decision (rb_rules b ! i) = Allow)
     \<or> (\<forall>r \<in> set (rb_rules b). \<not> rule_matches r tool_name context) \<and> rb_default_decision b = Allow"

lemma decision_allow: "decision_for b n c = Allow \<longleftrightarrow> allowed b n c"
proof (cases "find (\<lambda>r. rule_matches r n c) (rb_rules b)")
  case None
  then have none: "\<forall>r \<in> set (rb_rules b). \<not> rule_matches r n c" by (simp add: find_None_iff)
  then have "\<not> rule_matches (rb_rules b ! i) n c" if "i < length (rb_rules b)" for i using that by simp
  then show ?thesis using None none by (auto simp: decision_for_def allowed_def)
next
  case (Some r)
  then obtain i where i: "i < length (rb_rules b)" "rb_rules b ! i = r" "rule_matches r n c"
      "\<forall>j < i. \<not> rule_matches (rb_rules b ! j) n c"
    unfolding find_first by blast
  then have "allowed b n c \<longleftrightarrow> tl_decision r = Allow"
    unfolding allowed_def by (metis linorder_neqE_nat nth_mem)
  with Some show ?thesis by (simp add: decision_for_def)
qed

text \<open>C36. A tool behind the rules runs exactly when the first rule that matches the tool, the channel,
  the user and the session allows it, or no rule matches and the default is to allow; in every other
  case nothing happens and the caller gets a result marked as an error. With the default to deny, a
  tool that no rule names never runs.\<close>

theorem tool_runs_iff_allowed:
  "(if allowed b (tc_name call) \<lparr>tx_session_id = session, tx_channel_origin = origin\<rparr>
    then secure_execute inner (rule_authorize b) session origin call w = inner call w
    else \<exists>c. secure_execute inner (rule_authorize b) session origin call w =
      (Inr \<lparr>tr_call_id = tc_id call, tr_tool_name = tc_name call, tr_content = c, tr_is_error = True\<rparr>, w))
   \<and> (tc_name call \<notin> tl_tool_name ` set rules \<longrightarrow>
      secure_execute inner (rule_authorize (default_deny rules)) session origin call w =
      (Inr \<lparr>tr_call_id = tc_id call, tr_tool_name = tc_name call,
           tr_content = ''tool authorization denied: no matching authorization rule'', tr_is_error = True\<rparr>, w))"
proof
  let ?c = "\<lparr>tx_session_id = session, tx_channel_origin = origin\<rparr>"
  show "if allowed b (tc_name call) ?c
    then secure_execute inner (rule_authorize b) session origin call w = inner call w
    else \<exists>c. secure_execute inner (rule_authorize b) session origin call w =
      (Inr \<lparr>tr_call_id = tc_id call, tr_tool_name = tc_name call, tr_content = c, tr_is_error = True\<rparr>, w)"
    unfolding decision_allow [symmetric]
    by (cases "decision_for b (tc_name call) ?c")
      (simp_all add: secure_execute_def rule_authorize_def authorization_request_def refusal_def)
  show "tc_name call \<notin> tl_tool_name ` set rules \<longrightarrow>
      secure_execute inner (rule_authorize (default_deny rules)) session origin call w =
      (Inr \<lparr>tr_call_id = tc_id call, tr_tool_name = tc_name call,
           tr_content = ''tool authorization denied: no matching authorization rule'', tr_is_error = True\<rparr>, w)"
  proof
    assume "tc_name call \<notin> tl_tool_name ` set rules"
    then have "find (\<lambda>rule. rule_matches rule (tc_name call) ?c) rules = None"
      by (metis (no_types, lifting) find_None_iff image_eqI rule_matches_name)
    then show "secure_execute inner (rule_authorize (default_deny rules)) session origin call w =
      (Inr \<lparr>tr_call_id = tc_id call, tr_tool_name = tc_name call,
           tr_content = ''tool authorization denied: no matching authorization rule'', tr_is_error = True\<rparr>, w)"
      by (simp add: secure_execute_def rule_authorize_def authorization_request_def refusal_def decision_for_def default_deny_def)
  qed
qed

definition demo_rules :: "tool_authorization_rule list" where
  "demo_rules = [rule_with_user_id ''root'' (rule_for_tool ''shell'' Allow), rule_for_tool ''shell'' (RequireApproval ''ask'')]"

definition demo_call :: "string \<Rightarrow> string tool_call" where
  "demo_call n = \<lparr>tc_id = ''c1'', tc_name = n, tc_arguments = ''{}''\<rparr>"

theorem tool_runs_iff_allowed_witness:
  "secure_execute (\<lambda>c n. (Inl (Tool ''x'' ''y''), Suc n)) (rule_authorize (default_deny demo_rules)) None None (demo_call ''rm'') (0::nat)
     = (Inr \<lparr>tr_call_id = ''c1'', tr_tool_name = ''rm'',
           tr_content = ''tool authorization denied: no matching authorization rule'', tr_is_error = True\<rparr>, 0)"
  using tool_runs_iff_allowed [of "default_deny demo_rules" "demo_call ''rm''" None None "\<lambda>c n. (Inl (Tool ''x'' ''y''), Suc n)" "0::nat" demo_rules]
  by (simp add: demo_rules_def rule_with_user_id_def rule_for_tool_def demo_call_def)

text \<open>C37. No tool runs unaudited: over a store that keeps what it accepts (the durable one until
  its 64-bit keys are used up), the audited executor either
  fails without a record and without running the tool, or has written exactly one record, numbered
  one past the records there were and carrying the decision and the ids of the call, before the tool
  runs; and it runs the tool only on \<open>Allow\<close>.\<close>

theorem audit_precedes_tool:
  assumes "audit_log S new_id view ok"
    and "authorize (authorization_request call session origin) w = (decision, w1)"
  shows "(\<exists>e w2. audited_execute new_id inner authorize S session origin call w = (Inl e, w2) \<and> view w2 = view w1)
    \<or> (\<exists>r w2. (ok w2 \<longrightarrow> view w2 = view w1 @ [r]) \<and> ad_sequence r = of_nat (length (view w1)) + 1 \<and> ad_decision r = decision
        \<and> ad_tool_name r = tc_name call \<and> ad_call_id r = tc_id call \<and> ad_session_id r = session \<and> ad_channel_origin r = origin
        \<and> (if decision = Allow
           then audited_execute new_id inner authorize S session origin call w = inner call w2
           else \<exists>c. audited_execute new_id inner authorize S session origin call w =
             (Inr \<lparr>tr_call_id = tc_id call, tr_tool_name = tc_name call, tr_content = c, tr_is_error = True\<rparr>, w2)))"
proof -
  note c = audit_log.audited_cases [OF assms(1), where authorize = authorize and inner = inner, OF assms(2)]
  then show ?thesis
  proof
    assume "\<exists>i w2. (ok w2 \<longrightarrow> view w2 = view w1 @ [audit_new i (of_nat (length (view w1)) + 1) decision (authorization_request call session origin)])
        \<and> audited_execute new_id inner authorize S session origin call w = run_decision inner decision call w2"
    then obtain i w2 where o: "ok w2 \<longrightarrow> view w2 = view w1 @ [audit_new i (of_nat (length (view w1)) + 1) decision (authorization_request call session origin)]"
        "audited_execute new_id inner authorize S session origin call w = run_decision inner decision call w2" by blast
    show ?thesis
      by (rule disjI2, intro exI conjI, rule o(1), unfold o(2))
        (cases decision; simp add: audit_new_def authorization_request_def refusal_def)+
  qed blast
qed

definition demo_tool :: "(string, mem_audits \<times> nat) tool_executor" where
  "demo_tool c w = (Inr \<lparr>tr_call_id = tc_id c, tr_tool_name = tc_name c, tr_content = ''ok'', tr_is_error = False\<rparr>, fst w, Suc (snd w))"

definition demo_audited :: "mem_audits \<times> nat \<Rightarrow> (runtime_error + tool_result) \<times> (mem_audits \<times> nat)" where
  "demo_audited w = audited_execute (\<lambda>w. (''id'', fst w, snd w)) demo_tool (rule_authorize (default_deny demo_rules))
     mem_audit_store (Some ''s'') None (demo_call ''shell'') w"

theorem audit_precedes_tool_witness:
  "length (ma_inner (fst (snd (demo_audited (\<lparr>ma_inner = [], ma_poisoned = False\<rparr>, 0))))) = 1
   \<and> snd (snd (demo_audited (\<lparr>ma_inner = [], ma_poisoned = False\<rparr>, 0))) = 0"
proof -
  let ?w = "(\<lparr>ma_inner = [], ma_poisoned = False\<rparr>, 0::nat)"
  have a: "rule_authorize (default_deny demo_rules) (authorization_request (demo_call ''shell'') (Some ''s'') None) ?w
      = (RequireApproval ''ask'', ?w)"
    by (simp add: rule_authorize_def decision_for_def default_deny_def demo_rules_def rule_with_user_id_def rule_for_tool_def
        rule_matches_def authorization_request_def demo_call_def)
  define d where "d = demo_audited ?w"
  note t = audit_precedes_tool [OF mem_audit.audit_log_axioms [of "\<lambda>n. (''id'', n)"], where authorize = "rule_authorize (default_deny demo_rules)",
      OF a, of demo_tool]
  have "fst d = Inr (refusal (demo_call ''shell'') ''tool authorization requires approval: ask'') \<and> snd (snd d) = 0"
    using a by (simp add: d_def demo_audited_def audited_execute_def mem_audit_store_def Let_def)
  with t show ?thesis
    unfolding d_def demo_audited_def by auto
qed

end
