(* ===== verification/Agent_Store.thy ===== *)
theory Agent_Store
  imports Tool_Authorization Redb_Store Codec
begin

text \<open>
  The stores of the agent runtime: the store traits as records of operations on a world, the turn
  store in memory and the durable one on redb (\<open>InMemoryTurnStore\<close>, \<open>RedbTurnStore\<close>). redb and
  serde are parameters as in the event store: tables are records of operations, the serialisers and
  the faults are fields of the environment. The contract \<open>turn_store\<close> is what the runtime relies on;
  both stores are interpreted on it.
\<close>

section \<open>Store traits\<close>

record ('j, 'w) runtime_store =
  rs_append :: "'j stored_turn_record \<Rightarrow> 'w \<Rightarrow> (runtime_error + unit) \<times> 'w"
  rs_records :: "string \<Rightarrow> 'w \<Rightarrow> runtime_error + 'j stored_turn_record list"

record ('j, 'w) job_store = "('j, 'w) runtime_store" +
  js_put_job_definition :: "'j job_definition \<Rightarrow> 'w \<Rightarrow> (runtime_error + unit) \<times> 'w"
  js_job_definition :: "string \<Rightarrow> 'w \<Rightarrow> runtime_error + 'j job_definition option"
  js_list_job_definitions :: "'w \<Rightarrow> runtime_error + 'j job_definition list"
  js_put_job_run :: "job_run_record \<Rightarrow> 'w \<Rightarrow> (runtime_error + unit) \<times> 'w"
  js_job_run :: "string \<Rightarrow> 'w \<Rightarrow> runtime_error + job_run_record option"
  js_list_job_runs :: "string \<Rightarrow> 'w \<Rightarrow> runtime_error + job_run_record list"

record 'w outbound_store =
  os_put_outbound_delivery :: "outbound_delivery_record \<Rightarrow> 'w \<Rightarrow> (runtime_error + unit) \<times> 'w"
  os_outbound_delivery :: "string \<Rightarrow> 'w \<Rightarrow> runtime_error + outbound_delivery_record option"
  os_list_outbound_deliveries :: "'w \<Rightarrow> runtime_error + outbound_delivery_record list"

definition outbound_deliveries_for_session ::
  "'w outbound_store \<Rightarrow> string \<Rightarrow> outbound_delivery_status option \<Rightarrow> 'w \<Rightarrow> runtime_error + outbound_delivery_record list" where
  "outbound_deliveries_for_session S session_id status w =
     andthen (os_list_outbound_deliveries S w) (\<lambda>rs.
       Inr (filter (\<lambda>r. case status of None \<Rightarrow> True | Some st \<Rightarrow> od_status r = st)
              (filter (\<lambda>r. od_session_id r = session_id) rs)))"

section \<open>The turn store in memory\<close>

record 'j mem_turns =
  mt_records_by_session :: "string \<rightharpoonup> 'j stored_turn_record list"
  mt_poisoned :: bool

definition unwrap_or_default :: "'a list option \<Rightarrow> 'a list" where
  "unwrap_or_default x = (case x of None \<Rightarrow> [] | Some xs \<Rightarrow> xs)"

definition mem_turn_append ::
  "'j stored_turn_record \<Rightarrow> 'j mem_turns \<Rightarrow> (runtime_error + unit) \<times> 'j mem_turns" where
  "mem_turn_append r s =
     (let session_id = rec_session_id r in
      if mt_poisoned s then (Inl (Store ''in-memory store lock poisoned''), s)
      else (Inr (), s\<lparr>mt_records_by_session := (mt_records_by_session s)
              (session_id \<mapsto> unwrap_or_default (mt_records_by_session s session_id) @ [r])\<rparr>))"

definition mem_turn_records :: "string \<Rightarrow> 'j mem_turns \<Rightarrow> runtime_error + 'j stored_turn_record list" where
  "mem_turn_records session_id s =
     (if mt_poisoned s then Inl (Store ''in-memory store lock poisoned'')
      else Inr (unwrap_or_default (mt_records_by_session s session_id)))"

text \<open>A store as a part of the world.\<close>

definition on_store :: "('s \<Rightarrow> 'a \<times> 's) \<Rightarrow> 's \<times> 'v \<Rightarrow> 'a \<times> ('s \<times> 'v)" where
  "on_store f w = (case f (fst w) of (r, s) \<Rightarrow> (r, s, snd w))"

definition mem_turn_store :: "('j, 'j mem_turns \<times> 'v) runtime_store" where
  "mem_turn_store = \<lparr>rs_append = (\<lambda>r. on_store (mem_turn_append r)), rs_records = (\<lambda>i w. mem_turn_records i (fst w))\<rparr>"

section \<open>The durable store\<close>

record ('ut, 'st, 'j) agent_redb_env =
  RUNTIME_RECORDS_TABLE :: "('ut, u64, bytes) table_ops"
  JOB_DEFINITIONS_TABLE :: "('st, string, bytes) table_ops"
  JOB_RUNS_TABLE :: "('st, string, bytes) table_ops"
  AUTHORIZATION_AUDITS_TABLE :: "('ut, u64, bytes) table_ops"
  OUTBOUND_DELIVERIES_TABLE :: "('st, string, bytes) table_ops"
  ser_turn :: "'j stored_turn_record \<Rightarrow> string + bytes"
  de_turn :: "bytes \<Rightarrow> string + 'j stored_turn_record"
  ser_job :: "'j job_definition \<Rightarrow> string + bytes"
  de_job :: "bytes \<Rightarrow> string + 'j job_definition"
  ser_run :: "job_run_record \<Rightarrow> string + bytes"
  de_run :: "bytes \<Rightarrow> string + job_run_record"
  ser_audit :: "audit_record \<Rightarrow> string + bytes"
  de_audit :: "bytes \<Rightarrow> string + audit_record"
  ser_outbound :: "outbound_delivery_record \<Rightarrow> string + bytes"
  de_outbound :: "bytes \<Rightarrow> string + outbound_delivery_record"
  ag_fault :: "string \<Rightarrow> fault_point \<Rightarrow> string option"

record ('ut, 'st) agent_db =
  g_records :: 'ut
  g_jobs :: 'st
  g_runs :: 'st
  g_audits :: 'ut
  g_outbound :: 'st

definition ag_io :: "('ut, 'st, 'j) agent_redb_env \<Rightarrow> string \<Rightarrow> fault_point \<Rightarrow> string \<Rightarrow> runtime_error + unit" where
  "ag_io E op p msg = (case ag_fault E op p of None \<Rightarrow> Inr () | Some e \<Rightarrow> Inl (Store (msg @ e)))"

definition ag_serde :: "string \<Rightarrow> string + 'a \<Rightarrow> runtime_error + 'a" where
  "ag_serde msg r = map_err (\<lambda>e. Store (msg @ e)) r"

text \<open>A write of the table that returns an error before the commit leaves it as it was.\<close>

definition committed :: "('t \<Rightarrow> 'db \<Rightarrow> 'db) \<Rightarrow> 'db \<Rightarrow> runtime_error + 't \<Rightarrow> (runtime_error + unit) \<times> 'db" where
  "committed upd db r = (case r of Inl e \<Rightarrow> (Inl e, db) | Inr t \<Rightarrow> (Inr (), upd t db))"

text \<open>One transaction that inserts a row under a key, and one that inserts it one past the last key.\<close>

definition put_row ::
  "('ut, 'st, 'j) agent_redb_env \<Rightarrow> string \<Rightarrow> string \<Rightarrow> string \<Rightarrow> string \<Rightarrow> string
   \<Rightarrow> ('t, 'k, bytes) table_ops \<Rightarrow> 't \<Rightarrow> 'k \<Rightarrow> string + bytes \<Rightarrow> runtime_error + 't" where
  "put_row E op ser_msg open_msg insert_msg commit_msg T t k data =
     andthen (ag_serde ser_msg data) (\<lambda>serialized.
     andthen (ag_io E op (At 0) ''failed to begin redb write: '') (\<lambda>_.
     andthen (ag_io E op (At 1) open_msg) (\<lambda>_.
     andthen (ag_io E op (At 2) insert_msg) (\<lambda>_.
     andthen (ag_io E op (At 3) commit_msg) (\<lambda>_.
     Inr (tb_insert T t k serialized))))))"

definition append_row ::
  "('ut, 'st, 'j) agent_redb_env \<Rightarrow> string \<Rightarrow> string \<Rightarrow> string \<Rightarrow> string \<Rightarrow> string \<Rightarrow> string
   \<Rightarrow> ('t, u64, bytes) table_ops \<Rightarrow> 't \<Rightarrow> string + bytes \<Rightarrow> runtime_error + 't" where
  "append_row E op ser_msg open_msg last_msg insert_msg commit_msg T t data =
     andthen (ag_serde ser_msg data) (\<lambda>serialized.
     andthen (ag_io E op (At 0) ''failed to begin redb write: '') (\<lambda>_.
     andthen (ag_io E op (At 1) open_msg) (\<lambda>_.
     andthen (ag_io E op (At 2) last_msg) (\<lambda>_.
     let store_sequence = (case tb_last T t of None \<Rightarrow> 0 | Some (key, _) \<Rightarrow> key) + 1 in
     andthen (ag_io E op (At 3) insert_msg) (\<lambda>_.
     andthen (ag_io E op (At 4) commit_msg) (\<lambda>_.
     Inr (tb_insert T t store_sequence serialized)))))))"

definition get_row ::
  "('ut, 'st, 'j) agent_redb_env \<Rightarrow> string \<Rightarrow> string \<Rightarrow> string \<Rightarrow> string
   \<Rightarrow> ('t, 'k, bytes) table_ops \<Rightarrow> 't \<Rightarrow> 'k \<Rightarrow> (bytes \<Rightarrow> string + 'a) \<Rightarrow> runtime_error + 'a option" where
  "get_row E op open_msg get_msg de_msg T t k de =
     andthen (ag_io E op (At 0) ''failed to begin redb read: '') (\<lambda>_.
     andthen (ag_io E op (At 1) open_msg) (\<lambda>_.
     andthen (ag_io E op (At 2) get_msg) (\<lambda>_.
     case tb_get T t k of
       None \<Rightarrow> Inr None
     | Some data \<Rightarrow> andthen (ag_serde de_msg (de data)) (\<lambda>x. Inr (Some x)))))"

fun rows_loop ::
  "('ut, 'st, 'j) agent_redb_env \<Rightarrow> string \<Rightarrow> string \<Rightarrow> string \<Rightarrow> (bytes \<Rightarrow> string + 'a) \<Rightarrow> ('a \<Rightarrow> bool) \<Rightarrow> nat
   \<Rightarrow> ('k \<times> bytes) list \<Rightarrow> 'a list \<Rightarrow> runtime_error + 'a list" where
  "rows_loop E op read_msg de_msg de keep i [] records = Inr records"
| "rows_loop E op read_msg de_msg de keep i ((_, data) # entries) records =
     andthen (ag_io E op (InLoop i 0) read_msg) (\<lambda>_.
     andthen (ag_serde de_msg (de data)) (\<lambda>record.
       rows_loop E op read_msg de_msg de keep (Suc i) entries
         (if keep record then records @ [record] else records)))"

definition list_rows ::
  "('ut, 'st, 'j) agent_redb_env \<Rightarrow> string \<Rightarrow> string \<Rightarrow> string \<Rightarrow> string \<Rightarrow> string
   \<Rightarrow> ('t, 'k, bytes) table_ops \<Rightarrow> 't \<Rightarrow> (bytes \<Rightarrow> string + 'a) \<Rightarrow> ('a \<Rightarrow> bool) \<Rightarrow> runtime_error + 'a list" where
  "list_rows E op open_msg iter_msg read_msg de_msg T t de keep =
     andthen (ag_io E op (At 0) ''failed to begin redb read: '') (\<lambda>_.
     andthen (ag_io E op (At 1) open_msg) (\<lambda>_.
     andthen (ag_io E op (At 2) iter_msg) (\<lambda>_.
     rows_loop E op read_msg de_msg de keep 0 (tb_iter T t) [])))"

definition redb_turn_append ::
  "('ut, 'st, 'j) agent_redb_env \<Rightarrow> 'j stored_turn_record \<Rightarrow> ('ut, 'st) agent_db \<Rightarrow> (runtime_error + unit) \<times> ('ut, 'st) agent_db" where
  "redb_turn_append E r db =
     committed (\<lambda>t db. db\<lparr>g_records := t\<rparr>) db
       (append_row E ''append'' ''failed to serialize turn record: '' ''failed to open runtime records table: ''
          ''failed to read last record: '' ''failed to insert record: '' ''failed to commit record: ''
          (RUNTIME_RECORDS_TABLE E) (g_records db) (ser_turn E r))"

definition redb_turn_records ::
  "('ut, 'st, 'j) agent_redb_env \<Rightarrow> string \<Rightarrow> ('ut, 'st) agent_db \<Rightarrow> runtime_error + 'j stored_turn_record list" where
  "redb_turn_records E session_id db =
     andthen (list_rows E ''records'' ''failed to open runtime records table: '' ''failed to iterate runtime records: ''
        ''failed to read record: '' ''failed to deserialize turn record: ''
        (RUNTIME_RECORDS_TABLE E) (g_records db) (de_turn E) (\<lambda>r. rec_session_id r = session_id)) (\<lambda>records.
     Inr (sort_key sequence records))"

definition redb_audit_append ::
  "('ut, 'st, 'j) agent_redb_env \<Rightarrow> audit_record \<Rightarrow> ('ut, 'st) agent_db \<Rightarrow> (runtime_error + unit) \<times> ('ut, 'st) agent_db" where
  "redb_audit_append E r db =
     committed (\<lambda>t db. db\<lparr>g_audits := t\<rparr>) db
       (append_row E ''append_authorization_audit'' ''failed to serialize authorization audit: ''
          ''failed to open authorization audits table: '' ''failed to read last authorization audit: ''
          ''failed to insert authorization audit: '' ''failed to commit authorization audit: ''
          (AUTHORIZATION_AUDITS_TABLE E) (g_audits db) (ser_audit E r))"

definition redb_audit_list ::
  "('ut, 'st, 'j) agent_redb_env \<Rightarrow> ('ut, 'st) agent_db \<Rightarrow> runtime_error + audit_record list" where
  "redb_audit_list E db =
     andthen (list_rows E ''list_authorization_audits'' ''failed to open authorization audits table: ''
        ''failed to iterate authorization audits: '' ''failed to read authorization audit: ''
        ''failed to deserialize authorization audit: ''
        (AUTHORIZATION_AUDITS_TABLE E) (g_audits db) (de_audit E) (\<lambda>_. True)) (\<lambda>records.
     Inr (sort_key ad_sequence records))"

definition redb_outbound_put ::
  "('ut, 'st, 'j) agent_redb_env \<Rightarrow> outbound_delivery_record \<Rightarrow> ('ut, 'st) agent_db \<Rightarrow> (runtime_error + unit) \<times> ('ut, 'st) agent_db" where
  "redb_outbound_put E r db =
     committed (\<lambda>t db. db\<lparr>g_outbound := t\<rparr>) db
       (put_row E ''put_outbound_delivery'' ''failed to serialize outbound delivery: ''
          ''failed to open outbound deliveries table: '' ''failed to insert outbound delivery: ''
          ''failed to commit outbound delivery: ''
          (OUTBOUND_DELIVERIES_TABLE E) (g_outbound db) (od_delivery_id r) (ser_outbound E r))"

definition redb_outbound_get ::
  "('ut, 'st, 'j) agent_redb_env \<Rightarrow> string \<Rightarrow> ('ut, 'st) agent_db \<Rightarrow> runtime_error + outbound_delivery_record option" where
  "redb_outbound_get E delivery_id db =
     get_row E ''outbound_delivery'' ''failed to open outbound deliveries table: '' ''failed to read outbound delivery: ''
       ''failed to deserialize outbound delivery: '' (OUTBOUND_DELIVERIES_TABLE E) (g_outbound db) delivery_id (de_outbound E)"

definition redb_outbound_list ::
  "('ut, 'st, 'j) agent_redb_env \<Rightarrow> ('ut, 'st) agent_db \<Rightarrow> runtime_error + outbound_delivery_record list" where
  "redb_outbound_list E db =
     andthen (list_rows E ''list_outbound_deliveries'' ''failed to open outbound deliveries table: ''
        ''failed to iterate outbound deliveries: '' ''failed to read outbound delivery: ''
        ''failed to deserialize outbound delivery: ''
        (OUTBOUND_DELIVERIES_TABLE E) (g_outbound db) (de_outbound E) (\<lambda>_. True)) (\<lambda>records.
     Inr (sort_key od_delivery_id records))"

definition redb_job_put ::
  "('ut, 'st, 'j) agent_redb_env \<Rightarrow> 'j job_definition \<Rightarrow> ('ut, 'st) agent_db \<Rightarrow> (runtime_error + unit) \<times> ('ut, 'st) agent_db" where
  "redb_job_put E d db =
     committed (\<lambda>t db. db\<lparr>g_jobs := t\<rparr>) db
       (put_row E ''put_job_definition'' ''failed to serialize job definition: ''
          ''failed to open job definitions table: '' ''failed to insert job definition: ''
          ''failed to commit job definition: '' (JOB_DEFINITIONS_TABLE E) (g_jobs db) (jd_job_id d) (ser_job E d))"

definition redb_job_get ::
  "('ut, 'st, 'j) agent_redb_env \<Rightarrow> string \<Rightarrow> ('ut, 'st) agent_db \<Rightarrow> runtime_error + 'j job_definition option" where
  "redb_job_get E job_id db =
     get_row E ''job_definition'' ''failed to open job definitions table: '' ''failed to read job definition: ''
       ''failed to deserialize job definition: '' (JOB_DEFINITIONS_TABLE E) (g_jobs db) job_id (de_job E)"

definition redb_job_list ::
  "('ut, 'st, 'j) agent_redb_env \<Rightarrow> ('ut, 'st) agent_db \<Rightarrow> runtime_error + 'j job_definition list" where
  "redb_job_list E db =
     andthen (list_rows E ''list_job_definitions'' ''failed to open job definitions table: ''
        ''failed to iterate job definitions: '' ''failed to read job definition: '' ''failed to deserialize job definition: ''
        (JOB_DEFINITIONS_TABLE E) (g_jobs db) (de_job E) (\<lambda>_. True)) (\<lambda>definitions.
     Inr (sort_key jd_job_id definitions))"

definition redb_run_put ::
  "('ut, 'st, 'j) agent_redb_env \<Rightarrow> job_run_record \<Rightarrow> ('ut, 'st) agent_db \<Rightarrow> (runtime_error + unit) \<times> ('ut, 'st) agent_db" where
  "redb_run_put E r db =
     committed (\<lambda>t db. db\<lparr>g_runs := t\<rparr>) db
       (put_row E ''put_job_run'' ''failed to serialize job run: '' ''failed to open job runs table: ''
          ''failed to insert job run: '' ''failed to commit job run: ''
          (JOB_RUNS_TABLE E) (g_runs db) (jr_run_id r) (ser_run E r))"

definition redb_run_get ::
  "('ut, 'st, 'j) agent_redb_env \<Rightarrow> string \<Rightarrow> ('ut, 'st) agent_db \<Rightarrow> runtime_error + job_run_record option" where
  "redb_run_get E run_id db =
     get_row E ''job_run'' ''failed to open job runs table: '' ''failed to read job run: ''
       ''failed to deserialize job run: '' (JOB_RUNS_TABLE E) (g_runs db) run_id (de_run E)"

definition redb_run_list ::
  "('ut, 'st, 'j) agent_redb_env \<Rightarrow> string \<Rightarrow> ('ut, 'st) agent_db \<Rightarrow> runtime_error + job_run_record list" where
  "redb_run_list E job_id db =
     andthen (list_rows E ''list_job_runs'' ''failed to open job runs table: '' ''failed to iterate job runs: ''
        ''failed to read job run: '' ''failed to deserialize job run: ''
        (JOB_RUNS_TABLE E) (g_runs db) (de_run E) (\<lambda>r. jr_job_id r = job_id)) (\<lambda>runs.
     Inr (sort_key jr_started_sequence runs))"

definition redb_job_store :: "('ut, 'st, 'j) agent_redb_env \<Rightarrow> ('j, ('ut, 'st) agent_db \<times> 'v) job_store" where
  "redb_job_store E =
     \<lparr>rs_append = (\<lambda>r. on_store (redb_turn_append E r)), rs_records = (\<lambda>i w. redb_turn_records E i (fst w)),
      js_put_job_definition = (\<lambda>d. on_store (redb_job_put E d)), js_job_definition = (\<lambda>i w. redb_job_get E i (fst w)),
      js_list_job_definitions = (\<lambda>w. redb_job_list E (fst w)),
      js_put_job_run = (\<lambda>r. on_store (redb_run_put E r)), js_job_run = (\<lambda>i w. redb_run_get E i (fst w)),
      js_list_job_runs = (\<lambda>i w. redb_run_list E i (fst w))\<rparr>"

definition redb_turn_store :: "('ut, 'st, 'j) agent_redb_env \<Rightarrow> ('j, ('ut, 'st) agent_db \<times> 'v) runtime_store" where
  "redb_turn_store E = \<lparr>rs_append = (\<lambda>r. on_store (redb_turn_append E r)), rs_records = (\<lambda>i w. redb_turn_records E i (fst w))\<rparr>"

definition redb_audit_store :: "('ut, 'st, 'j) agent_redb_env \<Rightarrow> (('ut, 'st) agent_db \<times> 'v) audit_store" where
  "redb_audit_store E =
     \<lparr>au_append = (\<lambda>r. on_store (redb_audit_append E r)), au_list = (\<lambda>w. redb_audit_list E (fst w))\<rparr>"

definition redb_outbound_store :: "('ut, 'st, 'j) agent_redb_env \<Rightarrow> (('ut, 'st) agent_db \<times> 'v) outbound_store" where
  "redb_outbound_store E =
     \<lparr>os_put_outbound_delivery = (\<lambda>r. on_store (redb_outbound_put E r)),
      os_outbound_delivery = (\<lambda>i w. redb_outbound_get E i (fst w)),
      os_list_outbound_deliveries = (\<lambda>w. redb_outbound_list E (fst w))\<rparr>"

section \<open>Rows\<close>

definition decoded :: "('t, 'k, bytes) table_ops \<Rightarrow> (bytes \<Rightarrow> string + 'a) \<Rightarrow> 't \<Rightarrow> 'a list" where
  "decoded T de t = List.map_filter (\<lambda>p. case de (snd p) of Inl _ \<Rightarrow> None | Inr x \<Rightarrow> Some x) (tb_iter T t)"

lemma ag_io_Inr [err_simps]: "ag_io E op p msg = Inr u \<longleftrightarrow> ag_fault E op p = None"
  by (auto simp: ag_io_def split: option.splits)

lemma ag_serde_Inr [err_simps]: "ag_serde msg r = Inr x \<longleftrightarrow> r = Inr x"
  by (simp add: ag_serde_def map_err_eq_Inr)

lemma rows_loop_ok:
  "rows_loop E op m1 m2 de keep i items acc = Inr rs \<Longrightarrow>
     rs = acc @ filter keep (List.map_filter (\<lambda>p. case de (snd p) of Inl _ \<Rightarrow> None | Inr x \<Rightarrow> Some x) items)"
proof (induction items arbitrary: i acc)
  case (Cons p items)
  obtain k data where p: "p = (k, data)" by (rule prod.exhaust)
  from Cons.prems p obtain x where "de data = Inr x"
      "rows_loop E op m1 m2 de keep (Suc i) items (if keep x then acc @ [x] else acc) = Inr rs"
    by (auto simp: err_simps)
  with Cons.IH p show ?case by (fastforce simp: map_filter_simps split: if_splits)
qed (simp add: map_filter_simps)

lemma list_rows_ok: "list_rows E op m0 m1 m2 m3 T t de keep = Inr rs \<Longrightarrow> rs = filter keep (decoded T de t)"
  by (auto simp: list_rows_def decoded_def err_simps dest: rows_loop_ok)

lemma get_row_ok:
  "get_row E op m1 m2 m3 T t k de = Inr x \<Longrightarrow>
     (case tb_get T t k of None \<Rightarrow> x = None | Some b \<Rightarrow> (\<exists>y. de b = Inr y \<and> x = Some y))"
  by (auto simp: get_row_def err_simps split: option.splits)

lemma put_row_ok: "put_row E op m0 m1 m2 m3 T t k data = Inr t' \<longleftrightarrow>
    (\<exists>b. data = Inr b \<and> t' = tb_insert T t k b) \<and> (\<forall>n < 4. ag_fault E op (At n) = None)"
  by (auto simp: put_row_def err_simps less_Suc_eq numeral_eq_Suc)

lemma word_succ_less: "x + 1 \<noteq> 0 \<Longrightarrow> x < x + 1" for x :: "'a::len word"
proof -
  assume "x + 1 \<noteq> 0"
  then have "Suc (unat x) \<noteq> 2 ^ LENGTH('a)" by (metis add.commute plus_1_eq_Suc unat_0 unat_eq_zero mod_self unat_1 unat_plus_simple unat_word_ariths(1) word_unat_eq_iff)
  then have "Suc (unat x) < 2 ^ LENGTH('a)" using unat_bound [of x] by linarith
  then show ?thesis by (simp add: word_less_nat_alt unat_word_ariths)
qed

context redb_table
begin

lemma iter_insert_last:
  assumes "\<And>j. tb_get T t j \<noteq> None \<Longrightarrow> j < k"
  shows "tb_iter T (tb_insert T t k v) = tb_iter T t @ [(k, v)]"
proof (rule strict_sorted_map_of_unique)
  have keys: "j < k" if "j \<in> set (map fst (tb_iter T t))" for j
    using that assms unfolding iter_keys by simp
  then have none: "map_of (tb_iter T t) k = None" by (metis less_irrefl list.set_map map_of_eq_None_iff)
  show "sorted_wrt (<) (map fst (tb_iter T t @ [(k, v)]))"
    using keys iter_sorted by (auto simp: sorted_wrt_append)
  show "map_of (tb_iter T (tb_insert T t k v)) = map_of (tb_iter T t @ [(k, v)])"
    using insert_law [of t k v] none by (auto simp: fun_eq_iff map_add_def get_iter split: option.splits)
qed (rule iter_sorted)

end

text \<open>A table whose key 0 is free has never wrapped; then an append comes last.\<close>

lemma append_row_iter:
  assumes "redb_table T" and "append_row E op m0 m1 m2 m3 m4 T t data = Inr t'" and "tb_get T t' 0 = None"
  shows "\<exists>b k. data = Inr b \<and> tb_iter T t' = tb_iter T t @ [(k, b)]" and "tb_get T t 0 = None"
proof -
  define q where "q = (case tb_last T t of None \<Rightarrow> 0 | Some (key, _) \<Rightarrow> key) + (1 :: u64)"
  obtain b where b: "data = Inr b" "t' = tb_insert T t q b"
    using assms(2) by (auto simp: append_row_def err_simps q_def Let_def)
  have q: "q \<noteq> 0" and z: "tb_get T t 0 = None"
    using assms(3) redb_table.insert_law [OF assms(1), of t q b 0] b(2) by (auto split: if_splits)
  have "j < q" if "tb_get T t j \<noteq> None" for j
  proof (cases "tb_last T t")
    case None
    then show ?thesis using that redb_table.last_none [OF assms(1), of t] by simp
  next
    case (Some p)
    obtain k v where p: "p = (k, v)" by (rule prod.exhaust)
    with Some q have "k < q" using word_succ_less [of k] by (simp add: q_def)
    moreover have "j \<le> k" using redb_table.last_some(2) [OF assms(1)] Some p that by blast
    ultimately show ?thesis by simp
  qed
  then show "\<exists>b k. data = Inr b \<and> tb_iter T t' = tb_iter T t @ [(k, b)]"
    using redb_table.iter_insert_last [OF assms(1)] b by blast
  show "tb_get T t 0 = None" by (rule z)
qed

end
