(* ===== verification/Agent_Codec.thy ===== *)
theory Agent_Codec
  imports Tool_Authorization Codec
begin

text \<open>
  Codecs of the stored types of the agent runtime, an instance of the serialiser its durable store
  takes as a parameter; JSON values are kept as their text.
\<close>

definition enc_bool :: "bool encoder" where "enc_bool = enc_via (\<lambda>b. if b then 1 else 0) enc_nat"
definition dec_bool :: "bool decoder" where "dec_bool = dec_via (\<lambda>n. n = 1) dec_nat"

lemma sound_bool [codec]: "sound enc_bool dec_bool"
  unfolding enc_bool_def dec_bool_def by (rule sound_via [OF sound_nat]) simp

abbreviation enc_ostring :: "string option encoder" where "enc_ostring \<equiv> enc_option enc_string"
abbreviation dec_ostring :: "string option decoder" where "dec_ostring \<equiv> dec_option dec_string"

fun kind_name :: "channel_kind \<Rightarrow> string option" where
  "kind_name Telegram = None"
| "kind_name (Other s) = Some s"

definition kind_of :: "string option \<Rightarrow> channel_kind" where
  "kind_of x = (case x of None \<Rightarrow> Telegram | Some s \<Rightarrow> Other s)"

lemma kind_of_name: "kind_of (kind_name k) = k"
  by (cases k) (simp_all add: kind_of_def)

definition enc_identity :: "channel_identity encoder" where
  "enc_identity = enc_via (\<lambda>c. (kind_name (ci_provider c), ci_chat_id c, ci_thread_id c, ci_user_id c, ci_message_id c, ci_correlation_id c))
     (enc_pair enc_ostring (enc_pair enc_string (enc_pair enc_ostring (enc_pair enc_ostring (enc_pair enc_ostring enc_ostring)))))"

definition dec_identity :: "channel_identity decoder" where
  "dec_identity = dec_via (\<lambda>(p, c, t, u, m, r). \<lparr>ci_provider = kind_of p, ci_chat_id = c, ci_thread_id = t, ci_user_id = u,
       ci_message_id = m, ci_correlation_id = r\<rparr>)
     (dec_pair dec_ostring (dec_pair dec_string (dec_pair dec_ostring (dec_pair dec_ostring (dec_pair dec_ostring dec_ostring)))))"

lemma sound_identity [codec]: "sound enc_identity dec_identity"
  unfolding enc_identity_def dec_identity_def by (rule sound_via) (intro codec, simp add: kind_of_name)

fun decision_code :: "tool_permission_decision \<Rightarrow> nat \<times> string" where
  "decision_code Allow = (0, [])"
| "decision_code (Deny r) = (1, r)"
| "decision_code (RequireApproval r) = (2, r)"

definition decision_of :: "nat \<times> string \<Rightarrow> tool_permission_decision" where
  "decision_of p = (if fst p = 0 then Allow else if fst p = 1 then Deny (snd p) else RequireApproval (snd p))"

lemma decision_of_code: "decision_of (decision_code d) = d"
  by (cases d) (simp_all add: decision_of_def)

definition enc_audit :: "audit_record encoder" where
  "enc_audit = enc_via (\<lambda>a. (ad_audit_id a, ad_sequence a, decision_code (ad_decision a), ad_tool_name a, ad_call_id a,
       ad_session_id a, ad_channel_origin a, ad_reason a))
     (enc_pair enc_string (enc_pair enc_word (enc_pair (enc_pair enc_nat enc_string) (enc_pair enc_string (enc_pair enc_string
       (enc_pair enc_ostring (enc_pair (enc_option enc_identity) enc_ostring)))))))"

definition dec_audit :: "audit_record decoder" where
  "dec_audit = dec_via (\<lambda>(i, q, d, t, c, s, o', r). \<lparr>ad_audit_id = i, ad_sequence = q, ad_decision = decision_of d, ad_tool_name = t,
       ad_call_id = c, ad_session_id = s, ad_channel_origin = o', ad_reason = r\<rparr>)
     (dec_pair dec_string (dec_pair dec_word (dec_pair (dec_pair dec_nat dec_string) (dec_pair dec_string (dec_pair dec_string
       (dec_pair dec_ostring (dec_pair (dec_option dec_identity) dec_ostring)))))))"

lemma sound_audit [codec]: "sound enc_audit dec_audit"
  unfolding enc_audit_def dec_audit_def by (rule sound_via) (intro codec, simp add: decision_of_code)

fun turn_tuple :: "string stored_turn_record \<Rightarrow> nat \<times> string \<times> u64 \<times> string \<times> string \<times> string list \<times> bool" where
  "turn_tuple (UserMessage i q s a c) = (0, i, q, s, a, [c], False)"
| "turn_tuple (AssistantToolCall i q s a c t j) = (1, i, q, s, a, [c, t, j], False)"
| "turn_tuple (ToolResultRecord i q s a c t r e) = (2, i, q, s, a, [c, t, r], e)"
| "turn_tuple (AssistantMessage i q s a c) = (3, i, q, s, a, [c], False)"

definition turn_of :: "nat \<times> string \<times> u64 \<times> string \<times> string \<times> string list \<times> bool \<Rightarrow> string stored_turn_record" where
  "turn_of = (\<lambda>(k, i, q, s, a, xs, e).
     if k = 0 then UserMessage i q s a (xs ! 0)
     else if k = 1 then AssistantToolCall i q s a (xs ! 0) (xs ! 1) (xs ! 2)
     else if k = 2 then ToolResultRecord i q s a (xs ! 0) (xs ! 1) (xs ! 2) e
     else AssistantMessage i q s a (xs ! 0))"

lemma turn_of_tuple: "turn_of (turn_tuple r) = r"
  by (cases r) (simp_all add: turn_of_def numeral_2_eq_2)

definition enc_turn :: "string stored_turn_record encoder" where
  "enc_turn = enc_via turn_tuple (enc_pair enc_nat (enc_pair enc_string (enc_pair enc_word (enc_pair enc_string (enc_pair enc_string
     (enc_pair (enc_list enc_string) enc_bool))))))"

definition dec_turn :: "string stored_turn_record decoder" where
  "dec_turn = dec_via turn_of (dec_pair dec_nat (dec_pair dec_string (dec_pair dec_word (dec_pair dec_string (dec_pair dec_string
     (dec_pair (dec_list dec_string) dec_bool))))))"

lemma sound_turn [codec]: "sound enc_turn dec_turn"
  unfolding enc_turn_def dec_turn_def by (rule sound_via) (intro codec, simp add: turn_of_tuple)

definition enc_job :: "string job_definition encoder" where
  "enc_job = enc_via (\<lambda>d. (jd_job_id d, jd_agent_id d, jd_session_id d, jd_prompt d, jd_schedule_spec d, jd_enabled d, jd_metadata d))
     (enc_pair enc_string (enc_pair enc_string (enc_pair enc_ostring (enc_pair enc_string (enc_pair enc_ostring (enc_pair enc_bool enc_string))))))"

definition dec_job :: "string job_definition decoder" where
  "dec_job = dec_via (\<lambda>(i, a, s, p, c, e, m). \<lparr>jd_job_id = i, jd_agent_id = a, jd_session_id = s, jd_prompt = p,
       jd_schedule_spec = c, jd_enabled = e, jd_metadata = m\<rparr>)
     (dec_pair dec_string (dec_pair dec_string (dec_pair dec_ostring (dec_pair dec_string (dec_pair dec_ostring (dec_pair dec_bool dec_string))))))"

lemma sound_job [codec]: "sound enc_job dec_job"
  unfolding enc_job_def dec_job_def by (rule sound_via) (intro codec, simp)

fun run_code :: "job_run_status \<Rightarrow> nat" where
  "run_code JobQueued = 0" | "run_code JobRunning = 1" | "run_code JobSucceeded = 2" | "run_code JobFailed = 3" | "run_code JobCancelled = 4"

definition run_of :: "nat \<Rightarrow> job_run_status" where
  "run_of n = (if n = 0 then JobQueued else if n = 1 then JobRunning else if n = 2 then JobSucceeded else if n = 3 then JobFailed else JobCancelled)"

lemma run_of_code: "run_of (run_code s) = s"
  by (cases s) (simp_all add: run_of_def)

definition enc_run :: "job_run_record encoder" where
  "enc_run = enc_via (\<lambda>r. (jr_run_id r, jr_job_id r, jr_session_id r, run_code (jr_status r), jr_started_sequence r,
       jr_completed_sequence r, jr_output_summary r, jr_final_text r, jr_error r, jr_trace_session_id r))
     (enc_pair enc_string (enc_pair enc_string (enc_pair enc_string (enc_pair enc_nat (enc_pair enc_word (enc_pair (enc_option enc_word)
       (enc_pair enc_ostring (enc_pair enc_ostring (enc_pair enc_ostring enc_string)))))))))"

definition dec_run :: "job_run_record decoder" where
  "dec_run = dec_via (\<lambda>(i, j, s, st, q, c, u, f, e, t). \<lparr>jr_run_id = i, jr_job_id = j, jr_session_id = s, jr_status = run_of st,
       jr_started_sequence = q, jr_completed_sequence = c, jr_output_summary = u, jr_final_text = f, jr_error = e, jr_trace_session_id = t\<rparr>)
     (dec_pair dec_string (dec_pair dec_string (dec_pair dec_string (dec_pair dec_nat (dec_pair dec_word (dec_pair (dec_option dec_word)
       (dec_pair dec_ostring (dec_pair dec_ostring (dec_pair dec_ostring dec_string)))))))))"

lemma sound_run [codec]: "sound enc_run dec_run"
  unfolding enc_run_def dec_run_def by (rule sound_via) (intro codec, simp add: run_of_code)

fun od_code :: "outbound_delivery_status \<Rightarrow> nat" where
  "od_code OdQueued = 0" | "od_code OdSent = 1" | "od_code OdFailed = 2" | "od_code OdRetryScheduled = 3" | "od_code OdCancelled = 4"

definition od_of :: "nat \<Rightarrow> outbound_delivery_status" where
  "od_of n = (if n = 0 then OdQueued else if n = 1 then OdSent else if n = 2 then OdFailed else if n = 3 then OdRetryScheduled else OdCancelled)"

lemma od_of_code: "od_of (od_code s) = s"
  by (cases s) (simp_all add: od_of_def)

definition enc_outbound :: "outbound_delivery_record encoder" where
  "enc_outbound = enc_via (\<lambda>r. (od_delivery_id r, od_session_id r, od_channel_origin r, od_payload_text r, od_code (od_status r),
       od_attempt_count r, od_max_attempts r, od_retry_after r, od_last_error r, od_linked_runtime_event_id r, od_provider_message_id r))
     (enc_pair enc_string (enc_pair enc_string (enc_pair (enc_option enc_identity) (enc_pair enc_string (enc_pair enc_nat (enc_pair enc_word
       (enc_pair enc_word (enc_pair enc_ostring (enc_pair enc_ostring (enc_pair enc_ostring enc_ostring))))))))))"

definition dec_outbound :: "outbound_delivery_record decoder" where
  "dec_outbound = dec_via (\<lambda>(i, s, c, p, st, a, m, t, e, l, pm). \<lparr>od_delivery_id = i, od_session_id = s, od_channel_origin = c,
       od_payload_text = p, od_status = od_of st, od_attempt_count = a, od_max_attempts = m, od_retry_after = t, od_last_error = e,
       od_linked_runtime_event_id = l, od_provider_message_id = pm\<rparr>)
     (dec_pair dec_string (dec_pair dec_string (dec_pair (dec_option dec_identity) (dec_pair dec_string (dec_pair dec_nat (dec_pair dec_word
       (dec_pair dec_word (dec_pair dec_ostring (dec_pair dec_ostring (dec_pair dec_ostring dec_ostring))))))))))"

lemma sound_outbound [codec]: "sound enc_outbound dec_outbound"
  unfolding enc_outbound_def dec_outbound_def by (rule sound_via) (intro codec, simp add: od_of_code)

end
