(* ===== verification/Agent_Contract.thy ===== *)
theory Agent_Contract
  imports Agent_Store Agent_Codec
begin

text \<open>
  The contracts of the stores of the agent runtime and their instances. \<open>turn_store\<close> says that a
  store keeps, per session, the records it accepted in the order it accepted them; \<open>job_runs\<close> adds
  the job runs. \<open>agent_redb\<close> collects the laws of redb and serde, from which the durable store meets
  the contracts; it is interpreted on red-black trees and the codecs. At the end: the two turn
  stores agree.
\<close>

section \<open>Contracts\<close>

text \<open>\<open>ok\<close> says that the store has not run out of keys.\<close>

locale turn_store =
  fixes S :: "('j, 'w, 'z) runtime_store_scheme" and log :: "'w \<Rightarrow> string \<Rightarrow> 'j stored_turn_record list"
    and ok :: "'w \<Rightarrow> bool"
  assumes append_ok: "rs_append S r w = (Inr (), w') \<Longrightarrow> ok w' \<Longrightarrow>
      ok w \<and> log w' = (log w)(rec_session_id r := log w (rec_session_id r) @ [r])"
    and append_err: "rs_append S r w = (Inl e, w') \<Longrightarrow> log w' = log w \<and> ok w' = ok w"
    and records_ok: "rs_records S i w = Inr rs \<Longrightarrow> mset rs = mset (log w i)"
    and records_sorted: "rs_records S i w = Inr rs \<Longrightarrow> sorted (map sequence (log w i)) \<Longrightarrow> rs = log w i"
begin

lemma records_length: "rs_records S i w = Inr rs \<Longrightarrow> length rs = length (log w i)"
  by (metis records_ok size_mset)

end

locale job_runs = turn_store J log ok
  for J :: "('j, 'w) job_store" and log :: "'w \<Rightarrow> string \<Rightarrow> 'j stored_turn_record list" and ok :: "'w \<Rightarrow> bool" +
  fixes runs :: "'w \<Rightarrow> string \<Rightarrow> job_run_record option"
  assumes put_run_ok: "js_put_job_run J r w = (Inr (), w') \<Longrightarrow>
      runs w' = (runs w)(jr_run_id r \<mapsto> r) \<and> log w' = log w \<and> ok w' = ok w"
    and put_run_err: "js_put_job_run J r w = (Inl e, w') \<Longrightarrow> runs w' = runs w \<and> log w' = log w \<and> ok w' = ok w"
    and append_runs: "rs_append J rc w = (res, w') \<Longrightarrow> runs w' = runs w"
    and job_run_ok: "js_job_run J i w = Inr x \<Longrightarrow> x = runs w i"

section \<open>The store in memory\<close>

interpretation mem_turns: turn_store mem_turn_store "\<lambda>w i. unwrap_or_default (mt_records_by_session (fst w) i)" "\<lambda>_. True"
  by unfold_locales
    (auto simp: mem_turn_store_def on_store_def mem_turn_append_def mem_turn_records_def unwrap_or_default_def
      fun_eq_iff Let_def split: if_splits)

section \<open>The durable store\<close>

locale agent_redb = rec: redb_table "RUNTIME_RECORDS_TABLE E" + job: redb_table "JOB_DEFINITIONS_TABLE E"
  + run: redb_table "JOB_RUNS_TABLE E" + aud: redb_table "AUTHORIZATION_AUDITS_TABLE E"
  + out: redb_table "OUTBOUND_DELIVERIES_TABLE E"
  for E :: "('ut, 'st, 'j) agent_redb_env"
  + assumes turn_roundtrip: "ser_turn E r = Inr b \<Longrightarrow> de_turn E b = Inr r"
    and run_roundtrip: "ser_run E u = Inr b \<Longrightarrow> de_run E b = Inr u"
    and audit_roundtrip: "ser_audit E a = Inr b \<Longrightarrow> de_audit E b = Inr a"
    and outbound_roundtrip: "ser_outbound E d = Inr b \<Longrightarrow> de_outbound E b = Inr d"
    and job_roundtrip: "ser_job E c = Inr b \<Longrightarrow> de_job E b = Inr c"

definition redb_log :: "('ut, 'st, 'j) agent_redb_env \<Rightarrow> ('ut, 'st) agent_db \<Rightarrow> string \<Rightarrow> 'j stored_turn_record list" where
  "redb_log E db i = filter (\<lambda>r. rec_session_id r = i) (decoded (RUNTIME_RECORDS_TABLE E) (de_turn E) (g_records db))"

definition redb_runs :: "('ut, 'st, 'j) agent_redb_env \<Rightarrow> ('ut, 'st) agent_db \<Rightarrow> string \<Rightarrow> job_run_record option" where
  "redb_runs E db i = (case tb_get (JOB_RUNS_TABLE E) (g_runs db) i of None \<Rightarrow> None
     | Some b \<Rightarrow> (case de_run E b of Inl _ \<Rightarrow> None | Inr r \<Rightarrow> Some r))"

definition redb_audits :: "('ut, 'st, 'j) agent_redb_env \<Rightarrow> ('ut, 'st) agent_db \<Rightarrow> audit_record list" where
  "redb_audits E db = decoded (AUTHORIZATION_AUDITS_TABLE E) (de_audit E) (g_audits db)"

lemma on_store_iff: "on_store f w = (r, w') \<longleftrightarrow> f (fst w) = (r, fst w') \<and> snd w' = snd w"
  by (cases w') (auto simp: on_store_def split: prod.splits)

context agent_redb
begin

lemma turn_append_ok:
  assumes "redb_turn_append E r db = (Inr (), db')" and "tb_get (RUNTIME_RECORDS_TABLE E) (g_records db') 0 = None"
  shows "tb_get (RUNTIME_RECORDS_TABLE E) (g_records db) 0 = None"
    and "redb_log E db' = (redb_log E db)(rec_session_id r := redb_log E db (rec_session_id r) @ [r])"
    and "redb_runs E db' = redb_runs E db"
proof -
  obtain t where t: "append_row E ''append'' ''failed to serialize turn record: '' ''failed to open runtime records table: ''
          ''failed to read last record: '' ''failed to insert record: '' ''failed to commit record: ''
          (RUNTIME_RECORDS_TABLE E) (g_records db) (ser_turn E r) = Inr t" "db' = db\<lparr>g_records := t\<rparr>"
    using assms(1) by (auto simp: redb_turn_append_def committed_def split: sum.splits)
  note it = append_row_iter [OF rec.redb_table_axioms t(1)]
  show "tb_get (RUNTIME_RECORDS_TABLE E) (g_records db) 0 = None" using it(2) assms(2) t(2) by simp
  obtain b k where b: "ser_turn E r = Inr b" "tb_iter (RUNTIME_RECORDS_TABLE E) t = tb_iter (RUNTIME_RECORDS_TABLE E) (g_records db) @ [(k, b)]"
    using it(1) assms(2) t(2) by auto
  then have "decoded (RUNTIME_RECORDS_TABLE E) (de_turn E) t = decoded (RUNTIME_RECORDS_TABLE E) (de_turn E) (g_records db) @ [r]"
    using turn_roundtrip [OF b(1)] by (simp add: decoded_def map_filter_def)
  then show "redb_log E db' = (redb_log E db)(rec_session_id r := redb_log E db (rec_session_id r) @ [r])"
    using t(2) by (auto simp: redb_log_def fun_eq_iff)
  show "redb_runs E db' = redb_runs E db" using t(2) by (simp add: redb_runs_def fun_eq_iff)
qed

lemma turn_append_err: "redb_turn_append E r db = (Inl e, db') \<Longrightarrow> db' = db"
  by (auto simp: redb_turn_append_def committed_def split: sum.splits)

lemma turn_records_ok: "redb_turn_records E i db = Inr rs \<Longrightarrow> rs = sort_key sequence (redb_log E db i)"
  by (auto simp: redb_turn_records_def redb_log_def err_simps dest!: list_rows_ok)

lemma run_put_ok:
  assumes "redb_run_put E r db = (Inr (), db')"
  shows "redb_runs E db' = (redb_runs E db)(jr_run_id r \<mapsto> r)" and "redb_log E db' = redb_log E db" and "g_records db' = g_records db"
  using assms run_roundtrip
  by (auto simp: redb_run_put_def committed_def put_row_ok redb_runs_def redb_log_def run.insert_law fun_eq_iff split: sum.splits)

lemma run_put_err: "redb_run_put E r db = (Inl e, db') \<Longrightarrow> db' = db"
  by (auto simp: redb_run_put_def committed_def split: sum.splits)

lemma append_runs: "redb_turn_append E r db = (res, db') \<Longrightarrow> redb_runs E db' = redb_runs E db"
  by (auto simp: redb_turn_append_def committed_def redb_runs_def fun_eq_iff split: sum.splits)

lemma run_get_ok: "redb_run_get E i db = Inr x \<Longrightarrow> x = redb_runs E db i"
  by (auto simp: redb_run_get_def redb_runs_def dest!: get_row_ok split: option.splits)

lemma turn_store: "turn_store \<lparr>rs_append = (\<lambda>r. on_store (redb_turn_append E r)), rs_records = (\<lambda>i w. redb_turn_records E i (fst w)), \<dots> = z\<rparr>
    (\<lambda>w. redb_log E (fst w)) (\<lambda>w. tb_get (RUNTIME_RECORDS_TABLE E) (g_records (fst w)) 0 = None)"
proof
  fix i w rs
  assume "rs_records \<lparr>rs_append = (\<lambda>r. on_store (redb_turn_append E r)), rs_records = (\<lambda>i w. redb_turn_records E i (fst w)), \<dots> = z\<rparr> i w = Inr rs"
  then have rs: "rs = sort_key sequence (redb_log E (fst w) i)" by (auto dest: turn_records_ok)
  then show "mset rs = mset (redb_log E (fst w) i)" by simp
  assume "sorted (map sequence (redb_log E (fst w) i))"
  with rs show "rs = redb_log E (fst w) i" by (simp add: sort_key_id_if_sorted)
qed (auto simp: on_store_iff dest: turn_append_ok turn_append_err)

lemma job_store: "job_runs (redb_job_store E) (\<lambda>w. redb_log E (fst w))
    (\<lambda>w. tb_get (RUNTIME_RECORDS_TABLE E) (g_records (fst w)) 0 = None) (\<lambda>w. redb_runs E (fst w))"
  unfolding job_runs_def
proof
  show "turn_store (redb_job_store E) (\<lambda>w. redb_log E (fst w)) (\<lambda>w. tb_get (RUNTIME_RECORDS_TABLE E) (g_records (fst w)) 0 = None)"
    unfolding redb_job_store_def by (rule turn_store)
  show "job_runs_axioms (redb_job_store E) (\<lambda>w. redb_log E (fst w))
    (\<lambda>w. tb_get (RUNTIME_RECORDS_TABLE E) (g_records (fst w)) 0 = None) (\<lambda>w. redb_runs E (fst w))"
    by unfold_locales
      (auto simp: redb_job_store_def on_store_iff dest: run_put_ok run_put_err append_runs run_get_ok)
qed

lemma audit_append_ok:
  assumes "redb_audit_append E r db = (Inr (), db')" and "tb_get (AUTHORIZATION_AUDITS_TABLE E) (g_audits db') 0 = None"
  shows "redb_audits E db' = redb_audits E db @ [r]"
proof -
  obtain t where t: "append_row E ''append_authorization_audit'' ''failed to serialize authorization audit: ''
          ''failed to open authorization audits table: '' ''failed to read last authorization audit: ''
          ''failed to insert authorization audit: '' ''failed to commit authorization audit: ''
          (AUTHORIZATION_AUDITS_TABLE E) (g_audits db) (ser_audit E r) = Inr t" "db' = db\<lparr>g_audits := t\<rparr>"
    using assms(1) by (auto simp: redb_audit_append_def committed_def split: sum.splits)
  obtain b k where b: "ser_audit E r = Inr b" "tb_iter (AUTHORIZATION_AUDITS_TABLE E) t = tb_iter (AUTHORIZATION_AUDITS_TABLE E) (g_audits db) @ [(k, b)]"
    using append_row_iter(1) [OF aud.redb_table_axioms t(1)] assms(2) t(2) by auto
  then show ?thesis
    using audit_roundtrip [OF b(1)] t(2) by (simp add: redb_audits_def decoded_def map_filter_def)
qed

lemma audit_store: "audit_log (redb_audit_store E) (\<lambda>w. (fst (f (snd w)), fst w, snd (f (snd w)))) (\<lambda>w. redb_audits E (fst w))
    (\<lambda>w. tb_get (AUTHORIZATION_AUDITS_TABLE E) (g_audits (fst w)) 0 = None)"
proof
  fix r w e w'
  assume "au_append (redb_audit_store E) r w = (Inl e, w')"
  then show "redb_audits E (fst w') = redb_audits E (fst w)"
    by (auto simp: redb_audit_store_def on_store_iff redb_audit_append_def committed_def split: sum.splits)
next
  fix w rs assume "au_list (redb_audit_store E) w = Inr rs"
  then show "mset rs = mset (redb_audits E (fst w))"
    by (auto simp: redb_audit_store_def redb_audit_list_def redb_audits_def err_simps dest!: list_rows_ok)
qed (auto simp: redb_audit_store_def on_store_iff dest: audit_append_ok)

end

section \<open>Red-black trees and codecs\<close>

definition rbt_agent_env ::
  "(string \<Rightarrow> fault_point \<Rightarrow> string option) \<Rightarrow> ((u64, bytes) RBT.rbt, (string, bytes) RBT.rbt, string) agent_redb_env" where
  "rbt_agent_env flt =
     \<lparr>RUNTIME_RECORDS_TABLE = rbt_table, JOB_DEFINITIONS_TABLE = rbt_table, JOB_RUNS_TABLE = rbt_table,
      AUTHORIZATION_AUDITS_TABLE = rbt_table, OUTBOUND_DELIVERIES_TABLE = rbt_table,
      ser_turn = (\<lambda>r. Inr (enc_turn r)), de_turn = decode_all dec_turn,
      ser_job = (\<lambda>r. Inr (enc_job r)), de_job = decode_all dec_job,
      ser_run = (\<lambda>r. Inr (enc_run r)), de_run = decode_all dec_run,
      ser_audit = (\<lambda>r. Inr (enc_audit r)), de_audit = decode_all dec_audit,
      ser_outbound = (\<lambda>r. Inr (enc_outbound r)), de_outbound = decode_all dec_outbound,
      ag_fault = flt\<rparr>"

definition rbt_agent_db :: "((u64, bytes) RBT.rbt, (string, bytes) RBT.rbt) agent_db" where
  "rbt_agent_db = \<lparr>g_records = RBT.empty, g_jobs = RBT.empty, g_runs = RBT.empty, g_audits = RBT.empty, g_outbound = RBT.empty\<rparr>"

interpretation rbta: agent_redb "rbt_agent_env flt" for flt
  by (unfold agent_redb_def agent_redb_axioms_def, intro conjI)
    (auto simp: rbt_agent_env_def rbt.redb_table_axioms decode_all_sound sound_turn sound_job sound_run sound_audit sound_outbound)

interpretation rbt_turns: turn_store "redb_turn_store (rbt_agent_env flt)" "\<lambda>w. redb_log (rbt_agent_env flt) (fst w)"
    "\<lambda>w. tb_get (RUNTIME_RECORDS_TABLE (rbt_agent_env flt)) (g_records (fst w)) 0 = None" for flt
  unfolding redb_turn_store_def by (rule rbta.turn_store)

interpretation rbt_jobs: job_runs "redb_job_store (rbt_agent_env flt)" "\<lambda>w. redb_log (rbt_agent_env flt) (fst w)"
    "\<lambda>w. tb_get (RUNTIME_RECORDS_TABLE (rbt_agent_env flt)) (g_records (fst w)) 0 = None"
    "\<lambda>w. redb_runs (rbt_agent_env flt) (fst w)" for flt
  by (rule rbta.job_store)

interpretation rbt_audits: audit_log "redb_audit_store (rbt_agent_env flt)" "\<lambda>w. (fst (f (snd w)), fst w, snd (f (snd w)))"
    "\<lambda>w. redb_audits (rbt_agent_env flt) (fst w)"
    "\<lambda>w. tb_get (AUTHORIZATION_AUDITS_TABLE (rbt_agent_env flt)) (g_audits (fst w)) 0 = None" for flt f
  by (rule rbta.audit_store)

section \<open>The two turn stores agree\<close>

fun append_all :: "('j, 'w, 'z) runtime_store_scheme \<Rightarrow> 'j stored_turn_record list \<Rightarrow> 'w \<Rightarrow> (runtime_error + unit) \<times> 'w" where
  "append_all S [] w = (Inr (), w)"
| "append_all S (r # rs) w =
     (case rs_append S r w of (Inl e, w) \<Rightarrow> (Inl e, w) | (Inr _, w) \<Rightarrow> append_all S rs w)"

context turn_store
begin

lemma append_all_log:
  "append_all S rs w = (Inr (), w') \<Longrightarrow> ok w' \<Longrightarrow> ok w \<and> log w' i = log w i @ filter (\<lambda>r. rec_session_id r = i) rs"
proof (induction rs arbitrary: w)
  case (Cons r rs)
  obtain res w1 where a: "rs_append S r w = (res, w1)" by (rule prod.exhaust)
  with Cons.prems have res: "res = Inr ()" and w1: "append_all S rs w1 = (Inr (), w')" by (auto split: sum.splits)
  from Cons.IH [OF w1 Cons.prems(2)] append_ok [of r w w1] a res show ?case by auto
qed simp

end

text \<open>Without faults every append of the durable store succeeds, and fewer than \<open>2^64\<close> of them never
  use key 0.\<close>

definition last_key :: "('t, u64, bytes) table_ops \<Rightarrow> 't \<Rightarrow> nat" where
  "last_key T t = (case tb_last T t of None \<Rightarrow> 0 | Some (k, _) \<Rightarrow> unat k)"

lemma append_row_total:
  assumes T: "redb_table T" and f: "\<And>op p. ag_fault E op p = None" and data: "data = Inr b"
    and room: "Suc (last_key T t) < 2 ^ 64" and z: "tb_get T t 0 = None"
  shows "\<exists>t'. append_row E op m0 m1 m2 m3 m4 T t data = Inr t' \<and> last_key T t' \<le> Suc (last_key T t) \<and> tb_get T t' 0 = None"
proof -
  define q where "q = (case tb_last T t of None \<Rightarrow> 0 | Some (key, _) \<Rightarrow> key) + (1 :: u64)"
  have q: "unat q = Suc (last_key T t)"
    using room by (auto simp: q_def last_key_def unat_word_ariths split: option.splits)
  define t' where "t' = tb_insert T t q b"
  have run: "append_row E op m0 m1 m2 m3 m4 T t data = Inr t'"
    by (simp add: append_row_def ag_io_def ag_serde_def f data Let_def t'_def q_def)
  have "q \<noteq> 0" using q by auto
  then have z': "tb_get T t' 0 = None" using z by (simp add: t'_def redb_table.insert_law [OF T])
  have "last_key T t' \<le> Suc (last_key T t)"
  proof (cases "tb_last T t'")
    case (Some p)
    obtain k v where p: "p = (k, v)" by (rule prod.exhaust)
    have "tb_get T t' k = Some v" using redb_table.last_some(1) [OF T] Some p by blast
    then consider "k = q" | "tb_get T t k = Some v" by (auto simp: t'_def redb_table.insert_law [OF T] split: if_splits)
    then show ?thesis
    proof cases
      case 2
      then obtain k' v' where "tb_last T t = Some (k', v')" using redb_table.last_none [OF T, of t] by (cases "tb_last T t") auto
      moreover from this have "k \<le> k'" using redb_table.last_some(2) [OF T] 2 by blast
      ultimately show ?thesis using Some p by (simp add: last_key_def word_le_nat_alt)
    qed (use Some p q in \<open>simp add: last_key_def\<close>)
  qed (simp add: last_key_def)
  with run z' show ?thesis by blast
qed

context agent_redb
begin

definition decodable :: "('ut, 'st) agent_db \<Rightarrow> bool" where
  "decodable db \<longleftrightarrow> (\<forall>p \<in> set (tb_iter (RUNTIME_RECORDS_TABLE E) (g_records db)). \<exists>x. de_turn E (snd p) = Inr x)"

lemma append_all_total:
  assumes f: "\<And>op p. ag_fault E op p = None" and ser: "\<And>r. \<exists>b. ser_turn E r = Inr b"
  shows "last_key (RUNTIME_RECORDS_TABLE E) (g_records (fst w)) + length rs < 2 ^ 64 \<Longrightarrow>
    tb_get (RUNTIME_RECORDS_TABLE E) (g_records (fst w)) 0 = None \<Longrightarrow> decodable (fst w) \<Longrightarrow>
    \<exists>w'. append_all (redb_turn_store E) rs w = (Inr (), w')
      \<and> tb_get (RUNTIME_RECORDS_TABLE E) (g_records (fst w')) 0 = None \<and> decodable (fst w')"
proof (induction rs arbitrary: w)
  case (Cons r rs)
  obtain b where b: "ser_turn E r = Inr b" using ser by blast
  have room: "Suc (last_key (RUNTIME_RECORDS_TABLE E) (g_records (fst w))) < 2 ^ 64" using Cons.prems(1) by simp
  obtain t where t: "append_row E ''append'' ''failed to serialize turn record: '' ''failed to open runtime records table: ''
          ''failed to read last record: '' ''failed to insert record: '' ''failed to commit record: ''
          (RUNTIME_RECORDS_TABLE E) (g_records (fst w)) (ser_turn E r) = Inr t"
      "last_key (RUNTIME_RECORDS_TABLE E) t \<le> Suc (last_key (RUNTIME_RECORDS_TABLE E) (g_records (fst w)))"
      "tb_get (RUNTIME_RECORDS_TABLE E) t 0 = None"
    using append_row_total [OF rec.redb_table_axioms f b room Cons.prems(2)] by blast
  have a: "rs_append (redb_turn_store E) r w = (Inr (), (fst w)\<lparr>g_records := t\<rparr>, snd w)"
    using t(1) by (simp add: redb_turn_store_def on_store_def redb_turn_append_def committed_def)
  have d: "decodable ((fst w)\<lparr>g_records := t\<rparr>)"
    using append_row_iter(1) [OF rec.redb_table_axioms t(1,3)] b turn_roundtrip Cons.prems(3) by (auto simp: decodable_def)
  from Cons.IH [of "((fst w)\<lparr>g_records := t\<rparr>, snd w)"] t(2,3) Cons.prems(1) a d show ?case by simp
qed simp

lemma rows_loop_total:
  assumes f: "\<And>op p. ag_fault E op p = None"
  shows "(\<And>p. p \<in> set items \<Longrightarrow> \<exists>x. de (snd p) = Inr x) \<Longrightarrow> \<exists>rs. rows_loop E op m1 m2 de keep i items acc = Inr rs"
proof (induction items arbitrary: i acc)
  case (Cons p items)
  obtain k data where p: "p = (k, data)" by (rule prod.exhaust)
  obtain x where x: "de data = Inr x" using Cons.prems [of p] p by auto
  show ?case using Cons.IH [of "Suc i" "if keep x then acc @ [x] else acc"] Cons.prems p x
    by (simp add: ag_io_def ag_serde_def f)
qed simp

lemma records_total:
  assumes f: "\<And>op p. ag_fault E op p = None" and "decodable db"
  shows "\<exists>rs. redb_turn_records E i db = Inr rs"
proof -
  obtain rs where "rows_loop E ''records'' ''failed to read record: '' ''failed to deserialize turn record: '' (de_turn E)
      (\<lambda>r. rec_session_id r = i) 0 (tb_iter (RUNTIME_RECORDS_TABLE E) (g_records db)) [] = Inr rs"
    using rows_loop_total [OF f, of "tb_iter (RUNTIME_RECORDS_TABLE E) (g_records db)" "de_turn E"] assms(2)
    unfolding decodable_def by blast
  then show ?thesis by (simp add: redb_turn_records_def list_rows_def ag_io_def f)
qed

text \<open>What the durable store without faults returns after a series of appends to an empty table.\<close>

lemma run_from_empty:
  assumes "\<And>op p. ag_fault E op p = None" and "\<And>r. \<exists>b. ser_turn E r = Inr b"
    and "tb_iter (RUNTIME_RECORDS_TABLE E) (g_records db) = []" and "length rs < 2 ^ 64"
  shows "\<exists>w. append_all (redb_turn_store E) rs (db, v) = (Inr (), w)
    \<and> rs_records (redb_turn_store E) i w = Inr (sort_key sequence (filter (\<lambda>r. rec_session_id r = i) rs))"
proof -
  have e: "tb_get (RUNTIME_RECORDS_TABLE E) (g_records db) 0 = None" "last_key (RUNTIME_RECORDS_TABLE E) (g_records db) = 0" "decodable db"
    "redb_log E db i = []"
    using assms(3) by (simp_all add: rec.get_iter last_key_def rec.last_law decodable_def redb_log_def decoded_def map_filter_simps)
  obtain w where w: "append_all (redb_turn_store E) rs (db, v) = (Inr (), w)"
      "tb_get (RUNTIME_RECORDS_TABLE E) (g_records (fst w)) 0 = None" "decodable (fst w)"
    using append_all_total [OF assms(1,2), where w = "(db, v)" and rs = rs] e assms(4) by auto
  have ts: "turn_store (redb_turn_store E) (\<lambda>w. redb_log E (fst w)) (\<lambda>w. tb_get (RUNTIME_RECORDS_TABLE E) (g_records (fst w)) 0 = None)"
    unfolding redb_turn_store_def by (rule turn_store)
  have "redb_log E (fst w) i = filter (\<lambda>r. rec_session_id r = i) rs"
    using turn_store.append_all_log [OF ts w(1,2), of i] e(4) by simp
  then show ?thesis
    using w records_total [OF assms(1) w(3), of i] turn_records_ok [of i "fst w"] by (auto simp: redb_turn_store_def)
qed

end

lemma mem_append_all: "\<not> mt_poisoned (fst w) \<Longrightarrow> \<exists>w'. append_all mem_turn_store rs w = (Inr (), w') \<and> \<not> mt_poisoned (fst w')"
  by (induction rs arbitrary: w) (simp_all add: mem_turn_store_def on_store_def mem_turn_append_def Let_def)


text \<open>C39. The durable turn store without faults and the store in memory are interchangeable for a
  runtime that numbers the records of each session in order: after the same appends to new stores,
  fewer than \<open>2^64\<close>, they return the same records for every session.\<close>

theorem turn_stores_agree:
  assumes "agent_redb E" and "\<And>op p. ag_fault E op p = None" and "\<And>r. \<exists>b. ser_turn E r = Inr b"
    and "tb_iter (RUNTIME_RECORDS_TABLE E) (g_records db) = []" and "length rs < 2 ^ 64"
    and "sorted (map sequence (filter (\<lambda>r. rec_session_id r = i) rs))"
  shows "rs_records (redb_turn_store E) i (snd (append_all (redb_turn_store E) rs (db, v)))
     = rs_records mem_turn_store i (snd (append_all mem_turn_store rs (\<lparr>mt_records_by_session = Map.empty, mt_poisoned = False\<rparr>, v)))"
proof -
  define m where "m = (\<lparr>mt_records_by_session = Map.empty, mt_poisoned = False\<rparr> :: 'c mem_turns)"
  obtain w where w: "append_all mem_turn_store rs (m, v) = (Inr (), w)" "\<not> mt_poisoned (fst w)"
    using mem_append_all [of "(m, v)" rs] by (auto simp: m_def)
  have "unwrap_or_default (mt_records_by_session (fst w) i) = filter (\<lambda>r. rec_session_id r = i) rs"
    using mem_turns.append_all_log [OF w(1), of i] by (simp add: m_def unwrap_or_default_def)
  with w have mem: "rs_records mem_turn_store i w = Inr (filter (\<lambda>r. rec_session_id r = i) rs)"
    by (simp add: mem_turn_store_def mem_turn_records_def)
  from agent_redb.run_from_empty [OF assms(1-5), of v i] assms(6) w(1) mem show ?thesis
    by (auto simp: sort_key_id_if_sorted simp flip: m_def)
qed

theorem turn_stores_agree_witness:
  "rs_records (redb_turn_store (rbt_agent_env (\<lambda>_ _. None))) ''s''
     (snd (append_all (redb_turn_store (rbt_agent_env (\<lambda>_ _. None))) [UserMessage ''1'' 1 ''s'' ''a'' ''hi'', AssistantMessage ''2'' 2 ''s'' ''a'' ''yo''] (rbt_agent_db, ())))
   = Inr [UserMessage ''1'' 1 ''s'' ''a'' ''hi'', AssistantMessage ''2'' 2 ''s'' ''a'' ''yo'']"
proof -
  note t = turn_stores_agree [OF rbta.agent_redb_axioms [of "\<lambda>_ _. None"], where db = rbt_agent_db and v = "()" and i = "''s''"
      and rs = "[UserMessage ''1'' 1 ''s'' ''a'' ''hi'', AssistantMessage ''2'' 2 ''s'' ''a'' ''yo'']"]
  show ?thesis
    by (subst t) (simp_all add: rbt_agent_env_def rbt_agent_db_def rbt_table_def mem_turn_store_def on_store_def
        mem_turn_append_def mem_turn_records_def unwrap_or_default_def Let_def RBT.entries.rep_eq RBT.empty.rep_eq)
qed

end
