(* ===== verification/Agent_Runtime.thy ===== *)
theory Agent_Runtime
  imports Agent_Contract
begin

text \<open>
  The agent runtime: a turn with its rounds of tool calls, channel turns, the replay of sessions, the
  forced run of a job and its replay, and the queue of outbound responses. The provider, the tools
  and the source of ids are parameters; what they do to the world is any function.
\<close>

section \<open>A turn\<close>

record ('j, 'w) runtime_env =
  re_complete :: "provider_request \<Rightarrow> 'w \<Rightarrow> (runtime_error + 'j provider_response) \<times> 'w"
  re_tools :: "string \<Rightarrow> ('j, 'w) tool_executor option"
  re_new_id :: "'w \<Rightarrow> string \<times> 'w"
  re_max_tool_iterations :: nat

definition with_tool :: "string \<Rightarrow> ('j, 'w) tool_executor \<Rightarrow> ('j, 'w) runtime_env \<Rightarrow> ('j, 'w) runtime_env" where
  "with_tool name tool R = R\<lparr>re_tools := (re_tools R)(name \<mapsto> tool)\<rparr>"

definition next_sequence :: "('j, 'w, 'z) runtime_store_scheme \<Rightarrow> string \<Rightarrow> 'w \<Rightarrow> runtime_error + u64" where
  "next_sequence S session_id w =
     andthen (rs_records S session_id w) (\<lambda>rs. Inr (of_nat (length rs) + 1))"

definition execute_tool :: "('j, 'w) runtime_env \<Rightarrow> 'j tool_call \<Rightarrow> 'w \<Rightarrow> tool_result \<times> 'w" where
  "execute_tool R call w =
     (case re_tools R (tc_name call) of
        None \<Rightarrow>
          (\<lparr>tr_call_id = tc_id call, tr_tool_name = tc_name call,
            tr_content = runtime_error_text (ToolNotRegistered (tc_name call)), tr_is_error = True\<rparr>, w)
      | Some tool \<Rightarrow>
          (case tool call w of
             (Inr result, w) \<Rightarrow> (result, w)
           | (Inl (Tool _ message), w) \<Rightarrow>
               (\<lparr>tr_call_id = tc_id call, tr_tool_name = tc_name call, tr_content = message, tr_is_error = True\<rparr>, w)
           | (Inl e, w) \<Rightarrow>
               (\<lparr>tr_call_id = tc_id call, tr_tool_name = tc_name call, tr_content = runtime_error_text e,
                 tr_is_error = True\<rparr>, w)))"

text \<open>Storing a record under a new id.\<close>

definition store_record ::
  "('j, 'w) runtime_env \<Rightarrow> ('j, 'w, 'z) runtime_store_scheme \<Rightarrow> (string \<Rightarrow> 'j stored_turn_record) \<Rightarrow> 'w
   \<Rightarrow> (runtime_error + unit) \<times> 'w" where
  "store_record R S mk w = (case re_new_id R w of (i, w) \<Rightarrow> rs_append S (mk i) w)"

text \<open>The calls of one response, in order: the call is stored, run, and its result is stored.\<close>

fun run_calls ::
  "('j, 'w) runtime_env \<Rightarrow> ('j, 'w, 'z) runtime_store_scheme \<Rightarrow> turn_input \<Rightarrow> 'j tool_call list \<Rightarrow> u64 \<Rightarrow> tool_result list
   \<Rightarrow> 'w \<Rightarrow> (runtime_error + u64 \<times> tool_result list) \<times> 'w" where
  "run_calls R S input [] seq tool_results w = (Inr (seq, tool_results), w)"
| "run_calls R S input (call # calls) seq tool_results w =
     (case store_record R S (\<lambda>i. AssistantToolCall i seq (ti_session_id input) (ti_agent_id input) (tc_id call) (tc_name call)
             (tc_arguments call)) w of
        (Inl e, w) \<Rightarrow> (Inl e, w)
      | (Inr _, w) \<Rightarrow>
          (case execute_tool R call w of (result, w) \<Rightarrow>
          (case store_record R S (\<lambda>i. ToolResultRecord i (seq + 1) (ti_session_id input) (ti_agent_id input) (tr_call_id result)
                  (tr_tool_name result) (tr_content result) (tr_is_error result)) w of
             (Inl e, w) \<Rightarrow> (Inl e, w)
           | (Inr _, w) \<Rightarrow> run_calls R S input calls (seq + 1 + 1) (tool_results @ [result]) w)))"

definition user_messages :: "turn_input \<Rightarrow> context_message list" where
  "user_messages input = [\<lparr>cm_role = ''user'', cm_content = ti_user_message input\<rparr>]"

text \<open>The rounds left of a turn.\<close>

fun run_rounds ::
  "('j, 'w) runtime_env \<Rightarrow> ('j, 'w, 'z) runtime_store_scheme \<Rightarrow> turn_input \<Rightarrow> nat \<Rightarrow> u64 \<Rightarrow> tool_result list
   \<Rightarrow> 'w \<Rightarrow> (runtime_error + turn_output) \<times> 'w" where
  "run_rounds R S input 0 seq tool_results w = (Inl (IterationLimit (re_max_tool_iterations R)), w)"
| "run_rounds R S input (Suc n) seq tool_results w =
     (case re_complete R \<lparr>pq_session_id = ti_session_id input, pq_agent_id = ti_agent_id input,
             pq_messages = user_messages input, pq_tool_results = tool_results\<rparr> w of
        (Inl e, w) \<Rightarrow> (Inl e, w)
      | (Inr response, w) \<Rightarrow>
          (case pp_final_text response of
             Some final_text \<Rightarrow>
               (case store_record R S (\<lambda>i. AssistantMessage i seq (ti_session_id input) (ti_agent_id input) final_text) w of
                  (Inl e, w) \<Rightarrow> (Inl e, w)
                | (Inr _, w) \<Rightarrow>
                    (Inr \<lparr>to_session_id = ti_session_id input, to_agent_id = ti_agent_id input, to_final_text = final_text,
                          to_events = [OutboundResponse (ti_session_id input) (ti_agent_id input) final_text],
                          to_tool_results = tool_results\<rparr>, w))
           | None \<Rightarrow>
               (case run_calls R S input (pp_tool_calls response) seq tool_results w of
                  (Inl e, w) \<Rightarrow> (Inl e, w)
                | (Inr (seq, tool_results), w) \<Rightarrow> run_rounds R S input n seq tool_results w)))"

definition run_turn ::
  "('j, 'w) runtime_env \<Rightarrow> ('j, 'w, 'z) runtime_store_scheme \<Rightarrow> turn_input \<Rightarrow> 'w \<Rightarrow> (runtime_error + turn_output) \<times> 'w" where
  "run_turn R S input w =
     (case next_sequence S (ti_session_id input) w of
        Inl e \<Rightarrow> (Inl e, w)
      | Inr seq \<Rightarrow>
          (case store_record R S (\<lambda>i. UserMessage i seq (ti_session_id input) (ti_agent_id input) (ti_user_message input)) w of
             (Inl e, w) \<Rightarrow> (Inl e, w)
           | (Inr _, w) \<Rightarrow> run_rounds R S input (re_max_tool_iterations R) (seq + 1) [] w))"

definition run_channel_turn ::
  "('j, 'w) runtime_env \<Rightarrow> ('j, 'w, 'z) runtime_store_scheme \<Rightarrow> channel_turn_input \<Rightarrow> 'w
   \<Rightarrow> (runtime_error + turn_output) \<times> 'w" where
  "run_channel_turn R S input w =
     run_turn R S \<lparr>ti_session_id = session_id_of (ct_origin input), ti_agent_id = ct_agent_id input,
                   ti_user_message = ct_user_message input\<rparr> w"

section \<open>Replay\<close>

definition replay_session_trace ::
  "('j, 'w, 'z) runtime_store_scheme \<Rightarrow> string \<Rightarrow> 'w \<Rightarrow> runtime_error + 'j runtime_trace" where
  "replay_session_trace S session_id w =
     andthen (rs_records S session_id w) (\<lambda>records.
       Inr (build_trace session_id (case records of [] \<Rightarrow> [] | r # _ \<Rightarrow> rec_agent_id r) records))"

definition replay_agent_session_trace ::
  "('j, 'w, 'z) runtime_store_scheme \<Rightarrow> string \<Rightarrow> string \<Rightarrow> 'w \<Rightarrow> runtime_error + 'j runtime_trace" where
  "replay_agent_session_trace S session_id agent_id w =
     andthen (rs_records S session_id w) (\<lambda>records.
       Inr (build_trace session_id agent_id (filter (\<lambda>r. rec_agent_id r = agent_id) records)))"

record 'j runtime_inspection =
  in_session_id :: string
  in_trace :: "'j runtime_trace"
  in_authorization_audits :: "audit_record list"
  in_outbound_deliveries :: "outbound_delivery_record list"

definition inspect_runtime_session ::
  "('j, 'w, 'z) runtime_store_scheme \<Rightarrow> 'w audit_store \<Rightarrow> 'w outbound_store \<Rightarrow> string \<Rightarrow> 'w \<Rightarrow> runtime_error + 'j runtime_inspection" where
  "inspect_runtime_session S A D session_id w =
     andthen (replay_session_trace S session_id w) (\<lambda>trace.
     andthen (audits_for_session A session_id w) (\<lambda>audits.
     andthen (outbound_deliveries_for_session D session_id None w) (\<lambda>deliveries.
       Inr \<lparr>in_session_id = session_id, in_trace = trace, in_authorization_audits = audits,
            in_outbound_deliveries = deliveries\<rparr>)))"

section \<open>Jobs\<close>

definition finish_run :: "runtime_error + turn_output \<Rightarrow> job_run_record \<Rightarrow> job_run_record" where
  "finish_run result run =
     (case result of
        Inr output \<Rightarrow>
          run\<lparr>jr_status := JobSucceeded, jr_output_summary := Some (to_final_text output),
              jr_final_text := Some (to_final_text output), jr_error := None\<rparr>
      | Inl e \<Rightarrow>
          run\<lparr>jr_status := JobFailed, jr_output_summary := None, jr_final_text := None,
              jr_error := Some (runtime_error_text e)\<rparr>)"

definition force_run_job ::
  "('j, 'w) runtime_env \<Rightarrow> ('j, 'w) job_store \<Rightarrow> string \<Rightarrow> 'w \<Rightarrow> (runtime_error + job_run_record) \<times> 'w" where
  "force_run_job R J job_id w =
     (case andthen (js_job_definition J job_id w) (ok_or (Store (''job `'' @ job_id @ ''` is not defined''))) of
        Inl e \<Rightarrow> (Inl e, w)
      | Inr defn \<Rightarrow>
     if \<not> jd_enabled defn then (Inl (Store (''job `'' @ job_id @ ''` is disabled'')), w)
     else
     (case re_new_id R w of (run_id, w) \<Rightarrow>
     let session_id = (case jd_session_id defn of
           Some s \<Rightarrow> s
         | None \<Rightarrow> ''job:'' @ jd_job_id defn @ '':run:'' @ run_id) in
     (case rs_records J session_id w of
        Inl e \<Rightarrow> (Inl e, w)
      | Inr before \<Rightarrow>
     let run = \<lparr>jr_run_id = run_id, jr_job_id = jd_job_id defn, jr_session_id = session_id, jr_status = JobQueued,
                jr_started_sequence = of_nat (length before) + 1, jr_completed_sequence = None, jr_output_summary = None,
                jr_final_text = None, jr_error = None, jr_trace_session_id = session_id\<rparr> in
     (case js_put_job_run J run w of
        (Inl e, w) \<Rightarrow> (Inl e, w)
      | (Inr _, w) \<Rightarrow>
     let run = run\<lparr>jr_status := JobRunning\<rparr> in
     (case js_put_job_run J run w of
        (Inl e, w) \<Rightarrow> (Inl e, w)
      | (Inr _, w) \<Rightarrow>
     (case run_turn R J \<lparr>ti_session_id = session_id, ti_agent_id = jd_agent_id defn,
                        ti_user_message = jd_prompt defn\<rparr> w of (result, w) \<Rightarrow>
     (case rs_records J session_id w of
        Inl e \<Rightarrow> (Inl e, w)
      | Inr after \<Rightarrow>
     let run = finish_run result (run\<lparr>jr_completed_sequence := Some (of_nat (length after))\<rparr>) in
     (case js_put_job_run J run w of
        (Inl e, w) \<Rightarrow> (Inl e, w)
      | (Inr _, w) \<Rightarrow> (Inr run, w)))))))))"

record 'j job_run_replay =
  jp_run :: job_run_record
  jp_trace :: "'j runtime_trace"

definition replay_job_run :: "('j, 'w) job_store \<Rightarrow> string \<Rightarrow> 'w \<Rightarrow> runtime_error + 'j job_run_replay" where
  "replay_job_run J run_id w =
     andthen (andthen (js_job_run J run_id w) (ok_or (Store (''job run `'' @ run_id @ ''` is not defined'')))) (\<lambda>run.
     andthen (replay_session_trace J (jr_trace_session_id run) w) (\<lambda>trace.
       Inr \<lparr>jp_run = run, jp_trace = trace\<rparr>))"

section \<open>Outbound responses\<close>

definition enqueue_outbound_response ::
  "('w \<Rightarrow> string \<times> 'w) \<Rightarrow> 'w outbound_store \<Rightarrow> runtime_event \<Rightarrow> channel_identity option \<Rightarrow> 'w
   \<Rightarrow> (runtime_error + outbound_delivery_record) \<times> 'w" where
  "enqueue_outbound_response new_id D event channel_origin w =
     (case event of OutboundResponse session_id agent_id text \<Rightarrow>
      (case new_id w of (i, w) \<Rightarrow>
       let delivery = outbound_queued i session_id channel_origin text (Some (''runtime:'' @ session_id @ '':'' @ agent_id)) in
       (case os_put_outbound_delivery D delivery w of
          (Inl e, w) \<Rightarrow> (Inl e, w)
        | (Inr _, w) \<Rightarrow> (Inr delivery, w))))"

definition dispatch_one ::
  "(outbound_delivery_record \<Rightarrow> string + string) \<Rightarrow> outbound_retry_policy \<Rightarrow> 'w outbound_store \<Rightarrow> string \<Rightarrow> 'w
   \<Rightarrow> (runtime_error + outbound_delivery_record) \<times> 'w" where
  "dispatch_one deliver policy D delivery_id w =
     (case andthen (os_outbound_delivery D delivery_id w) (ok_or (Store (''delivery `'' @ delivery_id @ ''` is not defined''))) of
        Inl e \<Rightarrow> (Inl e, w)
      | Inr delivery \<Rightarrow>
          let delivery = (case deliver delivery of
                Inr provider_message_id \<Rightarrow> mark_sent (Some provider_message_id) delivery
              | Inl e \<Rightarrow> outbound_record_failure policy e delivery) in
          (case os_put_outbound_delivery D delivery w of
             (Inl e, w) \<Rightarrow> (Inl e, w)
           | (Inr _, w) \<Rightarrow> (Inr delivery, w)))"

end
