(* ===== verification/Agent_Turn.thy ===== *)
theory Agent_Turn
  imports Agent_Runtime
begin

text \<open>
  What a turn of the agent runtime writes: one user message, then tool calls each followed by its
  result, then at most one assistant message, numbered without gaps; how often it asks the provider;
  and what a forced job run leaves behind. The contracts \<open>agent_turn\<close> and \<open>job_turn\<close> add to those of
  the stores that the provider, the tools and the id source leave the turn log alone.
\<close>

section \<open>Contracts\<close>

locale agent_turn = turn_store S log ok
  for S :: "('j, 'w, 'z) runtime_store_scheme" and log :: "'w \<Rightarrow> string \<Rightarrow> 'j stored_turn_record list" and ok :: "'w \<Rightarrow> bool" +
  fixes R :: "('j, 'w) runtime_env"
  assumes provider_frame: "re_complete R q w = (r, w') \<Longrightarrow> log w' = log w \<and> ok w' = ok w"
    and tool_frame: "re_tools R n = Some tool \<Longrightarrow> tool c w = (r', w') \<Longrightarrow> log w' = log w \<and> ok w' = ok w"
    and id_frame: "re_new_id R w = (i, w') \<Longrightarrow> log w' = log w \<and> ok w' = ok w"

section \<open>The shape of a turn\<close>

fun numbered :: "u64 \<Rightarrow> 'j stored_turn_record list \<Rightarrow> bool" where
  "numbered q [] = True"
| "numbered q (r # rs) = (sequence r = q \<and> numbered (q + 1) rs)"

lemma numbered_append: "numbered q (xs @ ys) \<longleftrightarrow> numbered q xs \<and> numbered (q + of_nat (length xs)) ys"
  by (induction xs arbitrary: q) (simp_all add: ac_simps)

lemma numbered_nth: "numbered q rs \<Longrightarrow> k < length rs \<Longrightarrow> sequence (rs ! k) = q + of_nat k"
  by (induction rs arbitrary: q k) (auto simp: nth_Cons' ac_simps)

text \<open>Tool calls, each followed by its result.\<close>

fun exchange :: "'j stored_turn_record list \<Rightarrow> bool" where
  "exchange [] = True"
| "exchange (AssistantToolCall _ _ _ _ _ _ _ # ToolResultRecord _ _ _ _ _ _ _ _ # rs) = exchange rs"
| "exchange _ = False"

fun result_of :: "'j stored_turn_record \<Rightarrow> tool_result option" where
  "result_of (ToolResultRecord _ _ _ _ c t r e) = Some \<lparr>tr_call_id = c, tr_tool_name = t, tr_content = r, tr_is_error = e\<rparr>"
| "result_of _ = None"

lemma exchange_append: "exchange xs \<Longrightarrow> exchange ys \<Longrightarrow> exchange (xs @ ys)"
  by (induction xs rule: exchange.induct) auto

lemma exchange_silent: "exchange rs \<Longrightarrow> x \<in> set rs \<Longrightarrow> outbound_of x = None"
  by (induction rs rule: exchange.induct) auto

lemma map_filter_append: "List.map_filter f (xs @ ys) = List.map_filter f xs @ List.map_filter f ys"
  by (simp add: List.map_filter_def)

lemma map_filter_none: "(\<And>x. x \<in> set xs \<Longrightarrow> f x = None) \<Longrightarrow> List.map_filter f xs = []"
  by (auto simp: List.map_filter_def filter_empty_conv)

text \<open>The records of a session and an agent.\<close>

abbreviation owned :: "turn_input \<Rightarrow> 'j stored_turn_record list \<Rightarrow> bool" where
  "owned input rs \<equiv> \<forall>x \<in> set rs. rec_session_id x = ti_session_id input \<and> rec_agent_id x = ti_agent_id input"

context agent_turn
begin

lemma store_record_ok:
  assumes "store_record R S mk w = (Inr u, w')" and "ok w'" and "\<And>i. rec_session_id (mk i) = sid"
  shows "ok w \<and> (\<exists>i. log w' = (log w)(sid := log w sid @ [mk i]))"
proof -
  obtain i w1 where i: "re_new_id R w = (i, w1)" by (rule prod.exhaust)
  with assms(1) have a: "rs_append S (mk i) w1 = (Inr (), w')" by (simp add: store_record_def)
  from append_ok [OF a assms(2)] id_frame [OF i] assms(3) show ?thesis by auto
qed

lemma store_record_err: "store_record R S mk w = (Inl e, w') \<Longrightarrow> log w' = log w \<and> ok w' = ok w"
  by (auto simp: store_record_def split: prod.splits dest!: append_err id_frame)

lemma execute_tool_frame:
  assumes "execute_tool R c w = (r, w')"
  shows "log w' = log w \<and> ok w' = ok w"
proof (cases "re_tools R (tc_name c)")
  case None
  with assms show ?thesis by (auto simp: execute_tool_def)
next
  case (Some tool)
  obtain res w1 where t: "tool c w = (res, w1)" by (rule prod.exhaust)
  with assms Some have "w' = w1" by (auto simp: execute_tool_def split: sum.splits runtime_error.splits)
  with tool_frame [OF Some t] show ?thesis by simp
qed

lemma run_calls_log:
  assumes "run_calls R S input calls q trs w = (r, w')" and "ok w'"
  shows "ok w \<and> (\<exists>body. log w' = (log w)(ti_session_id input := log w (ti_session_id input) @ body)
     \<and> numbered q body \<and> owned input body \<and> (\<forall>x \<in> set body. outbound_of x = None)
     \<and> (\<forall>q' trs'. r = Inr (q', trs') \<longrightarrow>
          exchange body \<and> q' = q + of_nat (length body) \<and> trs' = trs @ List.map_filter result_of body))"
  using assms
proof (induction calls arbitrary: q trs w)
  case Nil
  then show ?case by (auto intro!: exI [of _ "[]"] simp: map_filter_simps)
next
  case (Cons call calls)
  define sid where "sid = ti_session_id input"
  let ?c = "\<lambda>i. AssistantToolCall i q sid (ti_agent_id input) (tc_id call) (tc_name call) (tc_arguments call)"
  obtain r1 w1 where s1: "store_record R S ?c w = (r1, w1)" by (rule prod.exhaust)
  show ?case
  proof (cases r1)
    case (Inl e)
    with Cons.prems s1 store_record_err [of ?c w e w1] show ?thesis
      by (auto simp: sid_def intro!: exI [of _ "[]"])
  next
    case Inr1: (Inr u1)
    obtain res w2 where x: "execute_tool R call w1 = (res, w2)" by (rule prod.exhaust)
    let ?t = "\<lambda>i. ToolResultRecord i (q + 1) sid (ti_agent_id input) (tr_call_id res) (tr_tool_name res) (tr_content res) (tr_is_error res)"
    obtain r2 w3 where s2: "store_record R S ?t w2 = (r2, w3)" by (rule prod.exhaust)
    note fr = execute_tool_frame [OF x]
    show ?thesis
    proof (cases r2)
      case (Inl e)
      then have "w' = w3" "r = Inl e" using Cons.prems(1) s1 Inr1 x s2 by (simp_all add: sid_def)
      moreover from this have "ok w1" "log w3 = log w1" using store_record_err [of ?t w2 e w3] s2 Inl fr Cons.prems(2) by simp_all
      moreover obtain i where "log w1 = (log w)(sid := log w sid @ [?c i])" "ok w"
        using store_record_ok [of ?c w u1 w1 sid] s1 Inr1 \<open>ok w1\<close> by auto
      ultimately show ?thesis by (auto simp: sid_def intro!: exI [of _ "[?c i]"])
    next
      case Inr2: (Inr u2)
      then have "run_calls R S input calls (q + 1 + 1) (trs @ [res]) w3 = (r, w')"
        using Cons.prems(1) s1 Inr1 x s2 by (simp add: sid_def)
      from Cons.IH [OF this Cons.prems(2)] obtain body where b: "ok w3"
          "log w' = (log w3)(sid := log w3 sid @ body)" "numbered (q + 1 + 1) body" "owned input body"
          "\<forall>x \<in> set body. outbound_of x = None"
          "\<forall>q' trs'. r = Inr (q', trs') \<longrightarrow> exchange body \<and> q' = q + 1 + 1 + of_nat (length body)
             \<and> trs' = (trs @ [res]) @ List.map_filter result_of body"
        unfolding sid_def by blast
      obtain j where j: "log w3 = (log w2)(sid := log w2 sid @ [?t j])" "ok w2"
        using store_record_ok [of ?t w2 u2 w3 sid] s2 Inr2 b(1) by auto
      obtain i where i: "log w1 = (log w)(sid := log w sid @ [?c i])" "ok w"
        using store_record_ok [of ?c w u1 w1 sid] s1 Inr1 j(2) fr by auto
      have "log w' = (log w)(sid := log w sid @ (?c i # ?t j # body))"
        using b(2) i(1) j(1) fr by simp
      then show ?thesis
        using b(3-6) i(2) unfolding sid_def [symmetric]
        by (intro conjI exI [of _ "?c i # ?t j # body"]) (auto simp: map_filter_simps algebra_simps)
    qed
  qed
qed

lemma run_rounds_log:
  assumes "run_rounds R S input n q trs w = (r, w')" and "ok w'"
  shows "ok w \<and> (\<exists>body. log w' = (log w)(ti_session_id input := log w (ti_session_id input) @ body)
     \<and> numbered q body \<and> owned input body
     \<and> (case r of
          Inl _ \<Rightarrow> (\<forall>x \<in> set body. outbound_of x = None)
        | Inr out \<Rightarrow> (\<exists>b j p. body = b @ [AssistantMessage j p (ti_session_id input) (ti_agent_id input) (to_final_text out)]
            \<and> exchange b \<and> to_tool_results out = trs @ List.map_filter result_of b
            \<and> to_events out = [OutboundResponse (ti_session_id input) (ti_agent_id input) (to_final_text out)])))"
  using assms
proof (induction n arbitrary: q trs w)
  case 0
  then show ?case by (auto intro!: exI [of _ "[]"])
next
  case (Suc n)
  define sid where "sid = ti_session_id input"
  let ?q = "\<lparr>pq_session_id = sid, pq_agent_id = ti_agent_id input, pq_messages = user_messages input, pq_tool_results = trs\<rparr>"
  obtain pr w1 where p: "re_complete R ?q w = (pr, w1)" by (rule prod.exhaust)
  note fr = provider_frame [OF p]
  show ?case
  proof (cases pr)
    case (Inl e)
    with Suc.prems p fr show ?thesis by (auto simp: sid_def intro!: exI [of _ "[]"])
  next
    case resp: (Inr resp)
    show ?thesis
    proof (cases "pp_final_text resp")
      case (Some ft)
      let ?m = "\<lambda>i. AssistantMessage i q sid (ti_agent_id input) ft"
      obtain sr w2 where s: "store_record R S ?m w1 = (sr, w2)" by (rule prod.exhaust)
      show ?thesis
      proof (cases sr)
        case (Inl e)
        with Suc.prems p resp Some s fr store_record_err [of ?m w1 e w2] show ?thesis
          by (auto simp: sid_def intro!: exI [of _ "[]"])
      next
        case (Inr u)
        with Suc.prems p resp Some s have w2: "w' = w2" and r: "r = Inr \<lparr>to_session_id = sid, to_agent_id = ti_agent_id input,
            to_final_text = ft, to_events = [OutboundResponse sid (ti_agent_id input) ft], to_tool_results = trs\<rparr>"
          by (auto simp: sid_def)
        obtain i where "log w2 = (log w1)(sid := log w1 sid @ [?m i])" "ok w1"
          using store_record_ok [of ?m w1 u w2 sid] s Inr w2 Suc.prems(2) by auto
        moreover have "\<exists>b j p. [?m i] = b @ [AssistantMessage j p sid (ti_agent_id input) ft] \<and> exchange b
            \<and> trs = trs @ List.map_filter result_of b"
          by (rule exI [of _ "[]"]) (simp add: map_filter_simps)
        ultimately show ?thesis
          using w2 r fr unfolding sid_def [symmetric] by (intro conjI exI [of _ "[?m i]"]) (simp_all add: sid_def)
      qed
    next
      case None
      obtain cr w2 where c: "run_calls R S input (pp_tool_calls resp) q trs w1 = (cr, w2)" by (rule prod.exhaust)
      show ?thesis
      proof (cases cr)
        case (Inl e)
        with Suc.prems p resp None c have e: "r = Inl e" "w2 = w'" by (simp_all add: sid_def)
        with run_calls_log [OF c] Suc.prems(2) obtain body where
          "ok w1" "log w' = (log w1)(ti_session_id input := log w1 (ti_session_id input) @ body)"
          "numbered q body" "owned input body" "\<forall>x \<in> set body. outbound_of x = None" by blast
        with e fr show ?thesis by (intro conjI exI [of _ body]) simp_all
      next
        case (Inr qt)
        obtain q' trs' where qt: "qt = (q', trs')" by (rule prod.exhaust)
        with Suc.prems p resp None c Inr have run: "run_rounds R S input n q' trs' w2 = (r, w')" by (simp add: sid_def)
        from Suc.IH [OF run Suc.prems(2)] obtain body where b: "ok w2"
            "log w' = (log w2)(sid := log w2 sid @ body)" "numbered q' body" "owned input body"
            "case r of
               Inl _ \<Rightarrow> (\<forall>x \<in> set body. outbound_of x = None)
             | Inr out \<Rightarrow> (\<exists>b j p. body = b @ [AssistantMessage j p sid (ti_agent_id input) (to_final_text out)]
                \<and> exchange b \<and> to_tool_results out = trs' @ List.map_filter result_of b
                \<and> to_events out = [OutboundResponse sid (ti_agent_id input) (to_final_text out)])"
          unfolding sid_def by blast
        from run_calls_log [OF c b(1)] Inr qt obtain pre where pre: "ok w1" "log w2 = (log w1)(sid := log w1 sid @ pre)"
            "numbered q pre" "owned input pre" "\<forall>x \<in> set pre. outbound_of x = None" "exchange pre"
            "q' = q + of_nat (length pre)" "trs' = trs @ List.map_filter result_of pre"
          unfolding sid_def by blast
        have "numbered q (pre @ body)" using pre(3,7) b(3) by (simp add: numbered_append)
        moreover have "log w' = (log w)(sid := log w sid @ pre @ body)" using b(2) pre(2) fr by simp
        moreover have "case r of
               Inl _ \<Rightarrow> (\<forall>x \<in> set (pre @ body). outbound_of x = None)
             | Inr out \<Rightarrow> (\<exists>b j p. pre @ body = b @ [AssistantMessage j p sid (ti_agent_id input) (to_final_text out)]
                \<and> exchange b \<and> to_tool_results out = trs @ List.map_filter result_of b
                \<and> to_events out = [OutboundResponse sid (ti_agent_id input) (to_final_text out)])"
        proof (cases r)
          case (Inl e)
          with b(5) pre(5) show ?thesis by auto
        next
          case (Inr out)
          with b(5) obtain bb j p where bb: "body = bb @ [AssistantMessage j p sid (ti_agent_id input) (to_final_text out)]"
              "exchange bb" "to_tool_results out = trs' @ List.map_filter result_of bb"
              "to_events out = [OutboundResponse sid (ti_agent_id input) (to_final_text out)]" by auto
          with Inr pre(8) exchange_append [OF pre(6) bb(2)] show ?thesis
            by (auto simp: map_filter_append intro!: exI [of _ "pre @ bb"])
        qed
        ultimately show ?thesis
          using b(4) pre(1,4) fr unfolding sid_def [symmetric] by (intro conjI exI [of _ "pre @ body"]) auto
      qed
    qed
  qed
qed

end

context agent_turn
begin

lemma run_turn_log:
  assumes "run_turn R S input w = (r, w')" and "ok w'"
  shows "\<exists>new. log w' = (log w)(ti_session_id input := log w (ti_session_id input) @ new)
     \<and> numbered (of_nat (length (log w (ti_session_id input))) + 1) new \<and> owned input new
     \<and> (case r of
          Inl _ \<Rightarrow> (\<forall>x \<in> set new. outbound_of x = None)
        | Inr out \<Rightarrow> (\<exists>i p b j p'. new = UserMessage i p (ti_session_id input) (ti_agent_id input) (ti_user_message input)
               # b @ [AssistantMessage j p' (ti_session_id input) (ti_agent_id input) (to_final_text out)]
            \<and> exchange b \<and> to_tool_results out = List.map_filter result_of b)
            \<and> to_events out = List.map_filter outbound_of new)"
proof (cases "rs_records S (ti_session_id input) w")
  case (Inl e)
  with assms have "r = Inl e" "w' = w" by (simp_all add: run_turn_def next_sequence_def)
  then show ?thesis by (intro exI [of _ "[]"]) simp
next
  case (Inr rs)
  define sid where "sid = ti_session_id input"
  define q where "q = (of_nat (length (log w sid)) + 1 :: u64)"
  have nq: "next_sequence S sid w = Inr q"
    using Inr records_length [of sid w rs] by (simp add: next_sequence_def sid_def q_def)
  let ?u = "\<lambda>i. UserMessage i q sid (ti_agent_id input) (ti_user_message input)"
  obtain sr w1 where s: "store_record R S ?u w = (sr, w1)" by (rule prod.exhaust)
  show ?thesis
  proof (cases sr)
    case (Inl e)
    with assms nq s have "r = Inl e" "w' = w1" by (simp_all add: run_turn_def sid_def)
    with store_record_err [of ?u w e w1] s Inl show ?thesis by (intro exI [of _ "[]"]) simp
  next
    case (Inr u)
    with assms(1) nq s have run: "run_rounds R S input (re_max_tool_iterations R) (q + 1) [] w1 = (r, w')"
      by (simp add: run_turn_def sid_def)
    from run_rounds_log [OF run assms(2)] obtain body where b: "ok w1" "log w' = (log w1)(sid := log w1 sid @ body)"
        "numbered (q + 1) body" "owned input body"
        "case r of
          Inl _ \<Rightarrow> (\<forall>x \<in> set body. outbound_of x = None)
        | Inr out \<Rightarrow> (\<exists>b j p. body = b @ [AssistantMessage j p sid (ti_agent_id input) (to_final_text out)]
            \<and> exchange b \<and> to_tool_results out = [] @ List.map_filter result_of b
            \<and> to_events out = [OutboundResponse sid (ti_agent_id input) (to_final_text out)])"
      unfolding sid_def by blast
    obtain i where i: "log w1 = (log w)(sid := log w sid @ [?u i])"
      using store_record_ok [of ?u w u w1 sid] s Inr b(1) by auto
    have "case r of
          Inl _ \<Rightarrow> (\<forall>x \<in> set (?u i # body). outbound_of x = None)
        | Inr out \<Rightarrow> (\<exists>i p b j p'. ?u i' # body = UserMessage i p sid (ti_agent_id input) (ti_user_message input)
               # b @ [AssistantMessage j p' sid (ti_agent_id input) (to_final_text out)]
            \<and> exchange b \<and> to_tool_results out = List.map_filter result_of b)
            \<and> to_events out = List.map_filter outbound_of (?u i' # body)" for i'
    proof (cases r)
      case (Inl e)
      with b(5) show ?thesis by simp
    next
      case (Inr out)
      with b(5) obtain bb j p where bb: "body = bb @ [AssistantMessage j p sid (ti_agent_id input) (to_final_text out)]"
          "exchange bb" "to_tool_results out = List.map_filter result_of bb"
          "to_events out = [OutboundResponse sid (ti_agent_id input) (to_final_text out)]" by auto
      have "List.map_filter outbound_of bb = []" using exchange_silent [OF bb(2)] by (rule map_filter_none)
      with Inr bb show ?thesis by (auto simp: map_filter_append map_filter_simps)
    qed
    from this [of i] show ?thesis
      using b(2-4) i unfolding sid_def [symmetric] q_def [symmetric]
      by (intro exI [of _ "?u i # body"]) (simp add: sid_def)
  qed
qed

end

section \<open>How often the provider is asked\<close>

text \<open>A count of the provider's answers that nothing else changes.\<close>

locale asked =
  fixes S :: "('j, 'w, 'z) runtime_store_scheme" and R :: "('j, 'w) runtime_env" and asks :: "'w \<Rightarrow> nat"
  assumes complete_asks: "re_complete R q w = (r, w') \<Longrightarrow> asks w' = Suc (asks w)"
    and tool_asks: "re_tools R n = Some tool \<Longrightarrow> tool c w = (r', w') \<Longrightarrow> asks w' = asks w"
    and id_asks: "re_new_id R w = (i, w') \<Longrightarrow> asks w' = asks w"
    and append_asks: "rs_append S rc w = (r'', w') \<Longrightarrow> asks w' = asks w"
begin

lemma store_record_asks: "store_record R S mk w = (r, w') \<Longrightarrow> asks w' = asks w"
  by (auto simp: store_record_def split: prod.splits dest!: append_asks id_asks)

lemma execute_tool_asks: "execute_tool R c w = (r, w') \<Longrightarrow> asks w' = asks w"
  by (auto simp: execute_tool_def split: option.splits prod.splits sum.splits runtime_error.splits dest!: tool_asks)

lemma run_calls_asks: "run_calls R S input calls q trs w = (r, w') \<Longrightarrow> asks w' = asks w"
proof (induction calls arbitrary: q trs w)
  case (Cons c calls)
  then show ?case
    by (auto simp del: fun_upd_apply split: prod.splits sum.splits dest!: store_record_asks execute_tool_asks)
qed simp

lemma run_rounds_asks:
  "run_rounds R S input n q trs w = (r, w') \<Longrightarrow>
     asks w' \<le> asks w + n \<and> (case r of Inl _ \<Rightarrow> True | Inr _ \<Rightarrow> asks w < asks w')"
proof (induction n arbitrary: q trs w)
  case (Suc n)
  let ?q = "\<lparr>pq_session_id = ti_session_id input, pq_agent_id = ti_agent_id input, pq_messages = user_messages input, pq_tool_results = trs\<rparr>"
  obtain pr w1 where p: "re_complete R ?q w = (pr, w1)" by (rule prod.exhaust)
  note a = complete_asks [OF p]
  show ?case
  proof (cases "\<exists>resp. pr = Inr resp \<and> pp_final_text resp = None")
    case True
    then obtain resp where resp: "pr = Inr resp" "pp_final_text resp = None" by blast
    obtain cr w2 where c: "run_calls R S input (pp_tool_calls resp) q trs w1 = (cr, w2)" by (rule prod.exhaust)
    note a2 = run_calls_asks [OF c]
    show ?thesis
    proof (cases cr)
      case (Inr qt)
      with Suc.prems p resp c have "run_rounds R S input n (fst qt) (snd qt) w2 = (r, w')" by (simp split: prod.splits)
      from Suc.IH [OF this] a a2 show ?thesis by (auto split: sum.splits)
    qed (use Suc.prems p resp c a a2 in auto)
  next
    case False
    then show ?thesis
      using Suc.prems p a by (auto split: sum.splits option.splits prod.splits dest!: store_record_asks)
  qed
qed auto

lemma run_turn_asks:
  assumes "run_turn R S input w = (r, w')"
  shows "asks w' \<le> asks w + re_max_tool_iterations R \<and> (case r of Inl _ \<Rightarrow> True | Inr _ \<Rightarrow> asks w < asks w')"
  using assms by (auto simp: run_turn_def split: sum.splits prod.splits dest!: store_record_asks run_rounds_asks)

text \<open>A provider that only ever calls tools.\<close>

lemma run_rounds_limit:
  assumes "\<And>q w. \<exists>calls w'. re_complete R q w = (Inr (response_tool_calls calls), w')"
    and "\<And>rc w. \<exists>w'. rs_append S rc w = (Inr (), w')"
  shows "\<exists>w'. run_rounds R S input n q trs w = (Inl (IterationLimit (re_max_tool_iterations R)), w') \<and> asks w' = asks w + n"
proof (induction n arbitrary: q trs w)
  case (Suc n)
  have store: "\<exists>w'. store_record R S mk w = (Inr (), w')" for mk w
    using assms(2) by (auto simp: store_record_def split: prod.splits)
  have calls: "\<exists>q' trs' w'. run_calls R S input calls q trs w = (Inr (q', trs'), w')" for calls q trs w
  proof (induction calls arbitrary: q trs w)
    case (Cons c calls)
    obtain w1 where "store_record R S (\<lambda>i. AssistantToolCall i q (ti_session_id input) (ti_agent_id input) (tc_id c) (tc_name c)
        (tc_arguments c)) w = (Inr (), w1)" using store by blast
    moreover obtain res w2 where "execute_tool R c w1 = (res, w2)" by (rule prod.exhaust)
    moreover obtain w3 where "store_record R S (\<lambda>i. ToolResultRecord i (q + 1) (ti_session_id input) (ti_agent_id input)
        (tr_call_id res) (tr_tool_name res) (tr_content res) (tr_is_error res)) w2 = (Inr (), w3)" using store by blast
    ultimately show ?case using Cons.IH by simp
  qed simp
  let ?q = "\<lparr>pq_session_id = ti_session_id input, pq_agent_id = ti_agent_id input, pq_messages = user_messages input, pq_tool_results = trs\<rparr>"
  obtain cs w1 where p: "re_complete R ?q w = (Inr (response_tool_calls cs), w1)" using assms(1) by blast
  obtain q' trs' w2 where c: "run_calls R S input cs q trs w1 = (Inr (q', trs'), w2)" using calls by blast
  from Suc.IH [of q' trs' w2] p c complete_asks [OF p] run_calls_asks [OF c] show ?case
    by (auto simp: response_tool_calls_def)
qed simp

end

section \<open>Properties of a turn\<close>

text \<open>C34. Every turn leaves a well-formed piece of log, whether it succeeds or not: it appends to its own
  session only, its records carry the session and the agent of the turn and are numbered without a
  gap from one past the records there were. A turn that returns has written the user message, then
  tool calls each followed by its result, then the assistant message with the returned text; it
  returns exactly the stored results, and its events are the ones a replay of its records yields. A
  turn that fails has written no assistant message.\<close>

theorem turn_log_wellformed:
  assumes "agent_turn S log ok R" and "run_turn R S input w = (r, w')" and "ok w'"
  shows "\<exists>new. log w' = (log w)(ti_session_id input := log w (ti_session_id input) @ new)
     \<and> numbered (of_nat (length (log w (ti_session_id input))) + 1) new
     \<and> (\<forall>x \<in> set new. rec_session_id x = ti_session_id input \<and> rec_agent_id x = ti_agent_id input)
     \<and> (case r of
          Inl _ \<Rightarrow> (\<forall>x \<in> set new. outbound_of x = None)
        | Inr out \<Rightarrow> (\<exists>i p b j p'. new = UserMessage i p (ti_session_id input) (ti_agent_id input) (ti_user_message input)
               # b @ [AssistantMessage j p' (ti_session_id input) (ti_agent_id input) (to_final_text out)]
            \<and> exchange b \<and> to_tool_results out = List.map_filter result_of b)
            \<and> to_events out = List.map_filter outbound_of new)"
  using agent_turn.run_turn_log [OF assms] by simp

text \<open>A provider that asks for one tool and then answers.\<close>

definition demo_runtime :: "(string, string mem_turns \<times> nat) runtime_env" where
  "demo_runtime =
     \<lparr>re_complete = (\<lambda>q w. (Inr (if pq_tool_results q = [] then response_tool_calls [demo_call ''echo'']
          else response_final_text ''done''), fst w, Suc (snd w))),
      re_tools = [''echo'' \<mapsto> \<lambda>c w. (Inr \<lparr>tr_call_id = tc_id c, tr_tool_name = tc_name c, tr_content = tc_arguments c, tr_is_error = False\<rparr>, w)],
      re_new_id = (\<lambda>w. (''id'', w)), re_max_tool_iterations = default_max_tool_iterations\<rparr>"

definition demo_input :: turn_input where
  "demo_input = \<lparr>ti_session_id = ''s'', ti_agent_id = ''a'', ti_user_message = ''hi''\<rparr>"

abbreviation demo_memory :: "string mem_turns \<times> nat" where
  "demo_memory \<equiv> (\<lparr>mt_records_by_session = Map.empty, mt_poisoned = False\<rparr>, 0)"

interpretation demo_turn: agent_turn mem_turn_store "\<lambda>w i. unwrap_or_default (mt_records_by_session (fst w) i)" "\<lambda>_. True" demo_runtime
  by unfold_locales (auto simp: demo_runtime_def split: if_splits)

interpretation demo_asked: asked mem_turn_store demo_runtime snd
  by unfold_locales (auto simp: demo_runtime_def mem_turn_store_def on_store_def mem_turn_append_def Let_def split: if_splits prod.splits)

lemmas demo_turn_eval = run_turn_def next_sequence_def demo_runtime_def demo_input_def mem_turn_store_def on_store_def
  mem_turn_append_def mem_turn_records_def unwrap_or_default_def store_record_def default_max_tool_iterations_def
  numeral_eq_Suc response_tool_calls_def response_final_text_def demo_call_def execute_tool_def Let_def

lemma demo_turn_result:
  "fst (run_turn demo_runtime mem_turn_store demo_input demo_memory) =
     Inr \<lparr>to_session_id = ''s'', to_agent_id = ''a'', to_final_text = ''done'', to_events = [OutboundResponse ''s'' ''a'' ''done''],
          to_tool_results = [\<lparr>tr_call_id = ''c1'', tr_tool_name = ''echo'', tr_content = ''{}'', tr_is_error = False\<rparr>]\<rparr>"
  by (simp add: demo_turn_eval)

theorem turn_log_wellformed_witness:
  "\<exists>new. unwrap_or_default (mt_records_by_session (fst (snd (run_turn demo_runtime mem_turn_store demo_input demo_memory))) ''s'') = new
     \<and> numbered 1 new \<and> List.map_filter outbound_of new = [OutboundResponse ''s'' ''a'' ''done'']"
proof -
  have "run_turn demo_runtime mem_turn_store demo_input demo_memory =
      (fst (run_turn demo_runtime mem_turn_store demo_input demo_memory), snd (run_turn demo_runtime mem_turn_store demo_input demo_memory))"
    by simp
  from turn_log_wellformed [OF demo_turn.agent_turn_axioms this] show ?thesis
    unfolding demo_turn_result by (auto simp: demo_input_def unwrap_or_default_def fun_eq_iff)
qed

text \<open>C35. A turn ends: it asks the provider at most \<open>max_tool_iterations\<close> times, at least once when it
  returns an answer; and when a provider only ever calls tools and no append fails, it is asked
  exactly that often and the turn ends with the iteration limit.\<close>

theorem provider_asked_boundedly:
  assumes "asked S R asks" and "run_turn R S input w = (r, w')"
  shows "asks w' \<le> asks w + re_max_tool_iterations R \<and> (\<forall>out. r = Inr out \<longrightarrow> asks w < asks w')
    \<and> ((\<forall>q w. \<exists>calls w'. re_complete R q w = (Inr (response_tool_calls calls), w'))
       \<and> (\<forall>rc w. \<exists>w'. rs_append S rc w = (Inr (), w')) \<and> (\<exists>rs. rs_records S (ti_session_id input) w = Inr rs)
       \<longrightarrow> r = Inl (IterationLimit (re_max_tool_iterations R)) \<and> asks w' = asks w + re_max_tool_iterations R)"
proof (intro conjI impI)
  note a = asked.run_turn_asks [OF assms]
  show "asks w' \<le> asks w + re_max_tool_iterations R" and "\<forall>out. r = Inr out \<longrightarrow> asks w < asks w'" using a by auto
next
  assume H: "(\<forall>q w. \<exists>calls w'. re_complete R q w = (Inr (response_tool_calls calls), w'))
       \<and> (\<forall>rc w. \<exists>w'. rs_append S rc w = (Inr (), w')) \<and> (\<exists>rs. rs_records S (ti_session_id input) w = Inr rs)"
  obtain rs where rs: "rs_records S (ti_session_id input) w = Inr rs" using H by blast
  let ?u = "\<lambda>i. UserMessage i (of_nat (length rs) + 1) (ti_session_id input) (ti_agent_id input) (ti_user_message input)"
  obtain i w0 where i: "re_new_id R w = (i, w0)" by (rule prod.exhaust)
  obtain w1 where "rs_append S (?u i) w0 = (Inr (), w1)" using H by blast
  with i have w1: "store_record R S ?u w = (Inr (), w1)" by (simp add: store_record_def)
  obtain w2 where "run_rounds R S input (re_max_tool_iterations R) (of_nat (length rs) + 1 + 1) [] w1
      = (Inl (IterationLimit (re_max_tool_iterations R)), w2)" "asks w2 = asks w1 + re_max_tool_iterations R"
    using asked.run_rounds_limit [OF assms(1)] H by blast
  then show "r = Inl (IterationLimit (re_max_tool_iterations R))" and "asks w' = asks w + re_max_tool_iterations R"
    using assms(2) rs w1 asked.store_record_asks [OF assms(1) w1] by (simp_all add: run_turn_def next_sequence_def)
qed

theorem provider_asked_boundedly_witness:
  "snd (snd (run_turn demo_runtime mem_turn_store demo_input demo_memory)) \<le> 4
   \<and> 0 < snd (snd (run_turn demo_runtime mem_turn_store demo_input demo_memory))"
proof -
  define rw where "rw = run_turn demo_runtime mem_turn_store demo_input demo_memory"
  have lim: "re_max_tool_iterations demo_runtime = 4" by (simp add: demo_runtime_def default_max_tool_iterations_def)
  have "run_turn demo_runtime mem_turn_store demo_input demo_memory = (fst rw, snd rw)" by (simp add: rw_def)
  from provider_asked_boundedly [OF demo_asked.asked_axioms this] show ?thesis
    unfolding lim rw_def [symmetric] demo_turn_result [folded rw_def] by auto
qed

end
