(* ===== verification/Agent_Jobs.thy ===== *)
theory Agent_Jobs
  imports Agent_Turn
begin

text \<open>
  Forced runs of jobs: what is recorded of a run, and what its replay shows.
\<close>

locale job_turn = job_runs J log ok runs + agent_turn J log ok R
  for J :: "('j, 'w) job_store" and log :: "'w \<Rightarrow> string \<Rightarrow> 'j stored_turn_record list" and ok :: "'w \<Rightarrow> bool"
    and runs :: "'w \<Rightarrow> string \<Rightarrow> job_run_record option" and R :: "('j, 'w) runtime_env" +
  assumes provider_runs: "re_complete R q w = (r, w') \<Longrightarrow> runs w' = runs w"
    and tool_runs: "re_tools R n = Some tool \<Longrightarrow> tool c w = (r', w') \<Longrightarrow> runs w' = runs w"
    and id_runs: "re_new_id R w = (i, w') \<Longrightarrow> runs w' = runs w"
begin

text \<open>What \<open>force_run_job\<close> has done when it returns a run.\<close>

lemma force_run_steps:
  assumes run: "force_run_job R J job_id w = (Inr run, w')" and "ok w'"
  shows "\<exists>d w2 result w3.
     js_job_definition J job_id w = Inr (Some d) \<and> jd_enabled d
   \<and> jr_session_id run = (case jd_session_id d of Some s \<Rightarrow> s | None \<Rightarrow> ''job:'' @ jd_job_id d @ '':run:'' @ jr_run_id run)
   \<and> jr_trace_session_id run = jr_session_id run \<and> jr_job_id run = jd_job_id d
   \<and> jr_started_sequence run = of_nat (length (log w (jr_session_id run))) + 1
   \<and> jr_completed_sequence run = Some (of_nat (length (log w' (jr_session_id run))))
   \<and> log w2 = log w \<and> log w' = log w3 \<and> ok w3
   \<and> run_turn R J \<lparr>ti_session_id = jr_session_id run, ti_agent_id = jd_agent_id d, ti_user_message = jd_prompt d\<rparr> w2 = (result, w3)
   \<and> (case result of
        Inr out \<Rightarrow> jr_status run = JobSucceeded \<and> jr_final_text run = Some (to_final_text out) \<and> jr_error run = None
      | Inl e \<Rightarrow> jr_status run = JobFailed \<and> jr_final_text run = None \<and> jr_error run = Some (runtime_error_text e))
   \<and> runs w' (jr_run_id run) = Some run"
proof -
  from run obtain d where d: "js_job_definition J job_id w = Inr (Some d)" "jd_enabled d"
    by (auto simp: force_run_job_def ok_or_def andthen_def split: sum.splits option.splits if_splits)
  obtain i w0 where i: "re_new_id R w = (i, w0)" by (rule prod.exhaust)
  define sid where "sid = (case jd_session_id d of Some s \<Rightarrow> s | None \<Rightarrow> ''job:'' @ jd_job_id d @ '':run:'' @ i)"
  from run d i obtain b where b: "rs_records J sid w0 = Inr b"
    by (auto simp: force_run_job_def Let_def simp flip: sid_def split: sum.splits)
  define r0 where "r0 = \<lparr>jr_run_id = i, jr_job_id = jd_job_id d, jr_session_id = sid, jr_status = JobQueued,
      jr_started_sequence = of_nat (length b) + 1, jr_completed_sequence = None, jr_output_summary = None,
      jr_final_text = None, jr_error = None, jr_trace_session_id = sid\<rparr>"
  obtain p1 w1 where p1: "js_put_job_run J r0 w0 = (p1, w1)" by (rule prod.exhaust)
  obtain p2 w2 where p2: "js_put_job_run J (r0\<lparr>jr_status := JobRunning\<rparr>) w1 = (p2, w2)" by (rule prod.exhaust)
  define inp where "inp = \<lparr>ti_session_id = sid, ti_agent_id = jd_agent_id d, ti_user_message = jd_prompt d\<rparr>"
  obtain result w3 where t: "run_turn R J inp w2 = (result, w3)" by (rule prod.exhaust)
  define fin :: "'j stored_turn_record list \<Rightarrow> job_run_record" where "fin = (\<lambda>aft. finish_run result (r0\<lparr>jr_status := JobRunning, jr_completed_sequence := Some (of_nat (length aft))\<rparr>))"
  from run d i b p1 [unfolded r0_def] have k1: "p1 = Inr ()"
    by (auto simp: force_run_job_def Let_def simp flip: sid_def split: sum.splits)
  from run d i b p1 [unfolded r0_def] k1 p2 [unfolded r0_def] have k2: "p2 = Inr ()"
    by (auto simp: force_run_job_def Let_def simp flip: sid_def split: sum.splits)
  from run d i b p1 [unfolded r0_def] k1 p2 [unfolded r0_def] k2 t [unfolded inp_def]
  obtain aft where aft: "rs_records J sid w3 = Inr aft" "js_put_job_run J (fin aft) w3 = (Inr (), w')" "run = fin aft"
    by (auto simp: force_run_job_def Let_def fin_def r0_def simp flip: sid_def split: sum.splits prod.splits)
  have fr: "log w0 = log w" "log w1 = log w" "log w2 = log w"
    using id_frame [OF i] put_run_ok p1 k1 p2 k2 by auto
  have put: "runs w' = (runs w3)(jr_run_id run \<mapsto> run)" "log w' = log w3" "ok w3"
    using put_run_ok [OF aft(2)] aft(3) assms(2) by auto
  have len: "length b = length (log w sid)" "length aft = length (log w' sid)"
    using records_length [OF b] records_length [OF aft(1)] fr put by simp_all
  have f: "jr_run_id run = i" "jr_session_id run = sid" "jr_trace_session_id run = sid" "jr_job_id run = jd_job_id d"
      "jr_started_sequence run = of_nat (length b) + 1" "jr_completed_sequence run = Some (of_nat (length aft))"
    using aft(3) by (cases result; simp add: fin_def finish_run_def r0_def)+
  have "case result of
        Inr out \<Rightarrow> jr_status run = JobSucceeded \<and> jr_final_text run = Some (to_final_text out) \<and> jr_error run = None
      | Inl e \<Rightarrow> jr_status run = JobFailed \<and> jr_final_text run = None \<and> jr_error run = Some (runtime_error_text e)"
    using aft(3) by (cases result) (simp_all add: fin_def finish_run_def)
  moreover have "jr_session_id run = (case jd_session_id d of Some s \<Rightarrow> s | None \<Rightarrow> ''job:'' @ jd_job_id d @ '':run:'' @ jr_run_id run)"
    unfolding f(1,2) sid_def by (rule refl)
  ultimately show ?thesis
    using d fr put len f(2-) t [unfolded inp_def]
    by - (rule exI [of _ d], rule exI [of _ w2], rule exI [of _ result], rule exI [of _ w3], simp)
qed

end

text \<open>C38. A forced run is recorded and replayable. When \<open>force_run_job\<close> returns a run, the job was defined
  and enabled; the run is stored under its id as returned; it spans the records of its session from
  one past those before it to the last one; it succeeded, with the final text of the turn, or failed,
  with the text of its error. Its replay shows the same run and the records of its session, and
  among their outbound events the final text of a run that succeeded.\<close>

theorem job_run_roundtrip:
  assumes "job_turn J log ok runs R" and "force_run_job R J job_id w = (Inr run, w')" and "ok w'"
  shows "(\<exists>d. js_job_definition J job_id w = Inr (Some d) \<and> jd_enabled d)
    \<and> runs w' (jr_run_id run) = Some run
    \<and> jr_started_sequence run = of_nat (length (log w (jr_session_id run))) + 1
    \<and> jr_completed_sequence run = Some (of_nat (length (log w' (jr_session_id run))))
    \<and> (jr_status run = JobSucceeded \<and> (\<exists>t. jr_final_text run = Some t) \<and> jr_error run = None
       \<or> jr_status run = JobFailed \<and> jr_final_text run = None \<and> jr_error run \<noteq> None)
    \<and> (\<forall>rp. replay_job_run J (jr_run_id run) w' = Inr rp \<longrightarrow>
         jp_run rp = run \<and> mset (rt_records (jp_trace rp)) = mset (log w' (jr_session_id run))
         \<and> (\<forall>t. jr_final_text run = Some t \<longrightarrow>
              (\<exists>a. OutboundResponse (jr_session_id run) a t \<in> set (rt_outbound_events (jp_trace rp)))))"
proof -
  obtain d w2 result w3 where o: "js_job_definition J job_id w = Inr (Some d)" "jd_enabled d"
    "jr_trace_session_id run = jr_session_id run"
    "jr_started_sequence run = of_nat (length (log w (jr_session_id run))) + 1"
    "jr_completed_sequence run = Some (of_nat (length (log w' (jr_session_id run))))"
    "log w' = log w3" "ok w3"
    "run_turn R J \<lparr>ti_session_id = jr_session_id run, ti_agent_id = jd_agent_id d, ti_user_message = jd_prompt d\<rparr> w2 = (result, w3)"
    "case result of
        Inr out \<Rightarrow> jr_status run = JobSucceeded \<and> jr_final_text run = Some (to_final_text out) \<and> jr_error run = None
      | Inl e \<Rightarrow> jr_status run = JobFailed \<and> jr_final_text run = None \<and> jr_error run = Some (runtime_error_text e)"
    "runs w' (jr_run_id run) = Some run"
    using job_turn.force_run_steps [OF assms] by (elim exE conjE) (rule that; assumption)
  note jr = job_turn.axioms(1) [OF assms(1)] and tn = job_turn.axioms(2) [OF assms(1)]
  have "jp_run rp = run \<and> mset (rt_records (jp_trace rp)) = mset (log w' (jr_session_id run))
      \<and> (\<forall>t. jr_final_text run = Some t \<longrightarrow>
           (\<exists>a. OutboundResponse (jr_session_id run) a t \<in> set (rt_outbound_events (jp_trace rp))))"
    if rp: "replay_job_run J (jr_run_id run) w' = Inr rp" for rp
  proof -
    obtain x rs where x: "js_job_run J (jr_run_id run) w' = Inr (Some x)" "rs_records J (jr_trace_session_id x) w' = Inr rs"
        "jp_run rp = x" "rt_records (jp_trace rp) = rs" "rt_outbound_events (jp_trace rp) = List.map_filter outbound_of rs"
      using rp by (auto simp: replay_job_run_def replay_session_trace_def build_trace_def err_simps)
    have run: "x = run" using job_runs.job_run_ok [OF jr x(1)] o(10) by simp
    then have rs: "mset rs = mset (log w' (jr_session_id run))"
      using turn_store.records_ok [OF agent_turn.axioms(1) [OF tn] x(2)] o(3) by simp
    have "\<exists>a. OutboundResponse (jr_session_id run) a t \<in> set (List.map_filter outbound_of rs)"
      if t: "jr_final_text run = Some t" for t
    proof -
      obtain out where out: "result = Inr out" "to_final_text out = t" using o(9) t by (auto split: sum.splits)
      obtain new i p b j p' where "log w3 = (log w2)(jr_session_id run := log w2 (jr_session_id run) @ new)"
          "new = UserMessage i p (jr_session_id run) (jd_agent_id d) (jd_prompt d)
             # b @ [AssistantMessage j p' (jr_session_id run) (jd_agent_id d) t]"
        using agent_turn.run_turn_log [OF tn o(8,7)] out by auto
      then have "AssistantMessage j p' (jr_session_id run) (jd_agent_id d) t \<in> set (log w' (jr_session_id run))"
        using o(6) by simp
      then have "AssistantMessage j p' (jr_session_id run) (jd_agent_id d) t \<in> set rs"
        using rs by (metis set_mset_mset)
      then show ?thesis by (force simp: List.map_filter_def)
    qed
    with x run rs show ?thesis by simp
  qed
  with o show ?thesis by (auto split: sum.splits)
qed

section \<open>A job for concrete inputs\<close>

type_synonym demo_agent_world = "((u64, bytes) RBT.rbt, (string, bytes) RBT.rbt) agent_db \<times> nat"

definition demo_job_runtime :: "(string, demo_agent_world) runtime_env" where
  "demo_job_runtime =
     \<lparr>re_complete = (\<lambda>q w. (Inr (response_final_text ''done''), w)), re_tools = Map.empty,
      re_new_id = (\<lambda>w. (''run'', w)), re_max_tool_iterations = default_max_tool_iterations\<rparr>"

definition demo_job :: "string job_definition" where
  "demo_job = \<lparr>jd_job_id = ''j'', jd_agent_id = ''a'', jd_session_id = Some ''s'', jd_prompt = ''go'',
     jd_schedule_spec = None, jd_enabled = True, jd_metadata = ''{}''\<rparr>"

abbreviation demo_job_store :: "(string, demo_agent_world) job_store" where
  "demo_job_store \<equiv> redb_job_store (rbt_agent_env (\<lambda>_ _. None))"

interpretation demo_jobs: job_turn demo_job_store "\<lambda>w. redb_log (rbt_agent_env (\<lambda>_ _. None)) (fst w)"
    "\<lambda>w. tb_get (RUNTIME_RECORDS_TABLE (rbt_agent_env (\<lambda>_ _. None))) (g_records (fst w)) 0 = None"
    "\<lambda>w. redb_runs (rbt_agent_env (\<lambda>_ _. None)) (fst w)" demo_job_runtime
  by unfold_locales (auto simp: demo_job_runtime_def)

text \<open>The same over plain maps, for evaluation.\<close>

type_synonym map_world = "(string \<Rightarrow> string stored_turn_record list) \<times> (string \<Rightarrow> job_run_record option)"

definition map_job_store :: "(string, map_world) job_store" where
  "map_job_store =
     \<lparr>rs_append = (\<lambda>r w. (Inr (), (fst w)(rec_session_id r := fst w (rec_session_id r) @ [r]), snd w)),
      rs_records = (\<lambda>i w. Inr (fst w i)),
      js_put_job_definition = (\<lambda>d w. (Inl (Store ''read only''), w)),
      js_job_definition = (\<lambda>i w. Inr (if i = ''j'' then Some demo_job else None)),
      js_list_job_definitions = (\<lambda>w. Inr [demo_job]),
      js_put_job_run = (\<lambda>r w. (Inr (), fst w, (snd w)(jr_run_id r \<mapsto> r))),
      js_job_run = (\<lambda>i w. Inr (snd w i)),
      js_list_job_runs = (\<lambda>i w. Inl (Store ''unavailable''))\<rparr>"

definition map_job_runtime :: "(string, map_world) runtime_env" where
  "map_job_runtime =
     \<lparr>re_complete = (\<lambda>q w. (Inr (response_final_text ''done''), w)), re_tools = Map.empty,
      re_new_id = (\<lambda>w. (''run'', w)), re_max_tool_iterations = default_max_tool_iterations\<rparr>"

interpretation map_jobs: job_turn map_job_store fst "\<lambda>_. True" snd map_job_runtime
  by unfold_locales (auto simp: map_job_store_def map_job_runtime_def)

definition map_run :: "(runtime_error + job_run_record) \<times> map_world" where
  "map_run = force_run_job map_job_runtime map_job_store ''j'' (\<lambda>_. [], Map.empty)"

lemma map_run_status: "\<exists>run. fst map_run = Inr run \<and> jr_run_id run = ''run'' \<and> jr_status run = JobSucceeded"
  by (simp add: map_run_def force_run_job_def map_job_runtime_def map_job_store_def demo_job_def run_turn_def next_sequence_def
      store_record_def default_max_tool_iterations_def numeral_eq_Suc response_final_text_def finish_run_def Let_def)

theorem job_run_roundtrip_witness:
  "\<exists>run. fst map_run = Inr run \<and> snd (snd map_run) ''run'' = Some run \<and> jr_status run = JobSucceeded"
proof -
  obtain run where run: "fst map_run = Inr run" "jr_run_id run = ''run''" "jr_status run = JobSucceeded"
    using map_run_status by blast
  then have "force_run_job map_job_runtime map_job_store ''j'' (\<lambda>_. [], Map.empty) = (Inr run, snd map_run)"
    by (simp add: map_run_def prod_eq_iff)
  from job_run_roundtrip [OF map_jobs.job_turn_axioms this] run show ?thesis by simp
qed

end
