(* ===== verification/Spec2Isabelle.thy ===== *)
theory Spec2Isabelle
  imports Redb_Instance Retry_Task Http_Registry Ws_Registry Agent_Jobs
begin

text \<open>
  A verification library for Seidrum: the event bus (\<open>crates/core/seidrum-eventbus\<close>) and the agent
  runtime (\<open>crates/core/seidrum-agent-runtime\<close>), the two crates that carry the guarantees the rest
  of the system builds on.

  \<^bold>\<open>The program.\<close> Processes publish events on dotted subjects. The bus appends every event to a durable
  log, looks the subject up in a trie of patterns, runs the synchronous interceptors in priority order
  (they may change or drop the event), fans it out to the asynchronous subscribers, and records what
  happened to each delivery. Failed deliveries are retried with backoff and end as delivered or
  dead-lettered. Requests subscribe to a fresh reply subject and wait. Remote clients reach the bus
  over HTTP and register webhooks, which are called under checks against server-side request forgery
  and behind circuit breakers, or over a WebSocket, where one connection publishes, subscribes, answers
  deliveries and intercepts events. The agent runtime drives a language model in turns: it stores the user
  message, asks a provider, runs the tools the provider calls under authorization and audit, and
  stores every step; jobs are turns that are started on their own and recorded.

  \<^bold>\<open>The model.\<close> A Rust struct is a \<open>record\<close>, an enum a \<open>datatype\<close>, a \<open>Result\<close> a sum with the error on the
  left, an unsigned integer a \<open>word\<close> that wraps as a release build does, a \<open>String\<close> its bytes. Code that
  changes state takes and returns it. What is not in the repository (redb, serde, tokio channels and
  timers, reqwest, the resolver, the clock, ids, base64, JSON) is a parameter: a field of an
  environment record, acting on a world of any type. A locale states what is relied on of a
  parameter, and is interpreted on concrete definitions. Operations of one component run one at a time;
  what other tasks do while one waits is a parameter where the code waits (a request for its reply).

  \<^bold>\<open>Theories.\<close>
  \<^item> \<open>Prelude\<close>: integers, error propagation, the string and slice functions of the standard library.
  \<^item> \<open>Bus_Error\<close>, \<open>Event_Filter\<close> (\<open>dispatch/filter.rs\<close>), \<open>Delivery_Channel\<close> (\<open>delivery/mod.rs\<close>,
    \<open>delivery/registry.rs\<close>): errors with their texts, filters against a reference semantics of
    formulas, channel configurations and the registry.
  \<^item> \<open>Subject_Index\<close> (\<open>dispatch/subject_index.rs\<close>): the trie, with insertion, removal, lookup, listing
    and search. The locale \<open>subject_router\<close> is its contract: a multiset of live entries.
  \<^item> \<open>Storage_Types\<close> (\<open>storage/types.rs\<close>, \<open>storage/mod.rs\<close>): events, deliveries and the trait as a record
    of operations; the reference log and the locale \<open>event_store\<close>. \<open>Memory_Store\<close>
    (\<open>storage/memory_store.rs\<close>) and \<open>Redb_Store\<close> with \<open>Redb_Instance\<close> (\<open>storage/redb_store.rs\<close>) implement
    it; every fallible call of the latter can fail at a point the environment chooses. \<open>Codec\<close> is a
    serialiser that meets the round-trip law.
  \<^item> \<open>Dispatch_Engine\<close> (\<open>dispatch/engine.rs\<close>, \<open>dispatch/interceptor.rs\<close>): validation, publish, the sync
    chain, the async fan-out, subscriptions, replay. \<open>Dispatch_Correct\<close> and \<open>Dispatch_Fanout\<close> hold what
    a publish does to the log and to the channels.
  \<^item> \<open>Retry_Policy\<close>, \<open>Retry_Task\<close> (\<open>delivery/retry.rs\<close>, \<open>storage/compaction.rs\<close>): backoff, one retry, the poll
    and the two background loops.
  \<^item> \<open>Request_Reply\<close> (\<open>request_reply.rs\<close>), \<open>Event_Bus\<close> (\<open>bus.rs\<close>): requests, the replier, and every method
    of the facade.
  \<^item> \<open>Remote_Transport\<close> (\<open>transport/mod.rs\<close>), \<open>Webhook\<close> (\<open>delivery/webhook.rs\<close>,
    \<open>delivery/webhook_interceptor.rs\<close>), \<open>Http_Transport\<close> with \<open>Http_Registry\<close> (\<open>transport/http.rs\<close>): remote
    patterns, addresses, circuit breakers, the HTTP handlers and the registrations they manage.
  \<^item> \<open>Bus_Ids\<close>: what a fresh subscription id buys. Its locales \<open>fresh_bus\<close> and \<open>growing_ids\<close> are the laws that
    the registries of both transports rest on.
  \<^item> \<open>Ws_Remote\<close> (\<open>delivery/ws_remote_interceptor.rs\<close>, \<open>delivery/ws_remote.rs\<close>): the proxies of clients that
    intercept or deliver. A call is cut at its awaits into steps, so a list of steps is an interleaving;
    the locale \<open>event_machine\<close> holds the induction over it. \<open>Ws_Transport\<close> with \<open>Ws_Registry\<close>
    (\<open>transport/ws.rs\<close>): a connection as a function of the messages and events that reach it, the
    operations of a client, and the cleanup.
  \<^item> \<open>Agent_Types\<close>, \<open>Tool_Authorization\<close>, \<open>Agent_Store\<close>, \<open>Agent_Codec\<close>, \<open>Agent_Contract\<close>, \<open>Agent_Runtime\<close>,
    \<open>Agent_Turn\<close>, \<open>Agent_Jobs\<close> (\<open>seidrum-agent-runtime/src/lib.rs\<close>): data and session ids, rules and
    audits, the turn store in memory and on redb, the turn loop and forced job runs.

  \<^bold>\<open>What is shown.\<close> Publishing: the log is written ahead and holds the original payload, the final status
  says whether a delivery failed, only matching subscribers receive the event, and a failing publish
  delivers nothing. Routing: lookup returns exactly the live matching subscriptions in priority order,
  after any history. Storage: both stores refine the reference log; under any fault the durable store
  fails without effect or does what the log does; without faults the two agree. Retries: one retry does
  what its outcome asks, retries end, backoff stays within its bounds. Requests: subscriptions are
  cleaned up however a request ends, and the first reply reaches the requester. Remote access: accepted
  patterns never match a reply subject, over any sequence of HTTP requests; registrations are counted
  exactly and capped, failing ones leave no trace, the rate limit is exact, an open authenticator is
  refused; webhooks go to public addresses only and circuits neither get stuck nor cool down for longer
  than configured. A WebSocket connection holds boundedly much, taps no reply, and after its cleanup the
  routing is what it was before; a remote interceptor passes an event on unless its client answered, no
  call of it leaks or hangs, and a delivery counts only when acknowledged. Agents: a turn leaves a well-formed piece of log, asks the provider boundedly often,
  runs tools only when allowed and audited, and a job run is recorded and replayable.

  \<^bold>\<open>Bounds and fuel.\<close> Every recursion of the model is structural or has a measure, so no definition has
  fuel. The background loops are functions of the list of branches that become ready. Where a 64-bit
  number could wrap, the statement says so: \<open>seq_room\<close> for the event log, the free key 0 for the tables
  of the agent store, fewer than \<open>2^64\<close> appends for the comparison of the turn stores.

  \<^bold>\<open>Not modelled.\<close> The local delivery channels (\<open>delivery/websocket.rs\<close>, \<open>delivery/in_process.rs\<close>) are thin
  wrappers over tokio channels; the builder wires the parts. The WebSocket handshake belongs to the
  library, and operations of different connections do not interleave. The kernel (\<open>seidrum-kernel\<close>: brain, orchestrator, registry, scheduler, scope, tool
  registry, consciousness) is mostly queries to a graph database and message plumbing on the bus; the
  API gateway, the daemon and the plugins are clients of external services. Opening database files,
  routing and decoding of HTTP requests, logging and metrics export are I/O.
\<close>

end
